(* ===== verification/Prelude.thy ===== *)
theory Prelude
  imports Main "HOL-Library.Multiset"
begin

text \<open>
  Shared material of the development: the collections of hints the component theories
  use, the last-n view of a bounded buffer, lists updated at the first match, the
  fallible results, and the contract of Go's \<open>sort.Slice\<close>.
\<close>

named_theorems go_defs \<open>definitions of Go library functions, unfolded when a string is concrete\<close>
named_theorems inv_intros \<open>introduction rules of the component invariants\<close>

section \<open>Machine integers\<close>

text \<open>
  Go's \<open>int\<close> and \<open>int64\<close> are 64-bit two's complement; sums wrap around.
\<close>

definition int64_min :: int where "int64_min = - (2 ^ 63)"
definition int64_max :: int where "int64_max = 2 ^ 63 - 1"

definition wrap64 :: "int \<Rightarrow> int" where
  "wrap64 n = (n + 2 ^ 63) mod 2 ^ 64 - 2 ^ 63"

definition in_int64 :: "int \<Rightarrow> bool" where
  "in_int64 n \<longleftrightarrow> int64_min \<le> n \<and> n \<le> int64_max"

lemma wrap64_id [simp]: "in_int64 n \<Longrightarrow> wrap64 n = n"
  by (simp add: in_int64_def wrap64_def int64_min_def int64_max_def)

lemma wrap64_in_range: "in_int64 (wrap64 n)"
proof -
  have "0 \<le> (n + 2 ^ 63) mod (2 ^ 64 :: int)" by (rule pos_mod_sign) simp
  moreover have "(n + 2 ^ 63) mod (2 ^ 64 :: int) < 2 ^ 64" by (rule pos_mod_bound) simp
  ultimately show ?thesis
    by (simp add: in_int64_def wrap64_def int64_min_def int64_max_def)
qed

section \<open>The last n elements of a list\<close>

definition last_n :: "nat \<Rightarrow> 'a list \<Rightarrow> 'a list" where
  "last_n n xs = drop (length xs - n) xs"

lemma length_last_n [simp]: "length (last_n n xs) = min n (length xs)"
  by (simp add: last_n_def min_def)

lemma last_n_short [simp]: "length xs \<le> n \<Longrightarrow> last_n n xs = xs"
  by (simp add: last_n_def)

lemma last_n_Nil [simp]: "last_n n [] = []"
  by (simp add: last_n_def)

lemma set_last_n: "set (last_n n xs) \<subseteq> set xs"
  by (simp add: last_n_def set_drop_subset)

lemma last_n_append_single:
  assumes "0 < n"
  shows "last_n n (last_n n xs @ [x]) = last_n n (xs @ [x])"
proof (cases "length xs \<le> n")
  case True
  then show ?thesis by (simp add: last_n_def)
next
  case False
  then have "length (last_n n xs) = n" by simp
  then have "last_n n (last_n n xs @ [x]) = drop 1 (last_n n xs) @ [x]"
    using assms by (simp add: last_n_def)
  also have "\<dots> = drop (1 + (length xs - n)) xs @ [x]"
    by (simp add: last_n_def)
  also have "\<dots> = last_n n (xs @ [x])"
    using False assms by (simp add: last_n_def Suc_diff_le)
  finally show ?thesis .
qed

lemma sorted_wrt_last_n: "sorted_wrt P xs \<Longrightarrow> sorted_wrt P (last_n n xs)"
  by (simp add: last_n_def sorted_wrt_drop)

lemma distinct_map_last_n: "distinct (map f xs) \<Longrightarrow> distinct (map f (last_n n xs))"
  by (simp add: last_n_def drop_map [symmetric] distinct_drop)

text \<open>
  A bounded buffer is an operation that appends one element and keeps the last
  \<open>cap\<close>. The flow tracker and the log rings both promise this.
\<close>

locale ring_buffer =
  fixes push :: "nat \<Rightarrow> 'a list \<Rightarrow> 'a \<Rightarrow> 'a list"
  assumes push_spec: "0 < cap \<Longrightarrow> length buf \<le> cap \<Longrightarrow> push cap buf x = last_n cap (buf @ [x])"
begin

lemma push_bounded: "0 < cap \<Longrightarrow> length buf \<le> cap \<Longrightarrow> length (push cap buf x) \<le> cap"
  by (simp add: push_spec)

lemma push_last: "0 < cap \<Longrightarrow> length buf \<le> cap \<Longrightarrow> last (push cap buf x) = x"
  by (simp add: push_spec last_n_def)

lemma push_all:
  assumes "0 < cap" "length buf \<le> cap"
  shows "foldl (push cap) buf xs = last_n cap (buf @ xs)"
proof (induction xs rule: rev_induct)
  case Nil
  with assms show ?case by simp
next
  case (snoc x xs)
  have "foldl (push cap) buf (xs @ [x]) = push cap (last_n cap (buf @ xs)) x"
    using snoc by simp
  also have "\<dots> = last_n cap (last_n cap (buf @ xs) @ [x])"
    using assms by (simp add: push_spec)
  also have "\<dots> = last_n cap ((buf @ xs) @ [x])"
    using assms by (simp add: last_n_append_single)
  finally show ?case by simp
qed

lemma push_set: "0 < cap \<Longrightarrow> length buf \<le> cap \<Longrightarrow> set (push cap buf x) \<subseteq> insert x (set buf)"
  using set_last_n [of cap "buf @ [x]"] by (simp add: push_spec)

end

section \<open>Updating the first match\<close>

text \<open>
  The loops \<open>for i := range xs { if xs[i].ID != id { continue }; \<dots>; return }\<close> change the
  first element that matches and stop.
\<close>

fun update_first :: "('a \<Rightarrow> bool) \<Rightarrow> ('a \<Rightarrow> 'a) \<Rightarrow> 'a list \<Rightarrow> 'a list" where
  "update_first p f [] = []"
| "update_first p f (x # xs) = (if p x then f x # xs else x # update_first p f xs)"

lemma length_update_first [simp]: "length (update_first p f xs) = length xs"
  by (induction xs) auto

lemma update_first_id [simp]: "\<forall>x \<in> set xs. \<not> p x \<Longrightarrow> update_first p f xs = xs"
  by (induction xs) auto

lemma map_update_first [simp]: "(\<And>x. g (f x) = g x) \<Longrightarrow> map g (update_first p f xs) = map g xs"
  by (induction xs) auto

lemma find_update_first:
  "(\<And>x. p (f x) = p x) \<Longrightarrow> find p (update_first p f xs) = map_option f (find p xs)"
  by (induction xs) auto

lemma update_first_distinct:
  "distinct (map k xs) \<Longrightarrow>
   update_first (\<lambda>x. k x = i) f xs = map (\<lambda>x. if k x = i then f x else x) xs"
proof (induction xs)
  case Nil
  then show ?case by simp
next
  case (Cons x xs)
  show ?case
  proof (cases "k x = i")
    case True
    with Cons.prems have "\<forall>y \<in> set xs. k y \<noteq> i" by (auto simp: image_iff)
    then have "map (\<lambda>x. if k x = i then f x else x) xs = xs"
      by (induction xs) auto
    with True show ?thesis by simp
  next
    case False
    with Cons show ?thesis by simp
  qed
qed

lemma set_update_first: "x \<in> set (update_first p f xs) \<Longrightarrow> x \<in> set xs \<or> (\<exists>y \<in> set xs. p y \<and> x = f y)"
  by (induction xs) (auto split: if_splits)

section \<open>The contract of sort.Slice\<close>

text \<open>
  \<open>sort.Slice\<close> permutes the slice so that no later element is less than an earlier one. It
  is not stable: which of several minimal elements comes first is not promised. The
  balancer is proved for every sort that keeps this contract.
\<close>

locale slice_sort =
  fixes srt :: "('a \<Rightarrow> int) \<Rightarrow> 'a list \<Rightarrow> 'a list"
  assumes srt_perm: "mset (srt k xs) = mset xs"
    and srt_sorted: "sorted (map k (srt k xs))"
begin

lemma srt_set [simp]: "set (srt k xs) = set xs"
  using srt_perm by (metis set_mset_mset)

lemma srt_length [simp]: "length (srt k xs) = length xs"
  using srt_perm by (metis size_mset)

lemma srt_Nil_iff [simp]: "srt k xs = [] \<longleftrightarrow> xs = []"
  using srt_length [of k xs] by (metis length_0_conv)

lemma srt_hd_in: "xs \<noteq> [] \<Longrightarrow> srt k xs ! 0 \<in> set xs"
  by (metis nth_mem srt_length srt_set length_greater_0_conv)

lemma srt_hd_min:
  assumes "x \<in> set xs"
  shows "k (srt k xs ! 0) \<le> k x"
proof -
  from assms obtain i where i: "i < length (srt k xs)" "srt k xs ! i = x"
    by (metis in_set_conv_nth srt_set)
  with srt_sorted [of k xs] have "map k (srt k xs) ! 0 \<le> map k (srt k xs) ! i"
    by (intro sorted_nth_mono) auto
  moreover have "0 < length (srt k xs)" using i by linarith
  ultimately show ?thesis using i by (simp add: nth_map)
qed

end

text \<open>
  Insertion sort is what Go runs on a slice of at most twelve elements; it is also the
  log bus's own sort.
\<close>

fun ins_by :: "('a \<Rightarrow> int) \<Rightarrow> 'a \<Rightarrow> 'a list \<Rightarrow> 'a list" where
  "ins_by k x [] = [x]"
| "ins_by k x (y # ys) = (if k x < k y then x # y # ys else y # ins_by k x ys)"

definition insertion_sort :: "('a \<Rightarrow> int) \<Rightarrow> 'a list \<Rightarrow> 'a list" where
  "insertion_sort k xs = foldl (\<lambda>acc x. ins_by k x acc) [] xs"

lemma mset_ins_by [simp]: "mset (ins_by k x ys) = add_mset x (mset ys)"
  by (induction ys) auto

lemma set_ins_by [simp]: "set (ins_by k x ys) = insert x (set ys)"
  by (induction ys) auto

lemma sorted_ins_by: "sorted (map k ys) \<Longrightarrow> sorted (map k (ins_by k x ys))"
  by (induction ys) auto

lemma ins_by_filter:
  "sorted (map k ys) \<Longrightarrow>
   filter (\<lambda>y. k y = t) (ins_by k x ys) = filter (\<lambda>y. k y = t) ys @ filter (\<lambda>y. k y = t) [x]"
proof (induction ys)
  case Nil
  then show ?case by simp
next
  case (Cons y ys)
  show ?case
  proof (cases "k x < k y")
    case True
    have "filter (\<lambda>z. k z = k x) (y # ys) = []"
      using True Cons.prems by (auto simp: filter_empty_conv)
    then show ?thesis
      using True by (cases "t = k x") auto
  next
    case False
    with Cons show ?thesis by auto
  qed
qed

lemma insertion_sort_snoc: "insertion_sort k (xs @ [x]) = ins_by k x (insertion_sort k xs)"
  by (simp add: insertion_sort_def)

lemma insertion_sort_Nil [simp]: "insertion_sort k [] = []"
  by (simp add: insertion_sort_def)

lemma mset_insertion_sort [simp]: "mset (insertion_sort k xs) = mset xs"
  by (induction xs rule: rev_induct) (auto simp: insertion_sort_snoc)

lemma set_insertion_sort [simp]: "set (insertion_sort k xs) = set xs"
  by (metis mset_insertion_sort set_mset_mset)

lemma sorted_insertion_sort [simp]: "sorted (map k (insertion_sort k xs))"
  by (induction xs rule: rev_induct) (auto simp: insertion_sort_snoc sorted_ins_by)

lemma insertion_sort_stable:
  "filter (\<lambda>y. k y = t) (insertion_sort k xs) = filter (\<lambda>y. k y = t) xs"
  by (induction xs rule: rev_induct) (auto simp: insertion_sort_snoc ins_by_filter)

interpretation go_isort: slice_sort insertion_sort
  by unfold_locales auto

section \<open>Lists and options\<close>

lemma find_SomeD: "find p xs = Some x \<Longrightarrow> x \<in> set xs \<and> p x"
  by (auto simp: find_Some_iff)

lemma find_distinct:
  "distinct (map k xs) \<Longrightarrow> x \<in> set xs \<Longrightarrow> find (\<lambda>y. k y = k x) xs = Some x"
  by (induction xs) (auto simp: image_iff split: if_splits)

lemma filter_eq_find: "find p xs = (case filter p xs of [] \<Rightarrow> None | x # _ \<Rightarrow> Some x)"
  by (induction xs) auto

end
