(* ===== verification/Go_Strings.thy ===== *)
theory Go_Strings
  imports Prelude "HOL-Library.Sublist"
begin

text \<open>
  The functions of Go's packages \<open>strings\<close> and \<open>strconv\<close> that the program calls, over
  byte strings (\<open>char list\<close>). Case mapping and white space are the ASCII part of Go's:
  the program applies them to host names, URI schemes and configuration keywords.
\<close>

section \<open>Prefixes, suffixes, substrings\<close>

definition hasPrefix :: "string \<Rightarrow> string \<Rightarrow> bool" where
  [go_defs]: "hasPrefix s p = (take (length p) s = p)"

definition hasSuffix :: "string \<Rightarrow> string \<Rightarrow> bool" where
  [go_defs]: "hasSuffix s p = (length p \<le> length s \<and> drop (length s - length p) s = p)"

definition trimPrefix :: "string \<Rightarrow> string \<Rightarrow> string" where
  [go_defs]: "trimPrefix s p = (if hasPrefix s p then drop (length p) s else s)"

definition trimSuffix :: "string \<Rightarrow> string \<Rightarrow> string" where
  [go_defs]: "trimSuffix s p = (if hasSuffix s p then take (length s - length p) s else s)"

lemma hasPrefix_append: "hasPrefix s p \<longleftrightarrow> (\<exists>r. s = p @ r)"
  unfolding hasPrefix_def by (metis append_eq_conv_conj)

lemma hasPrefix_self [simp]: "hasPrefix (p @ r) p"
  by (simp add: hasPrefix_def)

lemma hasPrefix_Nil [simp]: "hasPrefix s []"
  by (simp add: hasPrefix_def)

lemma hasSuffix_append: "hasSuffix s p \<longleftrightarrow> (\<exists>r. s = r @ p)"
proof
  assume "hasSuffix s p"
  then have "s = take (length s - length p) s @ p"
    unfolding hasSuffix_def by (metis append_take_drop_id)
  then show "\<exists>r. s = r @ p" ..
qed (auto simp: hasSuffix_def)

lemma hasSuffix_self [simp]: "hasSuffix (r @ p) p"
  by (auto simp: hasSuffix_append)

lemma trimPrefix_self [simp]: "trimPrefix (p @ r) p = r"
  by (simp add: trimPrefix_def)

text \<open>\<open>strings.Index\<close>; the value -1 is \<open>None\<close>.\<close>

fun indexStr :: "string \<Rightarrow> string \<Rightarrow> nat option" where
  "indexStr [] sub = (if sub = [] then Some 0 else None)"
| "indexStr (x # xs) sub =
     (if hasPrefix (x # xs) sub then Some 0 else map_option Suc (indexStr xs sub))"

definition contains :: "string \<Rightarrow> string \<Rightarrow> bool" where
  [go_defs]: "contains s sub = (indexStr s sub \<noteq> None)"

lemma contains_iff: "contains s sub \<longleftrightarrow> (\<exists>a b. s = a @ sub @ b)"
proof (induction s)
  case Nil
  then show ?case by (simp add: contains_def)
next
  case (Cons x xs)
  have "contains (x # xs) sub \<longleftrightarrow> hasPrefix (x # xs) sub \<or> contains xs sub"
    by (auto simp: contains_def)
  also have "\<dots> \<longleftrightarrow> (\<exists>b. x # xs = sub @ b) \<or> (\<exists>a b. xs = a @ sub @ b)"
    by (simp add: Cons hasPrefix_append)
  also have "\<dots> \<longleftrightarrow> (\<exists>a b. x # xs = a @ sub @ b)"
    by (metis (no_types, opaque_lifting) append_Cons append_Nil list.inject neq_Nil_conv)
  finally show ?case .
qed

text \<open>\<open>strings.IndexByte\<close> and \<open>strings.LastIndexByte\<close>.\<close>

fun indexByte :: "string \<Rightarrow> char \<Rightarrow> nat option" where
  "indexByte [] c = None"
| "indexByte (x # xs) c = (if x = c then Some 0 else map_option Suc (indexByte xs c))"

fun lastIndexByte :: "string \<Rightarrow> char \<Rightarrow> nat option" where
  "lastIndexByte [] c = None"
| "lastIndexByte (x # xs) c =
     (case lastIndexByte xs c of
        Some i \<Rightarrow> Some (Suc i)
      | None \<Rightarrow> if x = c then Some 0 else None)"

lemma indexByte_None [simp]: "indexByte s c = None \<longleftrightarrow> c \<notin> set s"
  by (induction s) auto

lemma indexByte_Some:
  "indexByte s c = Some i \<longleftrightarrow> i < length s \<and> s ! i = c \<and> c \<notin> set (take i s)"
proof (induction s arbitrary: i)
  case Nil
  then show ?case by simp
next
  case (Cons x xs)
  then show ?case by (cases i) auto
qed

lemma indexByte_append [simp]: "c \<notin> set a \<Longrightarrow> indexByte (a @ c # b) c = Some (length a)"
  by (induction a) auto

lemma lastIndexByte_None [simp]: "lastIndexByte s c = None \<longleftrightarrow> c \<notin> set s"
  by (induction s) (auto split: option.splits)

lemma lastIndexByte_append [simp]: "c \<notin> set b \<Longrightarrow> lastIndexByte (a @ c # b) c = Some (length a)"
proof (induction a)
  case Nil
  then have "lastIndexByte b c = None" by (simp only: lastIndexByte_None not_False_eq_True)
  then show ?case by (simp del: lastIndexByte_None)
next
  case (Cons x a)
  then show ?case by simp
qed

section \<open>Splitting and joining\<close>

text \<open>\<open>strings.Split\<close> with a one-byte separator.\<close>

fun splitOn :: "char \<Rightarrow> string \<Rightarrow> string list" where
  "splitOn c [] = [[]]"
| "splitOn c (x # xs) =
     (if x = c then [] # splitOn c xs
      else (case splitOn c xs of [] \<Rightarrow> [[x]] | y # ys \<Rightarrow> (x # y) # ys))"

text \<open>\<open>strings.Join\<close>.\<close>

fun joinWith :: "string \<Rightarrow> string list \<Rightarrow> string" where
  "joinWith sep [] = []"
| "joinWith sep [x] = x"
| "joinWith sep (x # y # ys) = x @ sep @ joinWith sep (y # ys)"

lemma splitOn_not_Nil [simp]: "splitOn c s \<noteq> []"
  by (induction s) (auto split: list.splits)

lemma splitOn_none [simp]: "c \<notin> set s \<Longrightarrow> splitOn c s = [s]"
  by (induction s) auto

lemma splitOn_append [simp]: "c \<notin> set a \<Longrightarrow> splitOn c (a @ c # b) = a # splitOn c b"
  by (induction a) auto

lemma splitOn_joinWith:
  "xs \<noteq> [] \<Longrightarrow> \<forall>x \<in> set xs. c \<notin> set x \<Longrightarrow> splitOn c (joinWith [c] xs) = xs"
  by (induction "[c]" xs rule: joinWith.induct) auto

lemma joinWith_splitOn: "joinWith [c] (splitOn c s) = s"
proof (induction s)
  case Nil
  then show ?case by simp
next
  case (Cons x s)
  obtain y ys where ys: "splitOn c s = y # ys" by (meson neq_Nil_conv splitOn_not_Nil)
  with Cons show ?case by (cases ys) auto
qed

lemma splitOn_append_last:
  "splitOn c (a @ b) = butlast (splitOn c a) @ splitOn c (last (splitOn c a) @ b)"
proof (induction a)
  case (Cons x a)
  obtain y ys where y: "splitOn c a = y # ys" by (cases "splitOn c a") auto
  show ?case
  proof (cases "ys = []")
    case True
    then have "splitOn c (a @ b) = splitOn c (y @ b)" using Cons y by simp
    then show ?thesis using True y by simp
  next
    case False
    then have "splitOn c (a @ b) = y # butlast ys @ splitOn c (last ys @ b)" using Cons y by simp
    then show ?thesis using False y by simp
  qed
qed simp

lemma splitOn_sep: "splitOn c (a @ c # b) = splitOn c a @ splitOn c b"
proof (induction a)
  case (Cons x a)
  then show ?case by (cases "splitOn c a") auto
qed simp

lemma splitOn_parts: "p \<in> set (splitOn c s) \<Longrightarrow> c \<notin> set p \<and> set p \<subseteq> set s"
proof (induction s arbitrary: p)
  case Nil
  then show ?case by simp
next
  case (Cons x s)
  obtain y ys where ys: "splitOn c s = y # ys" by (meson neq_Nil_conv splitOn_not_Nil)
  from Cons.IH [of y] ys have y: "c \<notin> set y \<and> set y \<subseteq> set s" by simp
  show ?case
  proof (cases "x = c")
    case True
    with Cons show ?thesis by fastforce
  next
    case False
    with Cons.prems ys have "p = x # y \<or> p \<in> set ys" by auto
    then show ?thesis
    proof
      assume "p = x # y"
      with False y show ?thesis by auto
    next
      assume "p \<in> set ys"
      with Cons.IH [of p] ys show ?thesis by auto
    qed
  qed
qed

text \<open>\<open>strings.Cut(s, sep)\<close> with a one-byte separator: \<open>None\<close> where Go returns
  \<open>found = false\<close>.\<close>

definition cutByte :: "string \<Rightarrow> char \<Rightarrow> (string \<times> string) option" where
  [go_defs]: "cutByte s c =
     (case indexByte s c of None \<Rightarrow> None | Some i \<Rightarrow> Some (take i s, drop (Suc i) s))"

lemma cutByte_append [simp]: "c \<notin> set a \<Longrightarrow> cutByte (a @ c # b) c = Some (a, b)"
  by (simp add: cutByte_def)

lemma cutByte_None [simp]: "cutByte s c = None \<longleftrightarrow> c \<notin> set s"
proof -
  have "cutByte s c = None \<longleftrightarrow> indexByte s c = None"
    by (cases "indexByte s c") (auto simp: cutByte_def simp del: indexByte_None)
  then show ?thesis by simp
qed

lemma cutByte_Some: "cutByte s c = Some (a, b) \<Longrightarrow> s = a @ c # b \<and> c \<notin> set a"
proof -
  assume "cutByte s c = Some (a, b)"
  then obtain i where i: "indexByte s c = Some i" "a = take i s" "b = drop (Suc i) s"
    by (auto simp: cutByte_def split: option.splits)
  then have "i < length s" "s ! i = c" "c \<notin> set (take i s)" by (simp_all add: indexByte_Some)
  with i show ?thesis by (metis id_take_nth_drop)
qed

section \<open>Trimming\<close>

definition isSpace :: "char \<Rightarrow> bool" where
  [go_defs]: "isSpace c \<longleftrightarrow> c \<in> {CHR '' '', CHR 0x09, CHR 0x0A, CHR 0x0B, CHR 0x0C, CHR 0x0D}"

definition trimLeftBy :: "(char \<Rightarrow> bool) \<Rightarrow> string \<Rightarrow> string" where
  [go_defs]: "trimLeftBy p s = dropWhile p s"

definition trimRightBy :: "(char \<Rightarrow> bool) \<Rightarrow> string \<Rightarrow> string" where
  [go_defs]: "trimRightBy p s = rev (dropWhile p (rev s))"

definition trimSpace :: "string \<Rightarrow> string" where
  [go_defs]: "trimSpace s = trimRightBy isSpace (trimLeftBy isSpace s)"

text \<open>\<open>strings.Trim(s, cutset)\<close> and \<open>strings.TrimRight(s, cutset)\<close>.\<close>

definition trimChars :: "string \<Rightarrow> string \<Rightarrow> string" where
  [go_defs]: "trimChars s cutset =
     trimRightBy (\<lambda>c. c \<in> set cutset) (trimLeftBy (\<lambda>c. c \<in> set cutset) s)"

definition trimRight :: "string \<Rightarrow> string \<Rightarrow> string" where
  [go_defs]: "trimRight s cutset = trimRightBy (\<lambda>c. c \<in> set cutset) s"

lemma trimRightBy_id: "s = [] \<or> \<not> p (last s) \<Longrightarrow> trimRightBy p s = s"
proof (cases s rule: rev_cases)
  case (snoc ys y)
  moreover assume "s = [] \<or> \<not> p (last s)"
  ultimately show ?thesis by (simp add: trimRightBy_def)
qed (simp add: trimRightBy_def)

lemma trimLeftBy_id: "s = [] \<or> \<not> p (hd s) \<Longrightarrow> trimLeftBy p s = s"
  by (cases s) (auto simp: trimLeftBy_def)

lemma trimSpace_id: "s = [] \<or> \<not> isSpace (hd s) \<and> \<not> isSpace (last s) \<Longrightarrow> trimSpace s = s"
  by (auto simp: trimSpace_def trimLeftBy_id trimRightBy_id)

lemma trimSpace_no_space: "\<forall>c \<in> set s. \<not> isSpace c \<Longrightarrow> trimSpace s = s"
  by (rule trimSpace_id) auto

lemma trimRightBy_prefix: "\<exists>r. s = trimRightBy p s @ r \<and> (\<forall>c \<in> set r. p c)"
proof -
  have "rev s = takeWhile p (rev s) @ dropWhile p (rev s)" by simp
  then have "s = rev (dropWhile p (rev s)) @ rev (takeWhile p (rev s))"
    by (metis rev_append rev_rev_ident)
  moreover have "\<forall>c \<in> set (rev (takeWhile p (rev s))). p c"
    by (auto dest: set_takeWhileD)
  ultimately show ?thesis unfolding trimRightBy_def by blast
qed

lemma set_trimRightBy: "set (trimRightBy p s) \<subseteq> set s"
  using trimRightBy_prefix [of s p] by (metis Un_upper1 set_append)

lemma set_trimLeftBy: "set (trimLeftBy p s) \<subseteq> set s"
  unfolding trimLeftBy_def using set_dropWhileD by fastforce

lemma set_trimSpace: "set (trimSpace s) \<subseteq> set s"
  unfolding trimSpace_def using set_trimRightBy set_trimLeftBy by fast

lemma set_trimChars: "set (trimChars s cs) \<subseteq> set s"
  unfolding trimChars_def using set_trimRightBy set_trimLeftBy by fast

lemma last_trimRightBy: "trimRightBy p s \<noteq> [] \<Longrightarrow> \<not> p (last (trimRightBy p s))"
  unfolding trimRightBy_def by (metis hd_dropWhile last_rev rev.simps(1))

lemma hd_trimLeftBy: "trimLeftBy p s \<noteq> [] \<Longrightarrow> \<not> p (hd (trimLeftBy p s))"
  unfolding trimLeftBy_def by (metis hd_dropWhile)

lemma hd_trimRightBy: "trimRightBy p s \<noteq> [] \<Longrightarrow> hd (trimRightBy p s) = hd s"
  using trimRightBy_prefix [of s p] by (metis hd_append2)

lemma trimSpace_ends:
  assumes "trimSpace s \<noteq> []"
  shows "\<not> isSpace (hd (trimSpace s)) \<and> \<not> isSpace (last (trimSpace s))"
proof -
  let ?l = "trimLeftBy isSpace s"
  have ne: "trimRightBy isSpace ?l \<noteq> []" using assms by (simp add: trimSpace_def)
  moreover from this have "?l \<noteq> []" by (auto simp: trimRightBy_def)
  ultimately have "\<not> isSpace (hd (trimRightBy isSpace ?l))"
    by (simp add: hd_trimRightBy hd_trimLeftBy)
  with ne show ?thesis by (simp add: trimSpace_def last_trimRightBy)
qed

lemma trimSpace_idem [simp]: "trimSpace (trimSpace s) = trimSpace s"
  using trimSpace_ends trimSpace_id by blast

lemma trimSpace_keeps: "c \<in> set s \<Longrightarrow> \<not> isSpace c \<Longrightarrow> c \<in> set (trimSpace s)"
proof -
  assume c: "c \<in> set s" "\<not> isSpace c"
  have "s = takeWhile isSpace s @ trimLeftBy isSpace s" by (simp add: trimLeftBy_def)
  then have "c \<in> set (trimLeftBy isSpace s)"
    using c by (metis Un_iff set_append set_takeWhileD)
  moreover obtain r where "trimLeftBy isSpace s = trimSpace s @ r" "\<forall>x \<in> set r. isSpace x"
    using trimRightBy_prefix [of "trimLeftBy isSpace s" isSpace] by (auto simp: trimSpace_def)
  ultimately show ?thesis using c by auto
qed

section \<open>Letter case\<close>

definition lowerChar :: "char \<Rightarrow> char" where
  [go_defs]: "lowerChar c =
     (let n = of_char c :: nat in if 65 \<le> n \<and> n \<le> 90 then char_of (n + 32) else c)"

definition upperChar :: "char \<Rightarrow> char" where
  [go_defs]: "upperChar c =
     (let n = of_char c :: nat in if 97 \<le> n \<and> n \<le> 122 then char_of (n - 32) else c)"

definition toLower :: "string \<Rightarrow> string" where
  [go_defs]: "toLower s = map lowerChar s"

definition toUpper :: "string \<Rightarrow> string" where
  [go_defs]: "toUpper s = map upperChar s"

definition equalFold :: "string \<Rightarrow> string \<Rightarrow> bool" where
  [go_defs]: "equalFold a b = (toLower a = toLower b)"

lemma lowerChar_idem [simp]: "lowerChar (lowerChar c) = lowerChar c"
  by (simp add: lowerChar_def Let_def)

lemma toLower_idem [simp]: "toLower (toLower s) = toLower s"
  by (simp add: toLower_def)

lemma toLower_append [simp]: "toLower (a @ b) = toLower a @ toLower b"
  by (simp add: toLower_def)

lemma length_toLower [simp]: "length (toLower s) = length s"
  by (simp add: toLower_def)

text \<open>\<open>strings.ReplaceAll\<close> of one byte by another.\<close>

definition replaceByte :: "char \<Rightarrow> char \<Rightarrow> string \<Rightarrow> string" where
  [go_defs]: "replaceByte a b s = map (\<lambda>c. if c = a then b else c) s"

section \<open>strconv.Itoa and strconv.Atoi\<close>

definition digitChar :: "nat \<Rightarrow> char" where
  "digitChar d = char_of (48 + d)"

definition digitVal :: "char \<Rightarrow> nat option" where
  "digitVal c = (let n = of_char c :: nat in if 48 \<le> n \<and> n \<le> 57 then Some (n - 48) else None)"

fun natDigits :: "nat \<Rightarrow> string" where
  "natDigits n = (if n < 10 then [digitChar n] else natDigits (n div 10) @ [digitChar (n mod 10)])"

declare natDigits.simps [simp del]

lemma digitChar_digits [simp]:
  "digitChar 0 = CHR ''0''" "digitChar (Suc 0) = CHR ''1''" "digitChar 1 = CHR ''1''" "digitChar 2 = CHR ''2''" "digitChar 3 = CHR ''3''"
  "digitChar 4 = CHR ''4''" "digitChar 5 = CHR ''5''" "digitChar 6 = CHR ''6''" "digitChar 7 = CHR ''7''"
  "digitChar 8 = CHR ''8''" "digitChar 9 = CHR ''9''"
  by code_simp+

definition strconvItoa :: "int \<Rightarrow> string" where
  "strconvItoa i = (if i < 0 then CHR ''-'' # natDigits (nat (- i)) else natDigits (nat i))"

fun digitsVal :: "nat \<Rightarrow> string \<Rightarrow> nat option" where
  "digitsVal acc [] = Some acc"
| "digitsVal acc (c # cs) =
     (case digitVal c of None \<Rightarrow> None | Some d \<Rightarrow> digitsVal (10 * acc + d) cs)"

text \<open>
  \<open>strconv.Atoi\<close>: an optional sign, at least one decimal digit, a value that fits in
  64 bits. Go returns an error otherwise.
\<close>

definition strconvAtoi :: "string \<Rightarrow> int option" where
  "strconvAtoi s =
     (let (neg, ds) =
        (case s of
           c # cs \<Rightarrow> if c = CHR ''-'' then (True, cs) else if c = CHR ''+'' then (False, cs) else (False, s)
         | [] \<Rightarrow> (False, []))
      in if ds = [] then None
         else (case digitsVal 0 ds of
                 None \<Rightarrow> None
               | Some n \<Rightarrow>
                   let v = (if neg then - int n else int n)
                   in if in_int64 v then Some v else None))"

lemma of_char_256: "(of_char c :: nat) < 256"
proof -
  have "(of_char c :: nat) mod 256 = of_char c" by simp
  then show ?thesis by (metis mod_less_divisor zero_less_numeral)
qed

lemma digitVal_digitChar [simp]: "d < 10 \<Longrightarrow> digitVal (digitChar d) = Some d"
  by (simp add: digitVal_def digitChar_def Let_def)

lemma of_char_digitChar: "d < 10 \<Longrightarrow> (of_char (digitChar d) :: nat) = 48 + d"
  by (simp add: digitChar_def)

lemma digitsVal_append:
  "digitsVal acc (a @ b) = (case digitsVal acc a of None \<Rightarrow> None | Some n \<Rightarrow> digitsVal n b)"
  by (induction a arbitrary: acc) (auto split: option.splits)

lemma natDigits_not_Nil [simp]: "natDigits n \<noteq> []"
  by (subst natDigits.simps) simp

lemma natDigits_chars: "c \<in> set (natDigits n) \<Longrightarrow> \<exists>d < 10. c = digitChar d"
proof (induction n rule: natDigits.induct)
  case (1 n)
  show ?case
  proof (cases "n < 10")
    case True
    with "1.prems" show ?thesis by (subst (asm) natDigits.simps) auto
  next
    case False
    with "1.prems" have "c \<in> set (natDigits (n div 10)) \<or> c = digitChar (n mod 10)"
      by (subst (asm) natDigits.simps) auto
    with False "1.IH" show ?thesis by (metis mod_less_divisor zero_less_numeral)
  qed
qed

lemma natDigits_isdigit: "c \<in> set (natDigits n) \<Longrightarrow> 48 \<le> (of_char c :: nat) \<and> (of_char c :: nat) \<le> 57"
  by (auto dest!: natDigits_chars simp: of_char_digitChar)

lemma digitsVal_natDigits: "digitsVal acc (natDigits n) = Some (acc * 10 ^ length (natDigits n) + n)"
proof (induction n arbitrary: acc rule: natDigits.induct)
  case (1 n)
  show ?case
  proof (cases "n < 10")
    case True
    then show ?thesis by (simp add: natDigits.simps [of n])
  next
    case False
    have "digitsVal acc (natDigits n) =
        Some (10 * (acc * 10 ^ length (natDigits (n div 10)) + n div 10) + n mod 10)"
      using False "1.IH" by (simp add: natDigits.simps [of n] digitsVal_append)
    also have "10 * (acc * 10 ^ length (natDigits (n div 10)) + n div 10) + n mod 10
        = acc * 10 ^ Suc (length (natDigits (n div 10))) + (10 * (n div 10) + n mod 10)"
      by (simp add: algebra_simps)
    also have "\<dots> = acc * 10 ^ length (natDigits n) + n"
      using False by (simp add: natDigits.simps [of n])
    finally show ?thesis .
  qed
qed

lemma natDigits_inj [simp]: "natDigits a = natDigits b \<longleftrightarrow> a = b"
  by (metis add_0 digitsVal_natDigits mult_zero_left option.inject)

lemma strconvItoa_nat_inj [simp]: "strconvItoa (int a) = strconvItoa (int b) \<longleftrightarrow> a = b"
  by (simp add: strconvItoa_def)

lemma natDigits_no_sign:
  assumes "natDigits n = c # cs" shows "c \<noteq> CHR ''-'' \<and> c \<noteq> CHR ''+''"
proof -
  have "48 \<le> (of_char c :: nat)" using assms natDigits_isdigit [of c n] by simp
  then show ?thesis by auto
qed

lemma strconvAtoi_Itoa [simp]: "in_int64 i \<Longrightarrow> strconvAtoi (strconvItoa i) = Some i"
proof -
  assume i: "in_int64 i"
  show ?thesis
  proof (cases "i < 0")
    case True
    with i show ?thesis
      by (simp add: strconvAtoi_def strconvItoa_def digitsVal_natDigits)
  next
    case False
    obtain c cs where cs: "natDigits (nat i) = c # cs" by (meson neq_Nil_conv natDigits_not_Nil)
    with natDigits_no_sign [OF cs] digitsVal_natDigits [of 0 "nat i"] False i show ?thesis
      by (simp add: strconvAtoi_def strconvItoa_def Let_def)
  qed
qed

lemma strconvItoa_inj: "in_int64 a \<Longrightarrow> in_int64 b \<Longrightarrow> strconvItoa a = strconvItoa b \<longleftrightarrow> a = b"
  by (metis option.inject strconvAtoi_Itoa)

lemma strconvAtoi_range: "strconvAtoi s = Some i \<Longrightarrow> in_int64 i"
  by (auto simp: strconvAtoi_def Let_def split: option.splits if_splits list.splits)

lemma strconvItoa_chars:
  "c \<in> set (strconvItoa i) \<Longrightarrow> c = CHR ''-'' \<or> 48 \<le> (of_char c :: nat) \<and> (of_char c :: nat) \<le> 57"
  using natDigits_isdigit by (auto simp: strconvItoa_def split: if_splits)

lemma strconvItoa_no_colon [simp]: "CHR '':'' \<notin> set (strconvItoa i)"
  using strconvItoa_chars [of "CHR '':''" i] by auto

end
