(* ===== verification/Go_Net.thy ===== *)
theory Go_Net
  imports Go_Strings
begin

text \<open>
  The pure functions of Go's package \<open>net\<close> that the program calls on address strings:
  \<open>JoinHostPort\<close> and \<open>SplitHostPort\<close>, with every error of the latter.
\<close>

datatype hp_error = MissingPort | TooManyColons | MissingBracket | UnexpectedOpen | UnexpectedClose

definition joinHostPort :: "string \<Rightarrow> string \<Rightarrow> string" where
  "joinHostPort host port =
     (if CHR '':'' \<in> set host then ''['' @ host @ '']:'' @ port else host @ '':'' @ port)"

definition splitHostPort :: "string \<Rightarrow> hp_error + (string \<times> string)" where
  "splitHostPort hp =
     (case lastIndexByte hp (CHR '':'') of
        None \<Rightarrow> Inl MissingPort
      | Some i \<Rightarrow>
          if hp ! 0 = CHR ''['' then
            (case indexByte hp (CHR '']'') of
               None \<Rightarrow> Inl MissingBracket
             | Some e \<Rightarrow>
                 if Suc e = length hp then Inl MissingPort
                 else if Suc e \<noteq> i then
                   (if hp ! Suc e = CHR '':'' then Inl TooManyColons else Inl MissingPort)
                 else if CHR ''['' \<in> set (drop 1 hp) then Inl UnexpectedOpen
                 else if CHR '']'' \<in> set (drop (Suc e) hp) then Inl UnexpectedClose
                 else Inr (take (e - 1) (drop 1 hp), drop (Suc i) hp))
          else if CHR '':'' \<in> set (take i hp) then Inl TooManyColons
          else if CHR ''['' \<in> set hp then Inl UnexpectedOpen
          else if CHR '']'' \<in> set hp then Inl UnexpectedClose
          else Inr (take i hp, drop (Suc i) hp))"

text \<open>A host or port with none of the three delimiters.\<close>

definition plain_host :: "string \<Rightarrow> bool" where
  "plain_host h \<longleftrightarrow> CHR ''['' \<notin> set h \<and> CHR '']'' \<notin> set h"

definition plain_port :: "string \<Rightarrow> bool" where
  "plain_port p \<longleftrightarrow> CHR '':'' \<notin> set p \<and> CHR ''['' \<notin> set p \<and> CHR '']'' \<notin> set p"

lemma splitHostPort_plain:
  assumes "CHR '':'' \<notin> set h" "plain_host h" "plain_port p"
  shows "splitHostPort (h @ CHR '':'' # p) = Inr (h, p)"
proof -
  have "lastIndexByte (h @ CHR '':'' # p) (CHR '':'') = Some (length h)"
    using assms by (simp add: plain_port_def)
  moreover have "(h @ CHR '':'' # p) ! 0 \<noteq> CHR ''[''"
    using assms by (cases h) (auto simp: plain_host_def)
  ultimately show ?thesis
    using assms by (simp add: splitHostPort_def plain_host_def plain_port_def)
qed

lemma splitHostPort_bracketed:
  assumes "plain_host h" "plain_port p"
  shows "splitHostPort (CHR ''['' # h @ CHR '']'' # CHR '':'' # p) = Inr (h, p)"
proof -
  let ?s = "(CHR ''['' # h @ [CHR '']'']) @ CHR '':'' # p"
  have last: "lastIndexByte ?s (CHR '':'') = Some (length (CHR ''['' # h @ [CHR '']'']))"
    using assms by (intro lastIndexByte_append) (simp add: plain_port_def)
  have "indexByte ((CHR ''['' # h) @ CHR '']'' # CHR '':'' # p) (CHR '']'') = Some (length (CHR ''['' # h))"
    using assms by (intro indexByte_append) (simp add: plain_host_def)
  then have first: "indexByte ?s (CHR '']'') = Some (Suc (length h))" by simp
  have "splitHostPort ?s = Inr (h, p)"
    using assms by (simp only: splitHostPort_def last first option.case)
      (simp add: plain_host_def plain_port_def)
  then show ?thesis by simp
qed

theorem splitHostPort_joinHostPort:
  assumes "plain_host h" "plain_port p"
  shows "splitHostPort (joinHostPort h p) = Inr (h, p)"
  using assms by (auto simp: joinHostPort_def splitHostPort_plain splitHostPort_bracketed)

lemma joinHostPort_inj:
  assumes "plain_host h" "plain_port p" "plain_host h'" "plain_port p'"
    and "joinHostPort h p = joinHostPort h' p'"
  shows "h = h' \<and> p = p'"
  using assms splitHostPort_joinHostPort by (metis prod.inject sum.inject(2))

lemma plain_port_Itoa [simp]: "plain_port (strconvItoa i)"
  using strconvItoa_chars [of "CHR '':''" i] strconvItoa_chars [of "CHR ''[''" i]
    strconvItoa_chars [of "CHR '']''" i]
  by (auto simp: plain_port_def)

lemma joinHostPort_same_host:
  assumes "joinHostPort h p = joinHostPort h p'" shows "p = p'"
  using assms by (auto simp: joinHostPort_def split: if_splits)

lemma splitHostPort_two_colons:
  assumes "CHR ''['' \<noteq> hd h" "h \<noteq> []" "CHR '':'' \<in> set h" "CHR '':'' \<notin> set p"
  shows "splitHostPort (h @ CHR '':'' # p) = Inl TooManyColons"
proof -
  have "(h @ CHR '':'' # p) ! 0 = hd h" using assms by (cases h) auto
  with assms show ?thesis by (simp add: splitHostPort_def)
qed

text \<open>
  \<open>splitHostPort\<close> of the package singbox and its copy in xray: the port must also be a
  decimal number.
\<close>

definition splitHostPortInt :: "string \<Rightarrow> (string \<times> int) option" where
  "splitHostPortInt addr =
     (case splitHostPort addr of
        Inl _ \<Rightarrow> None
      | Inr (host, p) \<Rightarrow> (case strconvAtoi p of None \<Rightarrow> None | Some n \<Rightarrow> Some (host, n)))"

lemma splitHostPortInt_join:
  "plain_host h \<Longrightarrow> in_int64 n \<Longrightarrow> splitHostPortInt (joinHostPort h (strconvItoa n)) = Some (h, n)"
  by (simp add: splitHostPortInt_def splitHostPort_joinHostPort)

end
