(* ===== verification/Endpoint.thy ===== *)
theory Endpoint
  imports Go_Net
begin

text \<open>
  The endpoint record of \<open>subscription/parser.go\<close>, shared by every other component, and
  its configuration map. A missing key of a Go map reads as the empty string, and so does
  any key of a nil map, so a nil \<open>Config\<close> is the empty map here.
\<close>

type_synonym config = "string \<Rightarrow> string option"

definition cget :: "config \<Rightarrow> string \<Rightarrow> string" where
  "cget m k = (case m k of None \<Rightarrow> [] | Some v \<Rightarrow> v)"

lemma cget_upd [simp]: "cget (m(k \<mapsto> v)) k' = (if k' = k then v else cget m k')"
  by (simp add: cget_def)

lemma cget_empty [simp]: "cget Map.empty k = []"
  by (simp add: cget_def)

record endpoint =
  ID :: string
  Protocol :: string
  Name :: string
  Address :: string
  RawURI :: string
  Source :: string
  Config :: config
  Priority :: int
  Enabled :: bool
  LatencyMs :: int
  Status :: string

definition label :: "endpoint \<Rightarrow> string" where
  "label e = (if Name e \<noteq> [] then Name e @ '' ('' @ ID e @ '')'' else ID e)"

definition genID :: "string \<Rightarrow> string \<Rightarrow> string" where
  "genID protocol addr = protocol @ '':'' @ addr"

lemma genID_inj:
  assumes "CHR '':'' \<notin> set p" "CHR '':'' \<notin> set q"
  shows "genID p a = genID q b \<longleftrightarrow> p = q \<and> a = b"
proof
  assume "genID p a = genID q b"
  then have "cutByte (p @ CHR '':'' # a) (CHR '':'') = cutByte (q @ CHR '':'' # b) (CHR '':'')"
    by (simp add: genID_def)
  with assms show "p = q \<and> a = b" by simp
qed simp

text \<open>
  The record every scheme parser returns: enabled, not probed yet (latency -1, status
  unknown), no source and priority 0.
\<close>

definition fresh_endpoint ::
  "string \<Rightarrow> string \<Rightarrow> string \<Rightarrow> string \<Rightarrow> config \<Rightarrow> endpoint" where
  "fresh_endpoint protocol addr nm raw cfg =
     \<lparr>ID = genID protocol addr, Protocol = protocol, Name = nm, Address = addr, RawURI = raw,
      Source = [], Config = cfg, Priority = 0, Enabled = True, LatencyMs = -1,
      Status = ''unknown''\<rparr>"

lemma fresh_endpoint_sel [simp]:
  "ID (fresh_endpoint p a n r c) = genID p a"
  "Protocol (fresh_endpoint p a n r c) = p"
  "Name (fresh_endpoint p a n r c) = n"
  "Address (fresh_endpoint p a n r c) = a"
  "RawURI (fresh_endpoint p a n r c) = r"
  "Source (fresh_endpoint p a n r c) = []"
  "Config (fresh_endpoint p a n r c) = c"
  "Priority (fresh_endpoint p a n r c) = 0"
  "Enabled (fresh_endpoint p a n r c)"
  "LatencyMs (fresh_endpoint p a n r c) = -1"
  "Status (fresh_endpoint p a n r c) = ''unknown''"
  by (simp_all add: fresh_endpoint_def)

text \<open>The zero value of the struct, which Go returns beside an error.\<close>

definition zero_endpoint :: endpoint where
  "zero_endpoint = \<lparr>ID = [], Protocol = [], Name = [], Address = [], RawURI = [], Source = [],
     Config = Map.empty, Priority = 0, Enabled = False, LatencyMs = 0, Status = []\<rparr>"

text \<open>An endpoint the balancer may use.\<close>

definition live :: "endpoint \<Rightarrow> bool" where
  "live e \<longleftrightarrow> Enabled e \<and> Status e = ''ok''"

end
