(* ===== verification/Flows.thy ===== *)
theory Flows
  imports Endpoint
begin

text \<open>
  \<open>balancer/flows.go\<close> and \<open>balancer/stats.go\<close>: the ring of recent connections and the
  per-endpoint counters. A flow is shared by the ring and by the connection that carries
  it, so the model keeps flows in a heap indexed by their identifier and the ring holds
  identifiers. Reading the clock is an argument of each operation. Additions to the
  64-bit counters wrap around; the flow identifier is a \<open>nat\<close> (the code's \<open>uint64\<close>
  would wrap after \<open>2 ^ 64\<close> connections).
\<close>

section \<open>Flows\<close>

record flow =
  fID :: nat
  OpenedUnix :: int
  ClosedUnix :: int
  Client :: string
  Dest :: string
  EndpointID :: string
  fProtocol :: string
  fBytesUp :: int
  fBytesDown :: int
  Result :: string

record flows =
  heap :: "nat \<Rightarrow> flow option"
  buf :: "nat list"
  cap :: nat
  nextID :: nat

definition newFlows :: "int \<Rightarrow> flows" where
  "newFlows c = \<lparr>heap = Map.empty, buf = [], cap = (if c \<le> 0 then 200 else nat c), nextID = 0\<rparr>"

text \<open>The ring's append and trim of \<open>Begin\<close>.\<close>

definition pushTrim :: "nat \<Rightarrow> 'a list \<Rightarrow> 'a \<Rightarrow> 'a list" where
  "pushTrim c xs x =
     (let ys = xs @ [x] in if c < length ys then drop (length ys - c) ys else ys)"

definition flowBegin ::
  "int \<Rightarrow> string \<Rightarrow> string \<Rightarrow> string \<Rightarrow> string \<Rightarrow> flows \<Rightarrow> nat \<times> flows" where
  "flowBegin now client dest endpointID protocol f =
     (let i = Suc (nextID f);
          fl = \<lparr>fID = i, OpenedUnix = now, ClosedUnix = 0, Client = client, Dest = dest,
                EndpointID = endpointID, fProtocol = protocol, fBytesUp = 0, fBytesDown = 0,
                Result = ''open''\<rparr>
      in (i, f\<lparr>heap := (heap f)(i \<mapsto> fl), buf := pushTrim (cap f) (buf f) i, nextID := i\<rparr>))"

definition updFlow :: "nat \<Rightarrow> (flow \<Rightarrow> flow) \<Rightarrow> flows \<Rightarrow> flows" where
  "updFlow i g f = f\<lparr>heap := (heap f)(i := map_option g (heap f i))\<rparr>"

definition flowEnd :: "int \<Rightarrow> string option \<Rightarrow> nat \<Rightarrow> flows \<Rightarrow> flows" where
  "flowEnd now err i = updFlow i
     (\<lambda>fl. fl\<lparr>ClosedUnix := now,
              Result := (case err of Some e \<Rightarrow> ''error: '' @ e | None \<Rightarrow> ''ok'')\<rparr>)"

definition flowAdd :: "int \<Rightarrow> int \<Rightarrow> nat \<Rightarrow> flows \<Rightarrow> flows" where
  "flowAdd up down i = updFlow i
     (\<lambda>fl. fl\<lparr>fBytesUp := (if 0 < up then wrap64 (fBytesUp fl + up) else fBytesUp fl),
              fBytesDown := (if 0 < down then wrap64 (fBytesDown fl + down) else fBytesDown fl)\<rparr>)"

definition flowSnapshot :: "flows \<Rightarrow> flow list" where
  "flowSnapshot f = map (\<lambda>i. the (heap f i)) (buf f)"

definition flows_wf :: "flows \<Rightarrow> bool" where
  "flows_wf f \<longleftrightarrow> 0 < cap f \<and> length (buf f) \<le> cap f \<and> sorted_wrt (<) (buf f) \<and>
     (\<forall>i \<in> set (buf f). i \<le> nextID f \<and> (\<exists>fl. heap f i = Some fl \<and> fID fl = i))"

interpretation flow_ring: ring_buffer pushTrim
  by unfold_locales (auto simp: pushTrim_def last_n_def Let_def)

lemma newFlows_wf [inv_intros]: "flows_wf (newFlows c)"
  by (simp add: flows_wf_def newFlows_def)

lemma flowBegin_wf [inv_intros]:
  assumes "flows_wf f"
  shows "flows_wf (snd (flowBegin now cl d e p f))"
proof -
  let ?n = "Suc (nextID f)"
  from assms have c: "0 < cap f" "length (buf f) \<le> cap f" by (simp_all add: flows_wf_def)
  have "sorted_wrt (<) (buf f @ [?n])"
    using assms by (auto simp: flows_wf_def sorted_wrt_append)
  then have "sorted_wrt (<) (pushTrim (cap f) (buf f) ?n)"
    using c by (simp add: flow_ring.push_spec sorted_wrt_last_n)
  moreover have "length (pushTrim (cap f) (buf f) ?n) \<le> cap f"
    using c by (rule flow_ring.push_bounded)
  moreover have "set (pushTrim (cap f) (buf f) ?n) \<subseteq> insert ?n (set (buf f))"
    using c by (rule flow_ring.push_set)
  ultimately show ?thesis
    using assms by (auto simp: flows_wf_def flowBegin_def Let_def dest!: subsetD)
qed

lemma updFlow_wf [inv_intros]:
  assumes "flows_wf f" "\<And>fl. fID (g fl) = fID fl"
  shows "flows_wf (updFlow i g f)"
  using assms by (auto simp: flows_wf_def updFlow_def)

lemma flowEnd_wf [inv_intros]: "flows_wf f \<Longrightarrow> flows_wf (flowEnd now err i f)"
  unfolding flowEnd_def by (rule updFlow_wf) auto

lemma flowAdd_wf [inv_intros]: "flows_wf f \<Longrightarrow> flows_wf (flowAdd u d i f)"
  unfolding flowAdd_def by (rule updFlow_wf) auto

lemma flowBegin_fst [simp]: "fst (flowBegin now cl d e p f) = Suc (nextID f)"
  by (simp add: flowBegin_def Let_def)

lemma flowBegin_nextID [simp]: "nextID (snd (flowBegin now cl d e p f)) = Suc (nextID f)"
  by (simp add: flowBegin_def Let_def)

lemma flowBegin_heap:
  "heap (snd (flowBegin now cl d e p f)) (Suc (nextID f)) =
     Some \<lparr>fID = Suc (nextID f), OpenedUnix = now, ClosedUnix = 0, Client = cl, Dest = d,
           EndpointID = e, fProtocol = p, fBytesUp = 0, fBytesDown = 0, Result = ''open''\<rparr>"
  by (simp add: flowBegin_def Let_def)

lemma flowBegin_last: "flows_wf f \<Longrightarrow> last (buf (snd (flowBegin now cl d e p f))) = Suc (nextID f)"
  by (simp add: flowBegin_def Let_def flows_wf_def flow_ring.push_last)

lemma flowSnapshot_ids:
  assumes "flows_wf f" shows "map fID (flowSnapshot f) = buf f"
proof -
  have "\<forall>i \<in> set (buf f). fID (the (heap f i)) = i"
    using assms by (auto simp: flows_wf_def)
  then have "map (fID \<circ> (\<lambda>i. the (heap f i))) (buf f) = map id (buf f)" by (intro map_cong) auto
  then show ?thesis by (simp add: flowSnapshot_def)
qed

lemma flow_begins_ring:
  assumes "flows_wf f"
  shows "buf (foldl (\<lambda>f (now, cl, d, e, p). snd (flowBegin now cl d e p f)) f es) =
         last_n (cap f) (buf f @ map (\<lambda>k. Suc (nextID f) + k) [0..<length es])"
  using assms
proof (induction es rule: rev_induct)
  case Nil
  then show ?case by (simp add: flows_wf_def)
next
  case (snoc x es)
  define g where "g = foldl (\<lambda>f (now, cl, d, e, p). snd (flowBegin now cl d e p f)) f es"
  have g: "flows_wf g \<and> cap g = cap f \<and> nextID g = nextID f + length es"
    unfolding g_def using snoc.prems
  proof (induction es rule: rev_induct)
    case (snoc y ys)
    then show ?case
      by (auto simp: case_prod_unfold intro!: flowBegin_wf) (auto simp: flowBegin_def Let_def)
  qed simp
  obtain now cl d e p where x: "x = (now, cl, d, e, p)" by (cases x) auto
  have "buf (snd (flowBegin now cl d e p g)) = last_n (cap f) (buf g @ [Suc (nextID g)])"
    using g by (simp add: flowBegin_def Let_def flow_ring.push_spec flows_wf_def)
  also have "buf g = last_n (cap f) (buf f @ map (\<lambda>k. Suc (nextID f) + k) [0..<length es])"
    unfolding g_def using snoc by simp
  finally show ?case
    using g snoc.prems unfolding g_def [symmetric]
    by (simp add: x g_def [symmetric] last_n_append_single flows_wf_def)
qed

section \<open>Per-endpoint counters\<close>

record endpoint_stat =
  sID :: string
  Dials :: int
  DialErrors :: int
  Failovers :: int
  sBytesUp :: int
  sBytesDown :: int
  LastDialUnix :: int
  LastErrorUnix :: int
  LastError :: string

text \<open>
  The map from endpoint identifiers to counters, as an association list in the order of
  creation (Go leaves the order of a map's iteration open).
\<close>

type_synonym stats = "(string \<times> endpoint_stat) list"

definition newStats :: stats where "newStats = []"

definition zero_stat :: "string \<Rightarrow> endpoint_stat" where
  "zero_stat i = \<lparr>sID = i, Dials = 0, DialErrors = 0, Failovers = 0, sBytesUp = 0, sBytesDown = 0,
                  LastDialUnix = 0, LastErrorUnix = 0, LastError = []\<rparr>"

definition entry :: "string \<Rightarrow> stats \<Rightarrow> stats" where
  "entry i s = (if map_of s i \<noteq> None then s else s @ [(i, zero_stat i)])"

definition updStat :: "string \<Rightarrow> (endpoint_stat \<Rightarrow> endpoint_stat) \<Rightarrow> stats \<Rightarrow> stats" where
  "updStat i g s = update_first (\<lambda>(k, _). k = i) (\<lambda>(k, e). (k, g e)) (entry i s)"

definition recordDial :: "int \<Rightarrow> int \<Rightarrow> string \<Rightarrow> string option \<Rightarrow> stats \<Rightarrow> stats" where
  "recordDial now now' i err = updStat i
     (\<lambda>e. let e1 = e\<lparr>Dials := wrap64 (Dials e + 1), LastDialUnix := now\<rparr>
          in case err of
               None \<Rightarrow> e1
             | Some m \<Rightarrow> e1\<lparr>DialErrors := wrap64 (DialErrors e1 + 1), LastErrorUnix := now',
                           LastError := m\<rparr>)"

definition recordFailover :: "string \<Rightarrow> stats \<Rightarrow> stats" where
  "recordFailover i = updStat i (\<lambda>e. e\<lparr>Failovers := wrap64 (Failovers e + 1)\<rparr>)"

definition recordTraffic :: "string \<Rightarrow> int \<Rightarrow> int \<Rightarrow> stats \<Rightarrow> stats" where
  "recordTraffic i up down = updStat i
     (\<lambda>e. e\<lparr>sBytesUp := (if 0 < up then wrap64 (sBytesUp e + up) else sBytesUp e),
            sBytesDown := (if 0 < down then wrap64 (sBytesDown e + down) else sBytesDown e)\<rparr>)"

definition statsSnapshot :: "stats \<Rightarrow> endpoint_stat list" where
  "statsSnapshot s = map snd s"

definition stat_of :: "stats \<Rightarrow> string \<Rightarrow> endpoint_stat" where
  "stat_of s i = (case map_of s i of None \<Rightarrow> zero_stat i | Some e \<Rightarrow> e)"

definition stats_wf :: "stats \<Rightarrow> bool" where
  "stats_wf s \<longleftrightarrow> distinct (map fst s) \<and> (\<forall>(k, e) \<in> set s. sID e = k)"

lemma entry_wf: "stats_wf s \<Longrightarrow> stats_wf (entry i s)"
  by (auto simp: stats_wf_def entry_def zero_stat_def map_of_eq_None_iff)

lemma map_of_update_first:
  "map_of (update_first (\<lambda>(k, _). k = i) (\<lambda>(k, e). (k, g e)) s) j =
     (if j = i then map_option g (map_of s i) else map_of s j)"
  by (induction s) auto

lemma stat_of_updStat: "stat_of (updStat i g s) j = (if j = i then g (stat_of s i) else stat_of s j)"
proof -
  have "map_of (entry i s) i = Some (stat_of s i)"
    by (auto simp: entry_def stat_of_def map_add_def split: option.splits)
  moreover have "j \<noteq> i \<Longrightarrow> map_of (entry i s) j = map_of s j"
    by (auto simp: entry_def map_add_def split: option.splits)
  ultimately show ?thesis
    by (auto simp: updStat_def map_of_update_first stat_of_def [of "update_first _ _ _"])
       (auto simp: stat_of_def)
qed

lemma updStat_wf:
  assumes "stats_wf s" "\<And>e. sID (g e) = sID e"
  shows "stats_wf (updStat i g s)"
proof -
  have "map fst (updStat i g s) = map fst (entry i s)"
    unfolding updStat_def by (rule map_update_first) auto
  moreover have "\<forall>(k, e) \<in> set (updStat i g s). sID e = k"
  proof (rule ballI)
    fix x assume "x \<in> set (updStat i g s)"
    then have "x \<in> set (entry i s) \<or>
        (\<exists>y \<in> set (entry i s). x = (case y of (k, e) \<Rightarrow> (k, g e)))"
      unfolding updStat_def by (auto dest: set_update_first)
    then show "case x of (k, e) \<Rightarrow> sID e = k"
      using entry_wf [OF assms(1), of i] assms(2) by (auto simp: stats_wf_def)
  qed
  ultimately show ?thesis
    using entry_wf [OF assms(1), of i] by (simp add: stats_wf_def)
qed

lemma record_wf [inv_intros]:
  "stats_wf s \<Longrightarrow> stats_wf (recordDial t t' i err s)"
  "stats_wf s \<Longrightarrow> stats_wf (recordFailover i s)"
  "stats_wf s \<Longrightarrow> stats_wf (recordTraffic i u d s)"
  unfolding recordDial_def recordFailover_def recordTraffic_def
  by (rule updStat_wf; auto simp: Let_def split: option.splits)+

text \<open>The events the balancer reports, and the counters as counts of events.\<close>

datatype stat_event =
    EDial int int string "string option"
  | EFailover string
  | ETraffic string int int

fun applyEvent :: "stats \<Rightarrow> stat_event \<Rightarrow> stats" where
  "applyEvent s (EDial t t' i err) = recordDial t t' i err s"
| "applyEvent s (EFailover i) = recordFailover i s"
| "applyEvent s (ETraffic i u d) = recordTraffic i u d s"

fun dial_of :: "string \<Rightarrow> stat_event \<Rightarrow> bool" where
  "dial_of i (EDial t t' j err) = (j = i)"
| "dial_of i _ = False"

fun dial_error_of :: "string \<Rightarrow> stat_event \<Rightarrow> bool" where
  "dial_error_of i (EDial t t' j err) = (j = i \<and> err \<noteq> None)"
| "dial_error_of i _ = False"

fun failover_of :: "string \<Rightarrow> stat_event \<Rightarrow> bool" where
  "failover_of i (EFailover j) = (j = i)"
| "failover_of i _ = False"

lemma stat_counts:
  assumes "int (length es) \<le> int64_max"
  shows "Dials (stat_of (foldl applyEvent newStats es) i) = int (length (filter (dial_of i) es)) \<and>
         DialErrors (stat_of (foldl applyEvent newStats es) i) = int (length (filter (dial_error_of i) es)) \<and>
         Failovers (stat_of (foldl applyEvent newStats es) i) = int (length (filter (failover_of i) es))"
  using assms
proof (induction es rule: rev_induct)
  case Nil
  then show ?case by (simp add: stat_of_def newStats_def zero_stat_def)
next
  case (snoc x es)
  have w: "wrap64 (int (length (filter p es)) + 1) = int (length (filter p es)) + 1" for p
  proof (rule wrap64_id)
    have "int (length (filter p es)) + 1 \<le> int (length (es @ [x]))" by simp
    also have "\<dots> \<le> int64_max" using snoc.prems .
    finally show "in_int64 (int (length (filter p es)) + 1)"
      by (simp add: in_int64_def int64_min_def)
  qed
  from snoc have IH:
    "Dials (stat_of (foldl applyEvent newStats es) i) = int (length (filter (dial_of i) es))"
    "DialErrors (stat_of (foldl applyEvent newStats es) i) = int (length (filter (dial_error_of i) es))"
    "Failovers (stat_of (foldl applyEvent newStats es) i) = int (length (filter (failover_of i) es))"
    by auto
  show ?case
  proof (cases x)
    case (EDial t t' j err)
    then show ?thesis
      using IH w by (auto simp: recordDial_def stat_of_updStat Let_def split: option.splits)
  qed (use IH w in \<open>auto simp: recordFailover_def recordTraffic_def stat_of_updStat\<close>)
qed

end
