(* ===== verification/Balancer.thy ===== *)
theory Balancer
  imports Flows
begin

text \<open>
  \<open>balancer/balancer.go\<close>: the endpoint pool, the selection strategies and the dial with
  failover. What the code takes from its surroundings is an argument: the sort
  (\<open>sort.Slice\<close>, any sort with its contract), \<open>rand.Intn\<close>, the clock, and the network,
  whose answer to a dial may depend on the number of the attempt. Log lines are left out.
\<close>

section \<open>The balancer's state\<close>

record balancer =
  endpoints :: "endpoint list"
  strategy :: string
  bstats :: stats
  bflows :: flows
  blockDirect :: bool

definition newBalancer :: "string \<Rightarrow> balancer" where
  "newBalancer s = \<lparr>endpoints = [], strategy = s, bstats = newStats, bflows = newFlows 200,
                    blockDirect = False\<rparr>"

definition setBlockDirect :: "bool \<Rightarrow> balancer \<Rightarrow> balancer" where
  "setBlockDirect v b = b\<lparr>blockDirect := v\<rparr>"

definition setStrategy :: "string \<Rightarrow> balancer \<Rightarrow> balancer" where
  "setStrategy s b = b\<lparr>strategy := s\<rparr>"

definition setEndpoints :: "endpoint list \<Rightarrow> balancer \<Rightarrow> balancer" where
  "setEndpoints eps b = b\<lparr>endpoints := eps\<rparr>"

record endpoint_patch =
  pEnabled :: "bool option"
  pPriority :: "int option"

definition applyPatch :: "endpoint_patch \<Rightarrow> endpoint \<Rightarrow> endpoint" where
  "applyPatch p e =
     (let e1 = (case pEnabled p of None \<Rightarrow> e | Some v \<Rightarrow> e\<lparr>Enabled := v\<rparr>)
      in case pPriority p of None \<Rightarrow> e1 | Some n \<Rightarrow> e1\<lparr>Priority := n\<rparr>)"

definition patchEndpoint :: "string \<Rightarrow> endpoint_patch \<Rightarrow> balancer \<Rightarrow> balancer \<times> endpoint option" where
  "patchEndpoint i p b =
     (let eps = update_first (\<lambda>e. ID e = i) (applyPatch p) (endpoints b)
      in (b\<lparr>endpoints := eps\<rparr>, find (\<lambda>e. ID e = i) eps))"

definition markError :: "string \<Rightarrow> balancer \<Rightarrow> balancer" where
  "markError i b = b\<lparr>endpoints := update_first (\<lambda>e. ID e = i) (\<lambda>e. e\<lparr>Status := ''error''\<rparr>) (endpoints b)\<rparr>"

section \<open>Selecting an endpoint\<close>

datatype pick_error = ErrNoEndpoints | PanicIntn

text \<open>
  A total of weights that has overflowed to a value below 1 makes \<open>rand.Intn\<close> panic. The
  remainder \<open>r\<close> cannot leave the 64-bit range: it starts non-negative, and the loop stops
  when it is negative.
\<close>

definition weightOf :: "endpoint \<Rightarrow> int" where
  "weightOf e = (if 0 < Priority e then Priority e else 1)"

definition totalWeight :: "endpoint list \<Rightarrow> int" where
  "totalWeight eps = foldl (\<lambda>t e. wrap64 (t + weightOf e)) 0 eps"

fun pickByWeight :: "int \<Rightarrow> endpoint list \<Rightarrow> endpoint \<Rightarrow> endpoint" where
  "pickByWeight r [] z = z"
| "pickByWeight r (e # es) z =
     (let r' = r - weightOf e in if r' < 0 then e else pickByWeight r' es z)"

definition weightedRandom :: "(int \<Rightarrow> int) \<Rightarrow> endpoint list \<Rightarrow> pick_error + endpoint" where
  "weightedRandom intn eps =
     (let total = totalWeight eps
      in if total \<le> 0 then Inl PanicIntn
         else Inr (pickByWeight (intn total) eps (last eps)))"

record pick_env =
  sortSlice :: "(endpoint \<Rightarrow> int) \<Rightarrow> endpoint list \<Rightarrow> endpoint list"
  intn :: "int \<Rightarrow> int"

definition chooseLive :: "pick_env \<Rightarrow> string \<Rightarrow> endpoint list \<Rightarrow> pick_error + endpoint" where
  "chooseLive v s lv =
     (if lv = [] then Inl ErrNoEndpoints
      else if s = ''latency'' then Inr (sortSlice v LatencyMs lv ! 0)
      else if s = ''priority'' then Inr (sortSlice v Priority lv ! 0)
      else if s = ''weighted'' then weightedRandom (intn v) lv
      else Inr (lv ! 0))"

definition pick :: "pick_env \<Rightarrow> balancer \<Rightarrow> pick_error + endpoint" where
  "pick v b = chooseLive v (strategy b)
     (filter (\<lambda>e. Enabled e \<and> Status e = ''ok'') (endpoints b))"

definition pickExcluding :: "pick_env \<Rightarrow> string list \<Rightarrow> balancer \<Rightarrow> pick_error + endpoint" where
  "pickExcluding v excluded b = chooseLive v (strategy b)
     (filter (\<lambda>e. \<not> (\<not> Enabled e \<or> Status e \<noteq> ''ok'') \<and> ID e \<notin> set excluded) (endpoints b))"

definition intn_ok :: "(int \<Rightarrow> int) \<Rightarrow> bool" where
  "intn_ok f \<longleftrightarrow> (\<forall>n > 0. 0 \<le> f n \<and> f n < n)"

definition pick_env_ok :: "pick_env \<Rightarrow> bool" where
  "pick_env_ok v \<longleftrightarrow> slice_sort (sortSlice v) \<and> intn_ok (intn v)"

definition weights_fit :: "endpoint list \<Rightarrow> bool" where
  "weights_fit eps \<longleftrightarrow> (\<Sum>e\<leftarrow>eps. weightOf e) \<le> int64_max"

lemma weightOf_pos [simp]: "0 < weightOf e"
  by (simp add: weightOf_def)

lemma sum_weights_nonneg: "0 \<le> (\<Sum>e\<leftarrow>eps. weightOf e)"
  by (rule sum_list_nonneg) (auto simp: less_imp_le)

lemma sum_weights_pos: "eps \<noteq> [] \<Longrightarrow> 0 < (\<Sum>e\<leftarrow>eps. weightOf e)"
  using sum_weights_nonneg by (cases eps) (auto simp: add_pos_nonneg)

lemma totalWeight_acc:
  assumes "0 \<le> t" "t + (\<Sum>e\<leftarrow>eps. weightOf e) \<le> int64_max"
  shows "foldl (\<lambda>t e. wrap64 (t + weightOf e)) t eps = t + (\<Sum>e\<leftarrow>eps. weightOf e)"
  using assms
proof (induction eps arbitrary: t)
  case Nil
  then show ?case by simp
next
  case (Cons e es)
  have "0 \<le> t + weightOf e" using Cons.prems(1) weightOf_pos [of e] by linarith
  moreover have "t + weightOf e \<le> int64_max"
    using Cons.prems sum_weights_nonneg [of es] by simp
  ultimately have "wrap64 (t + weightOf e) = t + weightOf e"
    by (intro wrap64_id) (simp add: in_int64_def int64_min_def)
  with Cons \<open>0 \<le> t + weightOf e\<close> show ?case by (simp add: add.assoc)
qed

lemma totalWeight_eq: "weights_fit eps \<Longrightarrow> totalWeight eps = (\<Sum>e\<leftarrow>eps. weightOf e)"
  by (simp add: totalWeight_def weights_fit_def totalWeight_acc)

text \<open>The loop picks the element whose interval of running sums holds \<open>r\<close>.\<close>

lemma pickByWeight_nth:
  assumes "i < length eps"
    and "(\<Sum>e\<leftarrow>take i eps. weightOf e) \<le> r" "r < (\<Sum>e\<leftarrow>take (Suc i) eps. weightOf e)"
  shows "pickByWeight r eps z = eps ! i"
  using assms
proof (induction eps arbitrary: i r)
  case Nil
  then show ?case by simp
next
  case (Cons e es)
  show ?case
  proof (cases i)
    case 0
    with Cons.prems show ?thesis by (simp add: Let_def)
  next
    case (Suc j)
    have "0 \<le> (\<Sum>e\<leftarrow>take j es. weightOf e)" by (rule sum_weights_nonneg)
    with Cons.prems Suc have "\<not> r - weightOf e < 0" by simp
    moreover have "pickByWeight (r - weightOf e) es z = es ! j"
      using Cons.prems Suc by (intro Cons.IH) auto
    ultimately show ?thesis by (simp add: Suc Let_def)
  qed
qed

lemma pickByWeight_in:
  assumes "0 \<le> r" "r < (\<Sum>e\<leftarrow>eps. weightOf e)"
  shows "pickByWeight r eps z \<in> set eps"
  using assms
proof (induction eps arbitrary: r)
  case Nil
  then show ?case by simp
next
  case (Cons e es)
  then show ?case by (auto simp: Let_def)
qed

lemma chooseLive_in:
  assumes "pick_env_ok v" "weights_fit lv" "chooseLive v s lv = Inr e"
  shows "e \<in> set lv"
proof -
  have s: "slice_sort (sortSlice v)" using assms(1) by (simp add: pick_env_ok_def)
  have i: "intn_ok (intn v)" using assms(1) by (simp add: pick_env_ok_def)
  show ?thesis
  proof (cases "lv = []")
    case False
    then have "weightedRandom (intn v) lv = Inr (pickByWeight (intn v (\<Sum>e\<leftarrow>lv. weightOf e)) lv (last lv))"
      using assms(2) sum_weights_pos [of lv] by (simp add: weightedRandom_def totalWeight_eq Let_def)
    moreover have "pickByWeight (intn v (\<Sum>e\<leftarrow>lv. weightOf e)) lv (last lv) \<in> set lv"
      using i sum_weights_pos [OF False] by (intro pickByWeight_in) (auto simp: intn_ok_def)
    ultimately show ?thesis
      using assms(3) False by (auto simp: chooseLive_def slice_sort.srt_hd_in [OF s] split: if_splits)
  qed (use assms(3) in \<open>simp add: chooseLive_def\<close>)
qed

section \<open>What selection promises\<close>

lemma sum_take_mono:
  "i \<le> j \<Longrightarrow> (\<Sum>e\<leftarrow>take i eps. weightOf e) \<le> (\<Sum>e\<leftarrow>take j eps. weightOf e)"
proof -
  assume "i \<le> j"
  then have "take j eps = take i eps @ take (j - i) (drop i eps)" by (metis le_add_diff_inverse take_add)
  then show ?thesis by (simp add: sum_weights_nonneg)
qed

lemma running_sum_index:
  assumes "0 \<le> r" "r < (\<Sum>e\<leftarrow>eps. weightOf e)"
  obtains j where "j < length eps" "(\<Sum>e\<leftarrow>take j eps. weightOf e) \<le> r"
    "r < (\<Sum>e\<leftarrow>take (Suc j) eps. weightOf e)"
proof -
  define P where "P m \<longleftrightarrow> r < (\<Sum>e\<leftarrow>take m eps. weightOf e)" for m
  have "P (length eps)" using assms by (simp add: P_def)
  then have L: "P (LEAST m. P m)" "(LEAST m. P m) \<le> length eps"
    by (auto intro: LeastI Least_le)
  have "(LEAST m. P m) \<noteq> 0" using L(1) assms(1) by (auto simp: P_def intro: ccontr)
  then obtain j where j: "(LEAST m. P m) = Suc j" by (metis not0_implies_Suc)
  then have "\<not> P j" by (metis lessI not_less_Least)
  with j L that [of j] show ?thesis by (auto simp: P_def)
qed

lemma pickByWeight_iff:
  assumes d: "distinct eps" and i: "i < length eps"
    and r: "0 \<le> r" "r < (\<Sum>e\<leftarrow>eps. weightOf e)"
  shows "pickByWeight r eps z = eps ! i \<longleftrightarrow>
    (\<Sum>e\<leftarrow>take i eps. weightOf e) \<le> r \<and> r < (\<Sum>e\<leftarrow>take (Suc i) eps. weightOf e)"
proof
  obtain j where j: "j < length eps" "(\<Sum>e\<leftarrow>take j eps. weightOf e) \<le> r"
    "r < (\<Sum>e\<leftarrow>take (Suc j) eps. weightOf e)"
    using running_sum_index [OF r] .
  assume "pickByWeight r eps z = eps ! i"
  with pickByWeight_nth [OF j] have "eps ! j = eps ! i" by simp
  with d i j(1) have "j = i" by (simp add: nth_eq_iff_index_eq)
  with j show "(\<Sum>e\<leftarrow>take i eps. weightOf e) \<le> r \<and> r < (\<Sum>e\<leftarrow>take (Suc i) eps. weightOf e)"
    by simp
qed (simp add: i pickByWeight_nth)

lemma pick_candidates:
  "pick v b = chooseLive v (strategy b) (filter live (endpoints b))"
  "pickExcluding v ex b = chooseLive v (strategy b)
     (filter (\<lambda>e. ID e \<notin> set ex) (filter live (endpoints b)))"
  unfolding pick_def pickExcluding_def live_def
  by (auto simp: filter_filter conj_commute intro!: arg_cong [of _ _ "chooseLive v (strategy b)"] filter_cong)

lemma sum_weights_filter: "(\<Sum>e\<leftarrow>filter p eps. weightOf e) \<le> (\<Sum>e\<leftarrow>eps. weightOf e)"
proof (induction eps)
  case (Cons e es)
  then show ?case using weightOf_pos [of e] by (cases "p e") (simp_all del: weightOf_pos)
qed simp

lemma weights_fit_filter: "weights_fit eps \<Longrightarrow> weights_fit (filter p eps)"
  using sum_weights_filter [of p eps] by (simp add: weights_fit_def)

lemma chooseLive_latency: "lv \<noteq> [] \<Longrightarrow> chooseLive v ''latency'' lv = Inr (sortSlice v LatencyMs lv ! 0)"
  by (simp add: chooseLive_def)

lemma chooseLive_priority: "lv \<noteq> [] \<Longrightarrow> chooseLive v ''priority'' lv = Inr (sortSlice v Priority lv ! 0)"
  by (simp add: chooseLive_def)

lemma chooseLive_NoEndpoints:
  assumes "weights_fit lv"
  shows "chooseLive v s lv = Inl ErrNoEndpoints \<longleftrightarrow> lv = []"
    and "chooseLive v s lv \<noteq> Inl PanicIntn"
proof -
  have "lv \<noteq> [] \<Longrightarrow> \<not> totalWeight lv \<le> 0"
    using assms sum_weights_pos [of lv] by (simp add: totalWeight_eq)
  then show "chooseLive v s lv = Inl ErrNoEndpoints \<longleftrightarrow> lv = []" "chooseLive v s lv \<noteq> Inl PanicIntn"
    by (auto simp: chooseLive_def weightedRandom_def Let_def)
qed

text \<open>A concrete environment and a concrete pool, for the witnesses.\<close>

definition det_env :: pick_env where
  "det_env = \<lparr>sortSlice = insertion_sort, intn = (\<lambda>_. 0)\<rparr>"

lemma det_env_ok [simp]: "pick_env_ok det_env"
  using go_isort.slice_sort_axioms by (simp add: pick_env_ok_def det_env_def intn_ok_def)

definition ep_slow :: endpoint where
  "ep_slow = (fresh_endpoint ''trojan'' ''1.1.1.1:443'' ''slow'' ''u1''
     [''socks5_addr'' \<mapsto> ''singbox:10800''])\<lparr>Status := ''ok'', LatencyMs := 90, Priority := 1\<rparr>"

definition ep_fast :: endpoint where
  "ep_fast = (fresh_endpoint ''vless'' ''2.2.2.2:443'' ''fast'' ''u2''
     [''socks5_addr'' \<mapsto> ''singbox:10801''])\<lparr>Status := ''ok'', LatencyMs := 20, Priority := 3\<rparr>"

definition pool2 :: "string \<Rightarrow> balancer" where
  "pool2 s = setEndpoints [ep_slow, ep_fast] (newBalancer s)"

lemmas pool_defs = pool2_def setEndpoints_def newBalancer_def ep_slow_def ep_fast_def
  fresh_endpoint_def genID_def weights_fit_def weightOf_def int64_max_def

text \<open>
  C17. \<open>Pick\<close> returns an enabled endpoint with status ok, of least latency under the latency
  strategy and of least priority value under the priority strategy, for every sort with the
  contract of \<open>sort.Slice\<close> and every random source; it fails exactly when no endpoint is
  live, and does not panic while the sum of the weights fits in 64 bits.
\<close>

theorem pick_best:
  assumes "pick_env_ok v" "weights_fit (endpoints b)"
  shows "case pick v b of
      Inr e \<Rightarrow> e \<in> set (endpoints b) \<and> Enabled e \<and> Status e = ''ok'' \<and>
        (strategy b = ''latency'' \<longrightarrow> (\<forall>x \<in> set (endpoints b). live x \<longrightarrow> LatencyMs e \<le> LatencyMs x)) \<and>
        (strategy b = ''priority'' \<longrightarrow> (\<forall>x \<in> set (endpoints b). live x \<longrightarrow> Priority e \<le> Priority x))
    | Inl ErrNoEndpoints \<Rightarrow> \<forall>x \<in> set (endpoints b). \<not> live x
    | Inl PanicIntn \<Rightarrow> False"
proof -
  let ?lv = "filter live (endpoints b)"
  have fit: "weights_fit ?lv" using assms(2) by (rule weights_fit_filter)
  have srt: "slice_sort (sortSlice v)" using assms(1) by (simp add: pick_env_ok_def)
  show ?thesis
  proof (cases "pick v b")
    case (Inl err)
    with chooseLive_NoEndpoints [OF fit, of v "strategy b"] show ?thesis
      by (cases err) (auto simp: pick_candidates filter_empty_conv)
  next
    case (Inr e)
    then have e: "e \<in> set ?lv" and ne: "?lv \<noteq> []"
      using chooseLive_in [OF assms(1) fit] chooseLive_NoEndpoints(1) [OF fit, of v "strategy b"]
      by (auto simp: pick_candidates simp del: set_filter)
    have "LatencyMs e \<le> LatencyMs x" if "strategy b = ''latency''" "x \<in> set ?lv" for x
      using Inr that slice_sort.srt_hd_min [OF srt, of x ?lv LatencyMs] ne
      by (simp add: pick_candidates chooseLive_latency)
    moreover have "Priority e \<le> Priority x" if "strategy b = ''priority''" "x \<in> set ?lv" for x
      using Inr that slice_sort.srt_hd_min [OF srt, of x ?lv Priority] ne
      by (simp add: pick_candidates chooseLive_priority)
    ultimately show ?thesis using Inr e by (auto simp: live_def)
  qed
qed

theorem pick_best_witness:
  "pick det_env (pool2 ''latency'') = Inr ep_fast \<and> LatencyMs ep_fast \<le> LatencyMs ep_slow"
proof -
  have fit: "weights_fit (endpoints (pool2 ''latency''))" by (simp add: pool_defs)
  have p: "pick det_env (pool2 ''latency'') = Inr ep_fast"
    by (simp add: pick_candidates chooseLive_def det_env_def insertion_sort_def live_def pool_defs)
  have "live ep_slow" "ep_slow \<in> set (endpoints (pool2 ''latency''))"
    "strategy (pool2 ''latency'') = ''latency''"
    by (simp_all add: live_def pool_defs)
  with pick_best [OF det_env_ok fit] p show ?thesis by simp
qed

text \<open>
  Under the weighted strategy the number of values of \<open>rand.Intn\<close> that select the i-th
  live endpoint is exactly its weight: its share of the traffic is its priority (1 when
  that is not positive) over the sum of all weights.
\<close>

theorem weighted_share:
  assumes "distinct eps" "weights_fit eps" "i < length eps"
  shows "card {r. 0 \<le> r \<and> r < totalWeight eps \<and> weightedRandom (\<lambda>_. r) eps = Inr (eps ! i)} =
         nat (weightOf (eps ! i))"
proof -
  let ?S = "\<lambda>m. (\<Sum>e\<leftarrow>take m eps. weightOf e)"
  have T: "totalWeight eps = ?S (length eps)" using assms(2) by (simp add: totalWeight_eq)
  have "?S (Suc i) \<le> ?S (length eps)" using assms(3) by (intro sum_take_mono) simp
  moreover have "0 \<le> ?S i" by (rule sum_weights_nonneg)
  moreover have "?S (Suc i) = ?S i + weightOf (eps ! i)"
    using assms(3) by (simp add: take_Suc_conv_app_nth)
  ultimately have "{r. 0 \<le> r \<and> r < totalWeight eps \<and> weightedRandom (\<lambda>_. r) eps = Inr (eps ! i)} =
      {?S i..<?S (Suc i)}"
    using pickByWeight_iff [OF assms(1,3)] T
    by (auto simp: weightedRandom_def Let_def)
  then show ?thesis
    using \<open>?S (Suc i) = ?S i + weightOf (eps ! i)\<close> by simp
qed

theorem weighted_share_witness:
  "card {r. 0 \<le> r \<and> r < totalWeight [ep_slow, ep_fast] \<and>
         weightedRandom (\<lambda>_. r) [ep_slow, ep_fast] = Inr ep_fast} = 3"
proof -
  have "distinct [ep_slow, ep_fast]" by (simp add: pool_defs)
  moreover have "weights_fit [ep_slow, ep_fast]" by (simp add: pool_defs)
  moreover have "weightOf ep_fast = 3" by (simp add: pool_defs)
  ultimately show ?thesis using weighted_share [of "[ep_slow, ep_fast]" 1] by simp
qed

end
