(* ===== verification/Dial.thy ===== *)
theory Dial
  imports Balancer
begin

text \<open>
  \<open>DialContext\<close> and the connection it returns (\<open>balancer/balancer.go\<close>), run from start to
  end with nothing in between; \<open>Dial_Steps\<close> has the interleaved version.
\<close>

section \<open>Dialling with failover\<close>

text \<open>
  The network: \<open>socks5 n proxyAddr network addr\<close> is the answer of the SOCKS5 dialer (a
  third-party package) to the n-th attempt, \<open>directDial\<close> that of \<open>net.Dial\<close>; an answer is
  an error text or a connection. The clock is read once per attempt.
\<close>

record net_env =
  clock :: "nat \<Rightarrow> int"
  socks5 :: "nat \<Rightarrow> string \<Rightarrow> string \<Rightarrow> string \<Rightarrow> string + nat"
  directDial :: "string \<Rightarrow> string \<Rightarrow> string + nat"

definition dialThrough :: "net_env \<Rightarrow> nat \<Rightarrow> endpoint \<Rightarrow> string \<Rightarrow> string \<Rightarrow> string + nat" where
  "dialThrough w n ep network addr =
     (let socksAddr = cget (Config ep) ''socks5_addr''
      in if socksAddr \<noteq> [] then socks5 w n socksAddr network addr
         else if Protocol ep \<in> {''anytls'', ''hysteria2'', ''wireguard''} then
           Inl (''protocol '' @ Protocol ep @ '' requires sing-box (no socks5_addr set)'')
         else if Protocol ep = ''sidecar'' then socks5 w n ''127.0.0.1:1080'' network addr
         else socks5 w n (Address ep) network addr)"

record counting_conn =
  under :: nat
  cc_id :: string
  cc_flow :: nat

datatype dial_error = NetError string | DirectBlocked

datatype dial_result = Connected counting_conn | Refused dial_error | DialPanic

definition maxDialAttempts :: nat where "maxDialAttempts = 4"

definition dialSucceeded ::
  "net_env \<Rightarrow> nat \<Rightarrow> string \<Rightarrow> endpoint \<Rightarrow> nat \<Rightarrow> balancer \<Rightarrow> balancer \<times> counting_conn" where
  "dialSucceeded w n addr ep c b =
     (let (fl, fs) = flowBegin (clock w n) [] addr (ID ep) (Protocol ep) (bflows b)
      in (b\<lparr>bstats := recordDial (clock w n) (clock w n) (ID ep) None (bstats b), bflows := fs\<rparr>,
          \<lparr>under = c, cc_id = ID ep, cc_flow = fl\<rparr>))"

definition dialFailed :: "net_env \<Rightarrow> nat \<Rightarrow> endpoint \<Rightarrow> string \<Rightarrow> balancer \<Rightarrow> balancer" where
  "dialFailed w n ep err b =
     (let b1 = b\<lparr>bstats := recordDial (clock w n) (clock w n) (ID ep) (Some err) (bstats b)\<rparr>;
          b2 = markError (ID ep) b1
      in b2\<lparr>bstats := recordFailover (ID ep) (bstats b2)\<rparr>)"

text \<open>
  The loop of \<open>DialContext\<close>: \<open>left\<close> counts the attempts that remain. The result is the
  balancer, the identifiers tried, and the loop's early return, if it made one.
\<close>

fun dialAttempts ::
  "(nat \<Rightarrow> pick_env) \<Rightarrow> net_env \<Rightarrow> string \<Rightarrow> string \<Rightarrow> nat \<Rightarrow> nat \<Rightarrow> string list \<Rightarrow> balancer \<Rightarrow>
   balancer \<times> string list \<times> dial_result option" where
  "dialAttempts v w network addr n 0 tried b = (b, tried, None)"
| "dialAttempts v w network addr n (Suc left) tried b =
     (case pickExcluding (v n) tried b of
        Inl ErrNoEndpoints \<Rightarrow> (b, tried, None)
      | Inl PanicIntn \<Rightarrow> (b, tried, Some DialPanic)
      | Inr ep \<Rightarrow>
          (case dialThrough w n ep network addr of
             Inr c \<Rightarrow>
               let (b', cc) = dialSucceeded w n addr ep c b in (b', tried, Some (Connected cc))
           | Inl err \<Rightarrow>
               dialAttempts v w network addr (Suc n) left (ID ep # tried) (dialFailed w n ep err b)))"

text \<open>The rest of \<open>DialContext\<close>: the kill-switch, else a direct dial.\<close>

definition directFallback ::
  "net_env \<Rightarrow> string \<Rightarrow> string \<Rightarrow> balancer \<Rightarrow> balancer \<times> dial_result" where
  "directFallback w network addr b =
     (if blockDirect b then
        (b\<lparr>bflows := snd (flowBegin (clock w maxDialAttempts) [] addr [] ''blocked-direct'' (bflows b))\<rparr>,
         Refused DirectBlocked)
      else
        (case directDial w network addr of
           Inr c \<Rightarrow>
             let (fl, fs) = flowBegin (clock w maxDialAttempts) [] addr [] ''direct'' (bflows b)
             in (b\<lparr>bflows := fs\<rparr>, Connected \<lparr>under = c, cc_id = ''direct'', cc_flow = fl\<rparr>)
         | Inl e \<Rightarrow> (b, Refused (NetError e))))"

definition dialContext ::
  "(nat \<Rightarrow> pick_env) \<Rightarrow> net_env \<Rightarrow> string \<Rightarrow> string \<Rightarrow> balancer \<Rightarrow> balancer \<times> dial_result" where
  "dialContext v w network addr b =
     (case dialAttempts v w network addr 0 maxDialAttempts [] b of
        (b', tried, Some r) \<Rightarrow> (b', r)
      | (b', tried, None) \<Rightarrow> directFallback w network addr b')"

text \<open>The methods of the connection the balancer hands out.\<close>

definition connRead :: "counting_conn \<Rightarrow> int \<Rightarrow> balancer \<Rightarrow> balancer" where
  "connRead c n b =
     (if 0 < n then b\<lparr>bstats := recordTraffic (cc_id c) 0 n (bstats b),
                      bflows := flowAdd 0 n (cc_flow c) (bflows b)\<rparr> else b)"

definition connWrite :: "counting_conn \<Rightarrow> int \<Rightarrow> balancer \<Rightarrow> balancer" where
  "connWrite c n b =
     (if 0 < n then b\<lparr>bstats := recordTraffic (cc_id c) n 0 (bstats b),
                      bflows := flowAdd n 0 (cc_flow c) (bflows b)\<rparr> else b)"

definition connClose :: "int \<Rightarrow> counting_conn \<Rightarrow> balancer \<Rightarrow> balancer" where
  "connClose now c b = b\<lparr>bflows := flowEnd now None (cc_flow c) (bflows b)\<rparr>"

section \<open>The loop's invariant\<close>

definition candidates :: "string list \<Rightarrow> balancer \<Rightarrow> endpoint list" where
  "candidates tried b = filter (\<lambda>e. ID e \<notin> set tried) (filter live (endpoints b))"

lemma pickExcluding_candidates: "pickExcluding v tried b = chooseLive v (strategy b) (candidates tried b)"
  by (simp add: pick_candidates candidates_def)

lemma dialFailed_frame [simp]:
  "strategy (dialFailed w n ep err b) = strategy b"
  "blockDirect (dialFailed w n ep err b) = blockDirect b"
  "bflows (dialFailed w n ep err b) = bflows b"
  "endpoints (dialFailed w n ep err b) =
     update_first (\<lambda>e. ID e = ID ep) (\<lambda>e. e\<lparr>Status := ''error''\<rparr>) (endpoints b)"
  by (simp_all add: dialFailed_def markError_def Let_def)

lemma dialSucceeded_frame [simp]:
  "strategy (fst (dialSucceeded w n addr ep c b)) = strategy b"
  "blockDirect (fst (dialSucceeded w n addr ep c b)) = blockDirect b"
  "endpoints (fst (dialSucceeded w n addr ep c b)) = endpoints b"
  "under (snd (dialSucceeded w n addr ep c b)) = c"
  "cc_id (snd (dialSucceeded w n addr ep c b)) = ID ep"
  by (simp_all add: dialSucceeded_def case_prod_unfold Let_def)

lemma filter_update_first_other:
  "(\<And>e. k (f e) = k e) \<Longrightarrow>
   filter (\<lambda>e. k e \<noteq> i \<and> P e) (update_first (\<lambda>e. k e = i) f xs) = filter (\<lambda>e. k e \<noteq> i \<and> P e) xs"
  by (induction xs) auto

lemma candidates_dialFailed:
  "candidates (ID ep # tried) (dialFailed w n ep err b) =
   filter (\<lambda>e. ID e \<noteq> ID ep) (candidates tried b)"
proof -
  let ?u = "update_first (\<lambda>e. ID e = ID ep) (\<lambda>e. e\<lparr>Status := ''error''\<rparr>) (endpoints b)"
  have "candidates (ID ep # tried) (dialFailed w n ep err b) =
      filter (\<lambda>e. ID e \<noteq> ID ep \<and> (live e \<and> ID e \<notin> set tried)) ?u"
    by (simp add: candidates_def conj_commute conj_left_commute)
  also have "\<dots> = filter (\<lambda>e. ID e \<noteq> ID ep \<and> (live e \<and> ID e \<notin> set tried)) (endpoints b)"
    by (rule filter_update_first_other) simp
  finally show ?thesis by (simp add: candidates_def conj_commute conj_left_commute)
qed

definition errored :: "string \<Rightarrow> balancer \<Rightarrow> bool" where
  "errored i b \<longleftrightarrow> (\<exists>e. find (\<lambda>e. ID e = i) (endpoints b) = Some e \<and> Status e = ''error'')"

lemma errored_dialFailed:
  "errored i b \<Longrightarrow> errored i (dialFailed w n ep err b)"
  "ep \<in> set (endpoints b) \<Longrightarrow> errored (ID ep) (dialFailed w n ep err b)"
proof -
  let ?f = "\<lambda>e. e\<lparr>Status := ''error''\<rparr>"
  have other: "i \<noteq> j \<Longrightarrow> find (\<lambda>e. ID e = i) (update_first (\<lambda>e. ID e = j) ?f xs) = find (\<lambda>e. ID e = i) xs"
    for i j xs by (induction xs) auto
  have same: "find (\<lambda>e. ID e = i) (update_first (\<lambda>e. ID e = i) ?f xs) =
      map_option ?f (find (\<lambda>e. ID e = i) xs)" for i xs
    by (rule find_update_first) simp
  show "errored i b \<Longrightarrow> errored i (dialFailed w n ep err b)"
    by (cases "i = ID ep") (auto simp: errored_def same other)
  assume "ep \<in> set (endpoints b)"
  then have "find (\<lambda>e. ID e = ID ep) (endpoints b) \<noteq> None"
    by (auto simp: find_None_iff)
  then show "errored (ID ep) (dialFailed w n ep err b)"
    by (auto simp: errored_def same)
qed

lemma pickExcluding_in:
  assumes "pick_env_ok v" "weights_fit (candidates tried b)" "pickExcluding v tried b = Inr ep"
  shows "ep \<in> set (endpoints b) \<and> live ep \<and> ID ep \<notin> set tried \<and> ep \<in> set (candidates tried b)"
proof -
  have "ep \<in> set (candidates tried b)"
    using assms by (intro chooseLive_in) (simp_all add: pickExcluding_candidates)
  then show ?thesis by (simp add: candidates_def)
qed

lemma dialAttempts_inv:
  assumes "\<And>n. pick_env_ok (v n)" "weights_fit (candidates tried b)"
    and "dialAttempts v w network addr n left tried b = (b', tried', r)"
    and "distinct tried" "\<forall>i \<in> set tried. errored i b"
  shows "distinct tried' \<and> length tried' \<le> length tried + left \<and>
    (\<forall>i \<in> set tried'. errored i b') \<and> blockDirect b' = blockDirect b \<and>
    set tried' \<subseteq> set tried \<union> ID ` set (candidates tried b) \<and>
    (\<forall>cc. r = Some (Connected cc) \<longrightarrow>
       (\<exists>e m. e \<in> set (candidates tried b) \<and> ID e = cc_id cc \<and> cc_id cc \<notin> set tried' \<and>
              dialThrough w m e network addr = Inr (under cc)))"
  using assms(2-5)
proof (induction left arbitrary: n tried b)
  case 0
  then show ?case by auto
next
  case (Suc left)
  show ?case
  proof (cases "pickExcluding (v n) tried b")
    case (Inl err)
    with Suc.prems show ?thesis by (cases err) auto
  next
    case (Inr ep)
    note ep = pickExcluding_in [OF assms(1) Suc.prems(1) Inr]
    show ?thesis
    proof (cases "dialThrough w n ep network addr")
      case (Inr c)
      with \<open>pickExcluding (v n) tried b = Inr ep\<close> Suc.prems(2)
      have "b' = fst (dialSucceeded w n addr ep c b)" "tried' = tried"
        "r = Some (Connected (snd (dialSucceeded w n addr ep c b)))"
        by (simp_all add: case_prod_unfold Let_def)
      moreover from this have "\<forall>i \<in> set tried'. errored i b'"
        using Suc.prems(4) by (simp add: errored_def)
      ultimately show ?thesis using ep Inr Suc.prems(3) by auto
    next
      case (Inl err)
      let ?b = "dialFailed w n ep err b"
      have run: "dialAttempts v w network addr (Suc n) left (ID ep # tried) ?b = (b', tried', r)"
        using Suc.prems(2) Inr Inl by simp
      have C: "candidates (ID ep # tried) ?b = filter (\<lambda>e. ID e \<noteq> ID ep) (candidates tried b)"
        by (rule candidates_dialFailed)
      have "weights_fit (candidates (ID ep # tried) ?b)"
        using Suc.prems(1) by (simp add: C weights_fit_filter)
      moreover have "\<forall>i \<in> set (ID ep # tried). errored i ?b"
        using ep Suc.prems(4) by (auto intro: errored_dialFailed)
      ultimately have IH: "distinct tried' \<and> length tried' \<le> length (ID ep # tried) + left \<and>
          (\<forall>i \<in> set tried'. errored i b') \<and> blockDirect b' = blockDirect ?b \<and>
          set tried' \<subseteq> set (ID ep # tried) \<union> ID ` set (candidates (ID ep # tried) ?b) \<and>
          (\<forall>cc. r = Some (Connected cc) \<longrightarrow>
             (\<exists>e m. e \<in> set (candidates (ID ep # tried) ?b) \<and> ID e = cc_id cc \<and> cc_id cc \<notin> set tried' \<and>
              dialThrough w m e network addr = Inr (under cc)))"
        using run ep Suc.prems(3) by (intro Suc.IH) auto
      then show ?thesis using ep unfolding C by fastforce
    qed
  qed
qed

lemma dialAttempts_reaches:
  assumes "\<And>n. pick_env_ok (v n)" "weights_fit (candidates tried b)"
    and "card (ID ` set (candidates tried b)) \<le> left"
    and "e \<in> set (candidates tried b)" "\<And>m. \<exists>c. dialThrough w m e network addr = Inr c"
    and "\<And>e'. e' \<in> set (candidates tried b) \<Longrightarrow> ID e' = ID e \<Longrightarrow> e' = e"
  shows "\<exists>b' tried' cc. dialAttempts v w network addr n left tried b = (b', tried', Some (Connected cc))"
  using assms(2-4,6)
proof (induction left arbitrary: n tried b)
  case 0
  then show ?case by auto
next
  case (Suc left)
  let ?C = "candidates tried b"
  have "pickExcluding (v n) tried b \<noteq> Inl ErrNoEndpoints" "pickExcluding (v n) tried b \<noteq> Inl PanicIntn"
    using chooseLive_NoEndpoints [OF Suc.prems(1)] Suc.prems(3) by (auto simp: pickExcluding_candidates)
  then obtain ep where ep: "pickExcluding (v n) tried b = Inr ep"
    by (metis pick_error.exhaust sumE)
  note in_C = pickExcluding_in [OF assms(1) Suc.prems(1) ep]
  show ?case
  proof (cases "dialThrough w n ep network addr")
    case (Inr c)
    with ep show ?thesis by (simp add: case_prod_unfold Let_def)
  next
    case (Inl err)
    let ?b = "dialFailed w n ep err b"
    have C: "candidates (ID ep # tried) ?b = filter (\<lambda>e. ID e \<noteq> ID ep) ?C"
      by (rule candidates_dialFailed)
    have ne: "ID e \<noteq> ID ep" using Inl assms(5) [of n] Suc.prems(4) in_C by fastforce
    have "ID ` set (filter (\<lambda>e. ID e \<noteq> ID ep) ?C) = ID ` set ?C - {ID ep}" by auto
    then have card: "card (ID ` set (candidates (ID ep # tried) ?b)) \<le> left"
      using Suc.prems(2) in_C unfolding C by (simp add: card_Diff_singleton)
    have "\<exists>b' tried' cc. dialAttempts v w network addr (Suc n) left (ID ep # tried) ?b =
        (b', tried', Some (Connected cc))"
      using Suc.prems ne card by (intro Suc.IH) (auto simp: C weights_fit_filter)
    with ep Inl show ?thesis by simp
  qed
qed

section \<open>What a dial promises\<close>

lemma candidates_Nil [simp]: "candidates [] b = filter live (endpoints b)"
  by (simp add: candidates_def)

text \<open>
  C13. One call of \<open>DialContext\<close> tries at most four endpoints, each once; every one it tried was
  live when the call began and is marked as errored in the pool it leaves (so concurrent
  connections skip it too), and the endpoint of the connection it returns is one it had
  not tried before.
\<close>

theorem dial_failover_bounded:
  assumes "\<And>n. pick_env_ok (v n)" "weights_fit (endpoints b)"
    and "dialAttempts v w network addr 0 maxDialAttempts [] b = (b', tried, r)"
  shows "distinct tried \<and> length tried \<le> 4 \<and>
    (\<forall>i \<in> set tried. (\<exists>e \<in> set (endpoints b). live e \<and> ID e = i) \<and> errored i b') \<and>
    (\<forall>cc. r = Some (Connected cc) \<longrightarrow>
       (\<exists>e m. e \<in> set (endpoints b) \<and> live e \<and> ID e = cc_id cc \<and> ID e \<notin> set tried \<and>
              dialThrough w m e network addr = Inr (under cc)))"
proof -
  have "weights_fit (candidates [] b)" using assms(2) by (simp add: weights_fit_filter)
  from dialAttempts_inv [OF assms(1) this assms(3)] show ?thesis
    by (fastforce simp: maxDialAttempts_def)
qed

lemma dialThrough_directDial [simp]:
  "dialThrough (w\<lparr>directDial := d\<rparr>) n e network addr = dialThrough w n e network addr"
  by (simp add: dialThrough_def Let_def)

lemma dialOutcome_directDial [simp]:
  "dialSucceeded (w\<lparr>directDial := d\<rparr>) n addr e c b = dialSucceeded w n addr e c b"
  "dialFailed (w\<lparr>directDial := d\<rparr>) n e err b = dialFailed w n e err b"
  by (simp_all add: dialSucceeded_def dialFailed_def)

lemma dialAttempts_directDial:
  "dialAttempts v (w\<lparr>directDial := d\<rparr>) network addr n left tried b = dialAttempts v w network addr n left tried b"
  by (induction left arbitrary: n tried b) (auto split: sum.splits pick_error.splits)

lemma dialSucceeded_flows [inv_intros]:
  "flows_wf (bflows b) \<Longrightarrow> flows_wf (bflows (fst (dialSucceeded w n addr ep c b)))"
  by (simp add: dialSucceeded_def case_prod_unfold Let_def flowBegin_wf)

lemma dialAttempts_result:
  assumes "\<And>n. pick_env_ok (v n)" "weights_fit (candidates tried b)" "flows_wf (bflows b)"
    and "dialAttempts v w network addr n left tried b = (b', tried', r)"
  shows "(r = None \<or> (\<exists>cc. r = Some (Connected cc))) \<and> flows_wf (bflows b')"
  using assms(2-4)
proof (induction left arbitrary: n tried b)
  case 0
  then show ?case by auto
next
  case (Suc left)
  have np: "pickExcluding (v n) tried b \<noteq> Inl PanicIntn"
    using chooseLive_NoEndpoints(2) [OF Suc.prems(1)] by (simp add: pickExcluding_candidates)
  show ?case
  proof (cases "pickExcluding (v n) tried b")
    case (Inl err)
    with np Suc.prems show ?thesis by (cases err) auto
  next
    case (Inr ep)
    show ?thesis
    proof (cases "dialThrough w n ep network addr")
      case (Inr c)
      with \<open>pickExcluding (v n) tried b = Inr ep\<close> Suc.prems show ?thesis
        by (auto simp: case_prod_unfold Let_def intro: dialSucceeded_flows)
    next
      case (Inl err)
      have "weights_fit (candidates (ID ep # tried) (dialFailed w n ep err b))"
        using Suc.prems(1) by (simp only: candidates_dialFailed weights_fit_filter)
      with Suc.prems Inr Inl show ?thesis by (intro Suc.IH) auto
    qed
  qed
qed

lemma directFallback_blocked:
  assumes "blockDirect b" "flows_wf (bflows b)" "directFallback w network addr b = (b', r)"
  shows "r = Refused DirectBlocked \<and>
    (\<exists>fl. heap (bflows b') (last (buf (bflows b'))) = Some fl \<and> Dest fl = addr \<and>
          fProtocol fl = ''blocked-direct'')"
  using assms by (auto simp: directFallback_def flowBegin_last flowBegin_heap)

text \<open>
  C2. The kill-switch: when \<open>block_direct\<close> is set, \<open>DialContext\<close> never dials the destination
  directly (its result is the same whatever a direct dial would answer). It returns a
  connection through an endpoint that was live, or the refusal, which it records as a
  \<open>blocked-direct\<close> flow.
\<close>

theorem kill_switch:
  assumes "\<And>n. pick_env_ok (v n)" "weights_fit (endpoints b)" "blockDirect b" "flows_wf (bflows b)"
    and "dialContext v w network addr b = (b', r)"
  shows "dialContext v (w\<lparr>directDial := d\<rparr>) network addr b = (b', r) \<and>
    (case r of
       Connected cc \<Rightarrow> \<exists>e m. e \<in> set (endpoints b) \<and> live e \<and> ID e = cc_id cc \<and>
                         dialThrough w m e network addr = Inr (under cc)
     | Refused err \<Rightarrow> err = DirectBlocked \<and>
         (\<exists>fl. heap (bflows b') (last (buf (bflows b'))) = Some fl \<and> Dest fl = addr \<and>
               fProtocol fl = ''blocked-direct'')
     | DialPanic \<Rightarrow> False)"
proof -
  obtain b1 tried r1 where run: "dialAttempts v w network addr 0 maxDialAttempts [] b = (b1, tried, r1)"
    by (metis prod_cases3)
  have fit: "weights_fit (candidates [] b)" using assms(2) by (simp add: weights_fit_filter)
  note inv = dialAttempts_inv [OF assms(1) fit run]
  note res = dialAttempts_result [OF assms(1) fit assms(4) run]
  have "blockDirect b1" using inv assms(3) by simp
  then have "directFallback (w\<lparr>directDial := d\<rparr>) network addr b1 = directFallback w network addr b1"
    by (simp add: directFallback_def)
  then have same: "dialContext v (w\<lparr>directDial := d\<rparr>) network addr b = (b', r)"
    using assms(5) run by (simp add: dialContext_def dialAttempts_directDial split: option.splits)
  show ?thesis
  proof (cases r1)
    case None
    then have "directFallback w network addr b1 = (b', r)"
      using assms(5) run by (simp add: dialContext_def)
    with same \<open>blockDirect b1\<close> res show ?thesis
      using directFallback_blocked by fastforce
  next
    case (Some x)
    then obtain cc where "r1 = Some (Connected cc)" using res by auto
    moreover from this have "r = Connected cc" using assms(5) run by (simp add: dialContext_def)
    ultimately show ?thesis using same inv by auto
  qed
qed

text \<open>
  C14. Availability: when at most four identifiers are live and one live endpoint, alone with its
  identifier, can be dialled, \<open>DialContext\<close> returns a connection through the pool. It
  neither fails nor falls back to a direct dial, whatever the other endpoints answer.
\<close>

theorem dial_finds_working_endpoint:
  assumes "\<And>n. pick_env_ok (v n)" "weights_fit (endpoints b)"
    and "card (ID ` set (filter live (endpoints b))) \<le> maxDialAttempts"
    and "e \<in> set (endpoints b)" "live e" "\<And>m. \<exists>c. dialThrough w m e network addr = Inr c"
    and "\<And>x. x \<in> set (endpoints b) \<Longrightarrow> ID x = ID e \<Longrightarrow> x = e"
  shows "\<exists>b' cc x m. dialContext v w network addr b = (b', Connected cc) \<and>
    x \<in> set (endpoints b) \<and> live x \<and> cc_id cc = ID x \<and> dialThrough w m x network addr = Inr (under cc)"
proof -
  have fit: "weights_fit (candidates [] b)" using assms(2) by (simp add: weights_fit_filter)
  have "\<exists>b' tried' cc. dialAttempts v w network addr 0 maxDialAttempts [] b = (b', tried', Some (Connected cc))"
    using assms fit by (intro dialAttempts_reaches [where e = e]) auto
  then obtain b' tried cc where
    run: "dialAttempts v w network addr 0 maxDialAttempts [] b = (b', tried, Some (Connected cc))"
    by blast
  then have "dialContext v w network addr b = (b', Connected cc)" by (simp add: dialContext_def)
  with dialAttempts_inv [OF assms(1) fit run] show ?thesis by (auto simp: eq_commute)
qed

section \<open>Concrete runs\<close>

text \<open>A network where only the second endpoint's tunnel answers, and one where none does.\<close>

definition net_fast :: net_env where
  "net_fast = \<lparr>clock = (\<lambda>n. 1000 + int n),
     socks5 = (\<lambda>_ proxyAddr _ _. if proxyAddr = ''singbox:10801'' then Inr 7 else Inl ''refused''),
     directDial = (\<lambda>_ _. Inr 99)\<rparr>"

definition net_down :: net_env where
  "net_down = net_fast\<lparr>socks5 := (\<lambda>_ _ _ _. Inl ''refused'')\<rparr>"

lemmas dial_run_defs = dialContext_def maxDialAttempts_def pickExcluding_candidates candidates_def
  chooseLive_def det_env_def insertion_sort_def live_def dialThrough_def net_fast_def net_down_def
  dialSucceeded_def dialFailed_def markError_def directFallback_def setBlockDirect_def pool_defs
  flowBegin_def Let_def eval_nat_numeral

lemma pool2_fits [simp]: "weights_fit (endpoints (pool2 s))" "flows_wf (bflows (pool2 s))"
  by (simp_all add: pool_defs newFlows_wf)

theorem dial_failover_bounded_witness:
  "\<exists>b'. dialAttempts (\<lambda>_. det_env) net_fast ''tcp'' ''x:1'' 0 maxDialAttempts [] (pool2 ''priority'') =
       (b', [ID ep_slow], Some (Connected \<lparr>under = 7, cc_id = ID ep_fast, cc_flow = 1\<rparr>)) \<and>
     errored (ID ep_slow) b'"
proof -
  obtain b' where run: "dialAttempts (\<lambda>_. det_env) net_fast ''tcp'' ''x:1'' 0 maxDialAttempts []
      (pool2 ''priority'') =
      (b', [ID ep_slow], Some (Connected \<lparr>under = 7, cc_id = ID ep_fast, cc_flow = 1\<rparr>))"
    by (simp add: dial_run_defs newFlows_def)
  from dial_failover_bounded [OF det_env_ok pool2_fits(1) run] run show ?thesis by auto
qed

theorem kill_switch_witness:
  "snd (dialContext (\<lambda>_. det_env) net_down ''tcp'' ''x:1'' (setBlockDirect True (pool2 ''latency''))) =
     Refused DirectBlocked \<and>
   snd (dialContext (\<lambda>_. det_env) net_down ''tcp'' ''x:1'' (pool2 ''latency'')) =
     Connected \<lparr>under = 99, cc_id = ''direct'', cc_flow = 1\<rparr>"
proof -
  let ?b = "setBlockDirect True (pool2 ''latency'')"
  obtain b' r where run: "dialContext (\<lambda>_. det_env) net_down ''tcp'' ''x:1'' ?b = (b', r)"
    by (metis prod.exhaust)
  have wf: "weights_fit (endpoints ?b)" "blockDirect ?b" "flows_wf (bflows ?b)"
    using pool2_fits [of "''latency''"] by (simp_all add: setBlockDirect_def)
  have dead: "\<not> (\<exists>e m. dialThrough net_down m e network addr = Inr c)" for network addr c
    by (simp add: dialThrough_def net_down_def Let_def)
  have "r = Refused DirectBlocked"
    using kill_switch [OF det_env_ok wf run] dead by (cases r) auto
  with run show ?thesis by (simp add: dial_run_defs newFlows_def)
qed

theorem dial_finds_working_endpoint_witness:
  "\<exists>b' cc. dialContext (\<lambda>_. det_env) net_fast ''tcp'' ''x:1'' (pool2 ''priority'') = (b', Connected cc) \<and>
     cc_id cc = ID ep_fast"
proof -
  let ?b = "pool2 ''priority''"
  have E: "endpoints ?b = [ep_slow, ep_fast]" by (simp add: pool2_def setEndpoints_def)
  have "card (ID ` set (filter live (endpoints ?b))) \<le> card (set [ID ep_slow, ID ep_fast])"
    unfolding E by (rule card_mono) auto
  also have "\<dots> \<le> maxDialAttempts" by (simp add: maxDialAttempts_def card_insert_if)
  finally have c: "card (ID ` set (filter live (endpoints ?b))) \<le> maxDialAttempts" .
  have e: "ep_fast \<in> set (endpoints ?b)" "live ep_fast" by (simp_all add: E live_def pool_defs)
  have d: "\<And>m. \<exists>c. dialThrough net_fast m ep_fast ''tcp'' ''x:1'' = Inr c"
    by (simp add: dialThrough_def net_fast_def pool_defs)
  have s: "dialThrough net_fast m ep_slow ''tcp'' ''x:1'' = Inl ''refused''" for m
    by (simp add: dialThrough_def net_fast_def pool_defs)
  have "\<And>x. x \<in> set (endpoints ?b) \<Longrightarrow> ID x = ID ep_fast \<Longrightarrow> x = ep_fast"
    by (auto simp: E) (simp_all add: pool_defs)
  from dial_finds_working_endpoint [OF det_env_ok pool2_fits(1) c e d this] obtain b' cc x m
    where run: "dialContext (\<lambda>_. det_env) net_fast ''tcp'' ''x:1'' ?b = (b', Connected cc)"
      and x: "x \<in> set (endpoints ?b)" "cc_id cc = ID x"
      and ok: "dialThrough net_fast m x ''tcp'' ''x:1'' = Inr (under cc)"
    by blast
  have "x \<noteq> ep_slow" using ok s by auto
  with x run show ?thesis by (simp add: E)
qed

end
