(* ===== verification/Dial_Steps.thy ===== *)
theory Dial_Steps
  imports Dial
begin

text \<open>
  \<open>DialContext\<close> as many goroutines run it: each takes the balancer's lock only to pick, to
  mark an error and to read the kill-switch, and the dashboard, the prober and the other
  connections change the balancer in between. A state is the balancer and the program
  counter of every dialling thread; each rule is one critical section or one network
  answer. The parameters give the environment of thread \<open>t\<close>: its sort and random source
  at each attempt, its network, and the address it dials.
\<close>

datatype dial_pc =
    Idle
  | Trying nat "string list"
  | Dialing nat "string list" endpoint
  | Marking nat "string list" endpoint
  | Deciding
  | DirectDialing
  | DoneVia counting_conn
  | DoneDirect counting_conn
  | DoneRefused dial_error
  | DonePanic

record sys =
  bal :: balancer
  pcs :: "nat \<Rightarrow> dial_pc"

datatype actor = Dialer nat | Other

record thread_env =
  te_pick :: "nat \<Rightarrow> pick_env"
  te_net :: net_env
  te_network :: string
  te_addr :: string

definition goto :: "nat \<Rightarrow> dial_pc \<Rightarrow> sys \<Rightarrow> sys" where
  "goto t p s = s\<lparr>pcs := (pcs s)(t := p)\<rparr>"

definition upd_bal :: "(balancer \<Rightarrow> balancer) \<Rightarrow> sys \<Rightarrow> sys" where
  "upd_bal f s = s\<lparr>bal := f (bal s)\<rparr>"

lemma sys_sel [simp]:
  "bal (goto t p s) = bal s" "pcs (goto t p s) t' = (if t' = t then p else pcs s t')"
  "bal (upd_bal f s) = f (bal s)" "pcs (upd_bal f s) = pcs s"
  by (simp_all add: goto_def upd_bal_def)

definition recordDialError :: "net_env \<Rightarrow> nat \<Rightarrow> endpoint \<Rightarrow> string \<Rightarrow> balancer \<Rightarrow> balancer" where
  "recordDialError w n ep err b =
     b\<lparr>bstats := recordDial (clock w n) (clock w n) (ID ep) (Some err) (bstats b)\<rparr>"

definition markFailed :: "endpoint \<Rightarrow> balancer \<Rightarrow> balancer" where
  "markFailed ep b = (let b' = markError (ID ep) b
                      in b'\<lparr>bstats := recordFailover (ID ep) (bstats b')\<rparr>)"

definition beginFlow :: "net_env \<Rightarrow> string \<Rightarrow> string \<Rightarrow> balancer \<Rightarrow> balancer" where
  "beginFlow w addr protocol b =
     b\<lparr>bflows := snd (flowBegin (clock w maxDialAttempts) [] addr [] protocol (bflows b))\<rparr>"

inductive sys_step :: "(nat \<Rightarrow> thread_env) \<Rightarrow> actor \<Rightarrow> sys \<Rightarrow> sys \<Rightarrow> bool"
  for E :: "nat \<Rightarrow> thread_env" where
  start: "pcs s t = Idle \<Longrightarrow> sys_step E (Dialer t) s (goto t (Trying 0 []) s)"
| exhausted: "pcs s t = Trying n tried \<Longrightarrow> \<not> n < maxDialAttempts \<Longrightarrow>
    sys_step E (Dialer t) s (goto t Deciding s)"
| no_endpoint: "pcs s t = Trying n tried \<Longrightarrow> n < maxDialAttempts \<Longrightarrow>
    pickExcluding (te_pick (E t) n) tried (bal s) = Inl ErrNoEndpoints \<Longrightarrow>
    sys_step E (Dialer t) s (goto t Deciding s)"
| panics: "pcs s t = Trying n tried \<Longrightarrow> n < maxDialAttempts \<Longrightarrow>
    pickExcluding (te_pick (E t) n) tried (bal s) = Inl PanicIntn \<Longrightarrow>
    sys_step E (Dialer t) s (goto t DonePanic s)"
| picks: "pcs s t = Trying n tried \<Longrightarrow> n < maxDialAttempts \<Longrightarrow>
    pickExcluding (te_pick (E t) n) tried (bal s) = Inr ep \<Longrightarrow>
    sys_step E (Dialer t) s (goto t (Dialing n tried ep) s)"
| dial_ok: "pcs s t = Dialing n tried ep \<Longrightarrow>
    dialThrough (te_net (E t)) n ep (te_network (E t)) (te_addr (E t)) = Inr c \<Longrightarrow>
    dialSucceeded (te_net (E t)) n (te_addr (E t)) ep c (bal s) = (b', cc) \<Longrightarrow>
    sys_step E (Dialer t) s (goto t (DoneVia cc) (upd_bal (\<lambda>_. b') s))"
| dial_err: "pcs s t = Dialing n tried ep \<Longrightarrow>
    dialThrough (te_net (E t)) n ep (te_network (E t)) (te_addr (E t)) = Inl err \<Longrightarrow>
    sys_step E (Dialer t) s
      (goto t (Marking n tried ep) (upd_bal (recordDialError (te_net (E t)) n ep err) s))"
| mark: "pcs s t = Marking n tried ep \<Longrightarrow>
    sys_step E (Dialer t) s (goto t (Trying (Suc n) (ID ep # tried)) (upd_bal (markFailed ep) s))"
| blocked: "pcs s t = Deciding \<Longrightarrow> blockDirect (bal s) \<Longrightarrow>
    sys_step E (Dialer t) s
      (goto t (DoneRefused DirectBlocked)
        (upd_bal (beginFlow (te_net (E t)) (te_addr (E t)) ''blocked-direct'') s))"
| allowed: "pcs s t = Deciding \<Longrightarrow> \<not> blockDirect (bal s) \<Longrightarrow>
    sys_step E (Dialer t) s (goto t DirectDialing s)"
| direct_ok: "pcs s t = DirectDialing \<Longrightarrow>
    directDial (te_net (E t)) (te_network (E t)) (te_addr (E t)) = Inr c \<Longrightarrow>
    sys_step E (Dialer t) s
      (goto t (DoneDirect \<lparr>under = c, cc_id = ''direct'', cc_flow = Suc (nextID (bflows (bal s)))\<rparr>)
        (upd_bal (beginFlow (te_net (E t)) (te_addr (E t)) ''direct'') s))"
| direct_err: "pcs s t = DirectDialing \<Longrightarrow>
    directDial (te_net (E t)) (te_network (E t)) (te_addr (E t)) = Inl err \<Longrightarrow>
    sys_step E (Dialer t) s (goto t (DoneRefused (NetError err)) s)"
| set_endpoints: "sys_step E Other s (upd_bal (setEndpoints eps) s)"
| patch: "sys_step E Other s (upd_bal (\<lambda>b. fst (patchEndpoint i p b)) s)"
| set_block: "sys_step E Other s (upd_bal (setBlockDirect x) s)"
| set_strategy: "sys_step E Other s (upd_bal (setStrategy x) s)"
| read_conn: "sys_step E Other s (upd_bal (connRead cc n) s)"
| write_conn: "sys_step E Other s (upd_bal (connWrite cc n) s)"
| close_conn: "sys_step E Other s (upd_bal (connClose now cc) s)"

inductive_cases Other_stepE: "sys_step E Other s s'"
inductive_cases Dialer_stepE: "sys_step E (Dialer t) s s'"

text \<open>
  A run with the list of the actors that moved; \<open>P\<close> holds in every state it goes through,
  the last one included.
\<close>

inductive run_while ::
  "(nat \<Rightarrow> thread_env) \<Rightarrow> (sys \<Rightarrow> bool) \<Rightarrow> sys \<Rightarrow> actor list \<Rightarrow> sys \<Rightarrow> bool"
  for E :: "nat \<Rightarrow> thread_env" and P :: "sys \<Rightarrow> bool" and s0 :: sys where
  here: "P s0 \<Longrightarrow> run_while E P s0 [] s0"
| more: "run_while E P s0 as s \<Longrightarrow> sys_step E a s s' \<Longrightarrow> P s' \<Longrightarrow> run_while E P s0 (as @ [a]) s'"

lemma run_while_last: "run_while E P s0 as s \<Longrightarrow> P s"
  by (induction rule: run_while.induct)

inductive solo_run :: "(nat \<Rightarrow> thread_env) \<Rightarrow> nat \<Rightarrow> sys \<Rightarrow> sys \<Rightarrow> bool"
  for E :: "nat \<Rightarrow> thread_env" and t :: nat where
  solo_refl: "solo_run E t s s"
| solo_step: "sys_step E (Dialer t) s s' \<Longrightarrow> solo_run E t s' s'' \<Longrightarrow> solo_run E t s s''"

section \<open>Threads do not disturb each other\<close>

lemma step_other_pc: "sys_step E a s s' \<Longrightarrow> a \<noteq> Dialer t \<Longrightarrow> pcs s' t = pcs s t"
  by (induction rule: sys_step.induct) auto

section \<open>Invariants of the reachable states\<close>

fun pc_inv :: "dial_pc \<Rightarrow> bool" where
  "pc_inv (Trying n tried) = (length tried = n \<and> distinct tried \<and> n \<le> maxDialAttempts)"
| "pc_inv (Dialing n tried ep) =
     (length tried = n \<and> distinct tried \<and> n < maxDialAttempts \<and> ID ep \<notin> set tried \<and> live ep)"
| "pc_inv (Marking n tried ep) =
     (length tried = n \<and> distinct tried \<and> n < maxDialAttempts \<and> ID ep \<notin> set tried \<and> live ep)"
| "pc_inv _ = True"

definition env_ok :: "(nat \<Rightarrow> thread_env) \<Rightarrow> bool" where
  "env_ok E \<longleftrightarrow> (\<forall>t n. pick_env_ok (te_pick (E t) n))"

lemma pick_step_inv:
  assumes "pick_env_ok v" "weights_fit (endpoints b)" "pickExcluding v tried b = Inr ep"
  shows "live ep \<and> ID ep \<notin> set tried"
proof -
  have "weights_fit (candidates tried b)" using assms(2) by (simp add: candidates_def weights_fit_filter)
  with assms show ?thesis using pickExcluding_in by blast
qed

lemma step_pc_inv:
  assumes "sys_step E a s s'" "env_ok E" "weights_fit (endpoints (bal s))" "pc_inv (pcs s t)"
  shows "pc_inv (pcs s' t)"
  using assms(1)
proof (cases rule: sys_step.cases)
  case (picks t' n tried ep)
  have "pick_env_ok (te_pick (E t') n)" using assms(2) by (simp add: env_ok_def)
  from pick_step_inv [OF this assms(3) picks(5)] picks assms(4) show ?thesis by auto
qed (use assms(4) in \<open>auto simp: maxDialAttempts_def split: if_splits\<close>)

fun pc_direct :: "dial_pc \<Rightarrow> bool" where
  "pc_direct DirectDialing = True"
| "pc_direct (DoneDirect cc) = True"
| "pc_direct _ = False"

lemma step_not_direct:
  "sys_step E a s s' \<Longrightarrow> blockDirect (bal s) \<Longrightarrow> \<not> pc_direct (pcs s t) \<Longrightarrow> \<not> pc_direct (pcs s' t)"
  by (induction rule: sys_step.induct) (auto split: if_splits)

section \<open>A dial ends\<close>

fun pc_rank :: "dial_pc \<Rightarrow> nat" where
  "pc_rank Idle = 16"
| "pc_rank (Trying n tried) = 3 * (maxDialAttempts - n) + 3"
| "pc_rank (Dialing n tried ep) = 3 * (maxDialAttempts - n) + 2"
| "pc_rank (Marking n tried ep) = 3 * (maxDialAttempts - n) + 1"
| "pc_rank Deciding = 2"
| "pc_rank DirectDialing = 1"
| "pc_rank _ = 0"

lemma own_step_rank:
  "sys_step E a s s' \<Longrightarrow> a = Dialer t \<Longrightarrow> pc_inv (pcs s t) \<Longrightarrow> pc_rank (pcs s' t) < pc_rank (pcs s t)"
  by (induction rule: sys_step.induct) (auto simp: maxDialAttempts_def)

lemma enabled_step:
  assumes "0 < pc_rank (pcs s t)"
  shows "\<exists>s'. sys_step E (Dialer t) s s'"
proof (cases "pcs s t")
  case Idle
  then show ?thesis by (blast intro: start)
next
  case (Trying n tried)
  show ?thesis
  proof (cases "n < maxDialAttempts")
    case True
    show ?thesis
    proof (cases "pickExcluding (te_pick (E t) n) tried (bal s)")
      case (Inl err)
      with Trying True show ?thesis by (cases err) (blast intro: no_endpoint panics)+
    qed (use Trying True in \<open>blast intro: picks\<close>)
  qed (use Trying in \<open>blast intro: exhausted\<close>)
next
  case (Dialing n tried ep)
  then show ?thesis
    by (cases "dialThrough (te_net (E t)) n ep (te_network (E t)) (te_addr (E t))")
      (blast intro: dial_err dial_ok [OF _ _ prod.collapse [symmetric]])+
next
  case (Marking n tried ep)
  then show ?thesis by (blast intro: mark)
next
  case Deciding
  then show ?thesis by (blast intro: blocked allowed)
next
  case DirectDialing
  then show ?thesis
    by (cases "directDial (te_net (E t)) (te_network (E t)) (te_addr (E t))")
      (blast intro: direct_ok direct_err)+
qed (use assms in auto)

section \<open>Alone, a thread computes DialContext\<close>

fun result_of :: "dial_pc \<Rightarrow> dial_result option" where
  "result_of (DoneVia cc) = Some (Connected cc)"
| "result_of (DoneDirect cc) = Some (Connected cc)"
| "result_of (DoneRefused e) = Some (Refused e)"
| "result_of DonePanic = Some DialPanic"
| "result_of _ = None"

lemma solo_trans: "solo_run E t a b \<Longrightarrow> solo_run E t b c \<Longrightarrow> solo_run E t a c"
  by (induction rule: solo_run.induct) (auto intro: solo_step)

lemma solo_one: "sys_step E (Dialer t) s s' \<Longrightarrow> solo_run E t s s'"
  by (blast intro: solo_step solo_refl)

lemma dialFailed_split: "dialFailed w n ep err b = markFailed ep (recordDialError w n ep err b)"
  by (simp add: dialFailed_def markFailed_def recordDialError_def Let_def)

lemma goto_upd [simp]:
  "goto t p (goto t q s) = goto t p s" "upd_bal f (goto t p s) = goto t p (upd_bal f s)"
  "upd_bal f (upd_bal g s) = upd_bal (\<lambda>b. f (g b)) s"
  by (simp_all add: goto_def upd_bal_def)

lemma solo_attempts:
  assumes "pcs s t = Trying n tried" "n + left = maxDialAttempts"
    and "dialAttempts (te_pick (E t)) (te_net (E t)) (te_network (E t)) (te_addr (E t)) n left tried (bal s) =
         (b', tried', r)"
  shows "\<exists>s'. solo_run E t s s' \<and> bal s' = b' \<and>
     (case r of None \<Rightarrow> pcs s' t = Deciding | Some x \<Rightarrow> result_of (pcs s' t) = Some x)"
  using assms
proof (induction left arbitrary: n tried s)
  case 0
  then have "sys_step E (Dialer t) s (goto t Deciding s)" by (intro exhausted) auto
  with 0 show ?case by (intro exI [of _ "goto t Deciding s"]) (auto intro: solo_one)
next
  case (Suc left)
  have n: "n < maxDialAttempts" using Suc.prems(2) by simp
  show ?case
  proof (cases "pickExcluding (te_pick (E t) n) tried (bal s)")
    case (Inl err)
    show ?thesis
    proof (cases err)
      case ErrNoEndpoints
      with Inl Suc.prems n show ?thesis
        by (intro exI [of _ "goto t Deciding s"]) (auto intro!: solo_one no_endpoint)
    next
      case PanicIntn
      with Inl Suc.prems n show ?thesis
        by (intro exI [of _ "goto t DonePanic s"]) (auto intro!: solo_one panics)
    qed
  next
    case (Inr ep)
    let ?s1 = "goto t (Dialing n tried ep) s"
    have s1: "solo_run E t s ?s1" using Suc.prems(1) n Inr by (blast intro: solo_one picks)
    show ?thesis
    proof (cases "dialThrough (te_net (E t)) n ep (te_network (E t)) (te_addr (E t))")
      case ok: (Inr c)
      obtain b2 cc where d: "dialSucceeded (te_net (E t)) n (te_addr (E t)) ep c (bal s) = (b2, cc)"
        by (metis prod.exhaust)
      have "sys_step E (Dialer t) ?s1 (goto t (DoneVia cc) (upd_bal (\<lambda>_. b2) ?s1))"
        using ok d by (intro dial_ok) auto
      from solo_trans [OF s1 solo_one [OF this]] show ?thesis
        using Suc.prems(3) Inr ok d by auto
    next
      case err: (Inl m)
      let ?s2 = "goto t (Marking n tried ep) (upd_bal (recordDialError (te_net (E t)) n ep m) ?s1)"
      let ?s3 = "goto t (Trying (Suc n) (ID ep # tried)) (upd_bal (markFailed ep) ?s2)"
      have "sys_step E (Dialer t) ?s1 ?s2" using err by (intro dial_err) auto
      moreover have "sys_step E (Dialer t) ?s2 ?s3" by (intro mark) auto
      ultimately have run: "solo_run E t s ?s3" using s1 by (blast intro: solo_trans solo_one)
      have "bal ?s3 = dialFailed (te_net (E t)) n ep m (bal s)" by (simp add: dialFailed_split)
      then have "\<exists>s'. solo_run E t ?s3 s' \<and> bal s' = b' \<and>
          (case r of None \<Rightarrow> pcs s' t = Deciding | Some x \<Rightarrow> result_of (pcs s' t) = Some x)"
        using Suc.prems Inr err by (intro Suc.IH) auto
      with run show ?thesis by (blast intro: solo_trans)
    qed
  qed
qed

section \<open>The guarantees under interleaving\<close>

text \<open>
  C7. The kill-switch holds under interleaving: if it stays on during a run, a dial that began
  in that run never reaches the direct dial, whatever the other threads, the prober and
  the dashboard do to the pool meanwhile.
\<close>

theorem kill_switch_interleaved:
  assumes "run_while E (\<lambda>s. blockDirect (bal s)) s0 as s" "pcs s0 t = Idle"
  shows "\<not> pc_direct (pcs s t)"
  using assms(1)
proof (induction rule: run_while.induct)
  case here
  then show ?case using assms(2) by simp
next
  case (more as s a s')
  from more.hyps(1) have "blockDirect (bal s)" by (rule run_while_last)
  with more show ?case using step_not_direct by blast
qed

text \<open>
  C15. Every dial ends: whatever the interleaving, a thread takes at most sixteen steps of its
  own from the start of \<open>DialContext\<close>, it can always take its next step until it has a
  result, and it does not panic while the weights of the pool fit in 64 bits.
\<close>

theorem dial_terminates:
  assumes "run_while E (\<lambda>s. weights_fit (endpoints (bal s))) s0 as s" "env_ok E" "pcs s0 t = Idle"
  shows "length (filter (\<lambda>a. a = Dialer t) as) + pc_rank (pcs s t) \<le> 16 \<and>
    (result_of (pcs s t) = None \<longrightarrow> (\<exists>s'. sys_step E (Dialer t) s s')) \<and>
    pcs s t \<noteq> DonePanic"
proof -
  have inv: "pc_inv (pcs s t) \<and> pcs s t \<noteq> DonePanic \<and>
      length (filter (\<lambda>a. a = Dialer t) as) + pc_rank (pcs s t) \<le> 16"
    using assms(1)
  proof (induction rule: run_while.induct)
    case here
    then show ?case using assms(3) by simp
  next
    case (more as s a s')
    from more.hyps(1) have fit: "weights_fit (endpoints (bal s))" by (rule run_while_last)
    have "pc_inv (pcs s' t)" using step_pc_inv [OF more.hyps(2) assms(2) fit] more.IH by blast
    moreover have "pcs s' t \<noteq> DonePanic"
    proof
      assume "pcs s' t = DonePanic"
      with more.hyps(2) more.IH obtain n tried where
        "pickExcluding (te_pick (E t) n) tried (bal s) = Inl PanicIntn"
        by (cases rule: sys_step.cases) (auto split: if_splits)
      moreover have "weights_fit (candidates tried (bal s))"
        using fit by (simp add: candidates_def weights_fit_filter)
      ultimately show False using chooseLive_NoEndpoints(2) by (simp add: pickExcluding_candidates)
    qed
    moreover have "length (filter (\<lambda>a. a = Dialer t) (as @ [a])) + pc_rank (pcs s' t) \<le> 16"
    proof (cases "a = Dialer t")
      case True
      with own_step_rank [OF more.hyps(2)] more.IH show ?thesis by fastforce
    next
      case False
      with step_other_pc [OF more.hyps(2)] more.IH show ?thesis by simp
    qed
    ultimately show ?case by simp
  qed
  moreover have "result_of p = None \<Longrightarrow> 0 < pc_rank p" for p
    by (cases p) auto
  ultimately show ?thesis using enabled_step by blast
qed

lemma solo_fallback:
  assumes "solo_run E t s s2" "bal s2 = b1" "pcs s2 t = Deciding"
    and "directFallback (te_net (E t)) (te_network (E t)) (te_addr (E t)) b1 = (b', r)"
  shows "\<exists>s'. solo_run E t s s' \<and> bal s' = b' \<and> result_of (pcs s' t) = Some r"
proof -
  show ?thesis
  proof (cases "blockDirect b1")
    case True
    with assms(3) assms(2) have "sys_step E (Dialer t) s2 (goto t (DoneRefused DirectBlocked)
        (upd_bal (beginFlow (te_net (E t)) (te_addr (E t)) ''blocked-direct'') s2))"
      by (intro blocked) auto
    from solo_trans [OF assms(1) solo_one [OF this]] True assms(4) assms(2) show ?thesis
      by (auto simp: directFallback_def beginFlow_def)
  next
    case False
    let ?s3 = "goto t DirectDialing s2"
    have s3: "solo_run E t s ?s3"
      using assms(3) assms(2) False by (auto intro: solo_trans [OF assms(1)] solo_one allowed)
    show ?thesis
    proof (cases "directDial (te_net (E t)) (te_network (E t)) (te_addr (E t))")
      case (Inl e)
      then have "sys_step E (Dialer t) ?s3 (goto t (DoneRefused (NetError e)) ?s3)"
        by (intro direct_err) auto
      from solo_trans [OF s3 solo_one [OF this]] Inl False assms(4) assms(2) show ?thesis
        by (auto simp: directFallback_def)
    next
      case (Inr c)
      then have "sys_step E (Dialer t) ?s3
          (goto t (DoneDirect \<lparr>under = c, cc_id = ''direct'', cc_flow = Suc (nextID (bflows (bal ?s3)))\<rparr>)
            (upd_bal (beginFlow (te_net (E t)) (te_addr (E t)) ''direct'') ?s3))"
        by (intro direct_ok) auto
      from solo_trans [OF s3 solo_one [OF this]] Inr False assms(4) assms(2) show ?thesis
        by (auto simp: directFallback_def beginFlow_def case_prod_unfold Let_def)
    qed
  qed
qed

text \<open>
  C16. The interleaved model refines the sequential one: a thread that runs with nobody in
  between ends with the balancer and the result of \<open>dialContext\<close>.
\<close>

theorem solo_dial_refines:
  assumes "pcs s t = Idle"
    and "dialContext (te_pick (E t)) (te_net (E t)) (te_network (E t)) (te_addr (E t)) (bal s) = (b', r)"
  shows "\<exists>s'. solo_run E t s s' \<and> bal s' = b' \<and> result_of (pcs s' t) = Some r"
proof -
  let ?s1 = "goto t (Trying 0 []) s"
  have s1: "solo_run E t s ?s1" using assms(1) by (intro solo_one start)
  obtain b1 tried r1 where run:
    "dialAttempts (te_pick (E t)) (te_net (E t)) (te_network (E t)) (te_addr (E t)) 0 maxDialAttempts [] (bal s) =
     (b1, tried, r1)" by (metis prod_cases3)
  obtain s2 where s2: "solo_run E t ?s1 s2" "bal s2 = b1"
    "case r1 of None \<Rightarrow> pcs s2 t = Deciding | Some x \<Rightarrow> result_of (pcs s2 t) = Some x"
    using solo_attempts [of ?s1 t 0 "[]" maxDialAttempts E b1 tried r1] run by auto
  have s12: "solo_run E t s s2" using s1 s2(1) by (rule solo_trans)
  show ?thesis
  proof (cases r1)
    case (Some x)
    with assms(2) run s2 s12 show ?thesis by (auto simp: dialContext_def)
  next
    case None
    then have pc: "pcs s2 t = Deciding" and fb: "directFallback (te_net (E t)) (te_network (E t)) (te_addr (E t)) b1 = (b', r)"
      using assms(2) run s2 by (simp_all add: dialContext_def)
    show ?thesis by (rule solo_fallback [OF s12 s2(2) pc fb])
  qed
qed

section \<open>Concrete runs\<close>

definition env_down :: "nat \<Rightarrow> thread_env" where
  "env_down t = \<lparr>te_pick = (\<lambda>_. det_env), te_net = net_down, te_network = ''tcp'', te_addr = ''x:1''\<rparr>"

lemma env_down_ok: "env_ok env_down"
  by (simp add: env_ok_def env_down_def)

definition sys0 :: "bool \<Rightarrow> sys" where
  "sys0 block = \<lparr>bal = setBlockDirect block (newBalancer ''latency''), pcs = (\<lambda>_. Idle)\<rparr>"

text \<open>Thread 0 starts on an empty pool, finds no endpoint and reads the kill-switch.\<close>

lemma run_refused:
  assumes P: "\<And>s. endpoints (bal s) = [] \<Longrightarrow> blockDirect (bal s) \<Longrightarrow> P s"
  shows "\<exists>s. run_while env_down P (sys0 True) [Dialer 0, Dialer 0, Dialer 0] s \<and>
             pcs s 0 = DoneRefused DirectBlocked"
proof -
  let ?s1 = "goto 0 (Trying 0 []) (sys0 True)"
  let ?s2 = "goto 0 Deciding ?s1"
  let ?s3 = "goto 0 (DoneRefused DirectBlocked) (upd_bal (beginFlow net_down ''x:1'' ''blocked-direct'') ?s2)"
  have b0: "endpoints (bal (sys0 True)) = []" "blockDirect (bal (sys0 True))"
    by (simp_all add: sys0_def setBlockDirect_def newBalancer_def)
  have P: "P (sys0 True)" "P ?s1" "P ?s2" "P ?s3"
    using b0 by (auto intro!: P simp: beginFlow_def)
  have "sys_step env_down (Dialer 0) (sys0 True) ?s1" by (rule start) (simp add: sys0_def)
  with here [of P, OF P(1)] have r1: "run_while env_down P (sys0 True) ([] @ [Dialer 0]) ?s1"
    using P(2) by (rule more)
  have "sys_step env_down (Dialer 0) ?s1 ?s2"
    using b0 by (intro no_endpoint) (auto simp: maxDialAttempts_def pickExcluding_candidates candidates_def chooseLive_def)
  with r1 have r2: "run_while env_down P (sys0 True) (([] @ [Dialer 0]) @ [Dialer 0]) ?s2"
    using P(3) by (rule more)
  have "sys_step env_down (Dialer 0) ?s2 ?s3"
    using blocked [of ?s2 0 env_down] b0 by (simp add: env_down_def)
  with r2 have "run_while env_down P (sys0 True) ((([] @ [Dialer 0]) @ [Dialer 0]) @ [Dialer 0]) ?s3"
    using P(4) by (rule more)
  moreover have "pcs ?s3 0 = DoneRefused DirectBlocked" by simp
  ultimately show ?thesis by force
qed

theorem kill_switch_interleaved_witness:
  "\<exists>s. run_while env_down (\<lambda>s. blockDirect (bal s)) (sys0 True) [Dialer 0, Dialer 0, Dialer 0] s \<and>
       pcs s 0 = DoneRefused DirectBlocked \<and> \<not> pc_direct (pcs s 0)"
proof -
  obtain s where s: "run_while env_down (\<lambda>s. blockDirect (bal s)) (sys0 True) [Dialer 0, Dialer 0, Dialer 0] s"
    "pcs s 0 = DoneRefused DirectBlocked"
    using run_refused [of "\<lambda>s. blockDirect (bal s)"] by blast
  have "\<not> pc_direct (pcs s 0)"
    by (rule kill_switch_interleaved [OF s(1)]) (simp add: sys0_def)
  with s show ?thesis by blast
qed

theorem dial_terminates_witness:
  "\<exists>s. run_while env_down (\<lambda>s. weights_fit (endpoints (bal s))) (sys0 True) [Dialer 0, Dialer 0, Dialer 0] s \<and>
       3 + pc_rank (pcs s 0) \<le> 16"
proof -
  obtain s where s: "run_while env_down (\<lambda>s. weights_fit (endpoints (bal s))) (sys0 True)
      [Dialer 0, Dialer 0, Dialer 0] s"
    using run_refused [of "\<lambda>s. weights_fit (endpoints (bal s))"]
    by (auto simp: weights_fit_def int64_max_def)
  have "pcs (sys0 True) 0 = Idle" by (simp add: sys0_def)
  from dial_terminates [OF s env_down_ok this] s show ?thesis by auto
qed

theorem solo_dial_refines_witness:
  "\<exists>s'. solo_run env_down 0 (sys0 True) s' \<and> result_of (pcs s' 0) = Some (Refused DirectBlocked)"
proof -
  have i: "pcs (sys0 True) 0 = Idle" by (simp add: sys0_def)
  obtain b' where "dialContext (te_pick (env_down 0)) (te_net (env_down 0)) (te_network (env_down 0))
      (te_addr (env_down 0)) (bal (sys0 True)) = (b', Refused DirectBlocked)"
    by (simp add: env_down_def sys0_def dial_run_defs)
  from solo_dial_refines [where E = env_down, OF i this] show ?thesis by blast
qed

end
