(* ===== verification/Go_IP.thy ===== *)
theory Go_IP
  imports Go_Net "HOL-Library.Word"
begin

unbundle bit_operations_syntax

text \<open>
  IP literals and CIDR blocks as Go's packages \<open>net\<close> and \<open>net/netip\<close> read them, and
  \<open>bufio.Scanner\<close>'s lines: the parts the routing rules depend on. An address is its list
  of bytes, four for an IPv4 literal and sixteen for an IPv6 literal.
\<close>

section \<open>IPv4 literals\<close>

text \<open>Four decimal fields of at least one digit, without leading zeros, at most 255.\<close>

definition parseOctet :: "string \<Rightarrow> nat option" where
  "parseOctet f =
     (if f = [] \<or> (1 < length f \<and> hd f = CHR ''0'') then None
      else case digitsVal 0 f of None \<Rightarrow> None | Some n \<Rightarrow> if n \<le> 255 then Some n else None)"

fun optAll :: "'a option list \<Rightarrow> 'a list option" where
  "optAll [] = Some []"
| "optAll (None # xs) = None"
| "optAll (Some x # xs) = map_option (Cons x) (optAll xs)"

definition parseIPv4 :: "string \<Rightarrow> nat list option" where
  "parseIPv4 s =
     (let fs = splitOn (CHR ''.'') s
      in if length fs = 4 then optAll (map parseOctet fs) else None)"

section \<open>IPv6 literals\<close>

definition hexVal :: "char \<Rightarrow> nat option" where
  "hexVal c =
     (let n = of_char c :: nat
      in if 48 \<le> n \<and> n \<le> 57 then Some (n - 48)
         else if 97 \<le> n \<and> n \<le> 102 then Some (n - 87)
         else if 65 \<le> n \<and> n \<le> 70 then Some (n - 55) else None)"

fun hexPrefix :: "string \<Rightarrow> nat list \<times> string" where
  "hexPrefix [] = ([], [])"
| "hexPrefix (c # cs) =
     (case hexVal c of
        None \<Rightarrow> ([], c # cs)
      | Some d \<Rightarrow> (case hexPrefix cs of (ds, r) \<Rightarrow> (d # ds, r)))"

text \<open>
  The loop of \<open>parseIPv6\<close>: the bytes so far, where the ellipsis was, the rest of the input.
  At most eight groups fit; the fuel counts the groups that may follow.
\<close>

fun ipv6Loop :: "nat \<Rightarrow> nat list \<Rightarrow> nat option \<Rightarrow> string \<Rightarrow> (nat list \<times> nat option) option" where
  "ipv6Loop 0 bs ell s = (if s = [] then Some (bs, ell) else None)"
| "ipv6Loop (Suc fuel) bs ell s =
     (case hexPrefix s of
        ([], _) \<Rightarrow> None
      | (ds, r) \<Rightarrow>
          if 4 < length ds then None
          else if r \<noteq> [] \<and> hd r = CHR ''.'' then
            (if ell = None \<and> length bs \<noteq> 12 then None
             else if 16 < length bs + 4 then None
             else map_option (\<lambda>v4. (bs @ v4, ell)) (parseIPv4 s))
          else
            (let acc = foldl (\<lambda>a d. a * 16 + d) 0 ds;
                 bs' = bs @ [acc div 256, acc mod 256]
             in if r = [] then Some (bs', ell)
                else if hd r \<noteq> CHR '':'' \<or> length r = 1 then None
                else (let r' = tl r
                      in if hd r' = CHR '':'' then
                           (if ell \<noteq> None then None
                            else if tl r' = [] then Some (bs', Some (length bs'))
                            else ipv6Loop fuel bs' (Some (length bs')) (tl r'))
                         else ipv6Loop fuel bs' ell r')))"

definition expandEllipsis :: "nat list \<Rightarrow> nat option \<Rightarrow> nat list option" where
  "expandEllipsis bs ell =
     (if length bs < 16 then
        (case ell of
           None \<Rightarrow> None
         | Some e \<Rightarrow> Some (take e bs @ replicate (16 - length bs) 0 @ drop e bs))
      else if ell \<noteq> None then None else Some bs)"

text \<open>A literal with a zone is refused by both callers, so \<open>%\<close> is an error here.\<close>

definition parseIPv6 :: "string \<Rightarrow> nat list option" where
  "parseIPv6 s =
     (if CHR ''%'' \<in> set s then None
      else if hasPrefix s ''::'' then
        (if length s = 2 then Some (replicate 16 0)
         else Option.bind (ipv6Loop 8 [] (Some 0) (drop 2 s)) (\<lambda>(bs, e). expandEllipsis bs e))
      else Option.bind (ipv6Loop 8 [] None s) (\<lambda>(bs, e). expandEllipsis bs e))"

text \<open>\<open>netip.ParseAddr\<close>: the first dot or colon decides.\<close>

fun parseAddrKind :: "string \<Rightarrow> char option" where
  "parseAddrKind [] = None"
| "parseAddrKind (c # cs) =
     (if c \<in> {CHR ''.'', CHR '':'', CHR ''%''} then Some c else parseAddrKind cs)"

type_synonym ip = "8 word list"

definition parseAddr :: "string \<Rightarrow> ip option" where
  "parseAddr s =
     (case parseAddrKind s of
        Some k \<Rightarrow>
          if k = CHR ''.'' then map_option (map of_nat) (parseIPv4 s)
          else if k = CHR '':'' then map_option (map of_nat) (parseIPv6 s)
          else None
      | None \<Rightarrow> None)"

definition as16 :: "ip \<Rightarrow> ip" where
  "as16 a = (if length a = 4 then replicate 10 0 @ [255, 255] @ a else a)"

definition parseIP :: "string \<Rightarrow> ip option" where
  "parseIP s = map_option as16 (parseAddr s)"

text \<open>\<open>IP.To4\<close> of a sixteen-byte address; \<open>None\<close> is Go's nil.\<close>

definition to4 :: "ip \<Rightarrow> ip option" where
  "to4 a = (if length a = 4 then Some a
            else if length a = 16 \<and> take 12 a = replicate 10 0 @ [255, 255] then Some (drop 12 a)
            else None)"

section \<open>CIDR blocks\<close>

fun cidrMask :: "nat \<Rightarrow> nat \<Rightarrow> ip" where
  "cidrMask n 0 = []"
| "cidrMask n (Suc l) =
     (if 8 \<le> n then 255 # cidrMask (n - 8) l
      else NOT (drop_bit n 255) # cidrMask 0 l)"

record ipnet =
  netIP :: ip
  netMask :: ip

definition maskIP :: "ip \<Rightarrow> ip \<Rightarrow> ip" where
  "maskIP a mk = map2 (AND) a mk"

text \<open>The mask length: decimal digits only, at most the width of the address.\<close>

definition parseCIDR :: "string \<Rightarrow> ipnet option" where
  "parseCIDR s =
     (case cutByte s (CHR ''/'') of
        None \<Rightarrow> None
      | Some (addr, mlen) \<Rightarrow>
          (case parseAddr addr of
             None \<Rightarrow> None
           | Some a \<Rightarrow>
               if mlen = [] then None
               else (case digitsVal 0 mlen of
                       None \<Rightarrow> None
                     | Some n \<Rightarrow>
                         if 8 * length a < n then None
                         else (let mk = cidrMask n (length a)
                               in Some \<lparr>netIP = maskIP a mk, netMask = mk\<rparr>))))"

definition networkNumberAndMask :: "ipnet \<Rightarrow> (ip \<times> ip) option" where
  "networkNumberAndMask n =
     (let a = (case to4 (netIP n) of Some x \<Rightarrow> x | None \<Rightarrow> netIP n); mk = netMask n
      in if length mk = 4 then (if length a = 4 then Some (a, mk) else None)
         else if length mk = 16 then Some (a, if length a = 4 then drop 12 mk else mk)
         else None)"

definition netContains :: "ipnet \<Rightarrow> ip \<Rightarrow> bool" where
  "netContains n a =
     (case networkNumberAndMask n of
        None \<Rightarrow> False
      | Some (nn, mk) \<Rightarrow>
          (let a' = (case to4 a of Some x \<Rightarrow> x | None \<Rightarrow> a)
           in length a' = length nn \<and> maskIP nn mk = maskIP a' mk))"

section \<open>What a CIDR block contains\<close>

definition byteBits :: "8 word \<Rightarrow> bool list" where
  "byteBits w = map (bit w) (rev [0..<8])"

definition ipBits :: "ip \<Rightarrow> bool list" where
  "ipBits a = concat (map byteBits a)"

lemma length_byteBits [simp]: "length (byteBits w) = 8"
  by (simp add: byteBits_def)

lemma byteBits_nth: "i < 8 \<Longrightarrow> byteBits w ! i = bit w (7 - i)"
  by (simp add: byteBits_def rev_nth)

lemma byteBits_inj: "byteBits a = byteBits b \<longleftrightarrow> a = b"
proof
  assume eq: "byteBits a = byteBits b"
  show "a = b"
  proof (rule bit_word_eqI)
    fix n assume "n < LENGTH(8)"
    then have n: "n < 8" by simp
    then have "byteBits a ! (7 - n) = bit a n" "byteBits b ! (7 - n) = bit b n"
      by (simp_all add: byteBits_nth)
    with eq show "bit a n = bit b n" by simp
  qed
qed simp

lemma bit_mask_byte: "n \<le> 8 \<Longrightarrow> i < 8 \<Longrightarrow> bit (NOT (drop_bit n (255 :: 8 word))) i \<longleftrightarrow> 8 - n \<le> i"
proof -
  assume n: "n \<le> 8" and i: "i < 8"
  have "(255 :: 8 word) = mask 8" by (simp add: mask_eq_exp_minus_1)
  then have "bit (drop_bit n (255 :: 8 word)) i \<longleftrightarrow> bit (mask 8 :: 8 word) (n + i)"
    by (simp only: bit_drop_bit_eq comp_def)
  then have "bit (drop_bit n (255 :: 8 word)) i \<longleftrightarrow> n + i < 8"
    by (simp only: bit_mask_iff) auto
  then show ?thesis using n i by (auto simp: bit_not_iff)
qed

lemma masked_byte_eq:
  assumes "n < 8"
  shows "x AND NOT (drop_bit n 255) = y AND NOT (drop_bit n (255 :: 8 word)) \<longleftrightarrow>
         take n (byteBits x) = take n (byteBits y)"
proof
  assume eq: "x AND NOT (drop_bit n 255) = y AND NOT (drop_bit n (255 :: 8 word))"
  show "take n (byteBits x) = take n (byteBits y)"
  proof (rule nth_equalityI)
    fix i assume "i < length (take n (byteBits x))"
    then have i: "i < n" using assms by simp
    have "bit (x AND NOT (drop_bit n 255)) (7 - i) = bit (y AND NOT (drop_bit n (255 :: 8 word))) (7 - i)"
      using eq by simp
    moreover have "8 - n \<le> 7 - i" using i assms by linarith
    ultimately show "take n (byteBits x) ! i = take n (byteBits y) ! i"
      using i assms bit_mask_byte [of n "7 - i"] by (simp add: bit_and_iff byteBits_nth)
  qed simp
next
  assume eq: "take n (byteBits x) = take n (byteBits y)"
  show "x AND NOT (drop_bit n 255) = y AND NOT (drop_bit n (255 :: 8 word))"
  proof (rule bit_word_eqI)
    fix i assume "i < LENGTH(8)"
    then have i: "i < 8" by simp
    have "8 - n \<le> i \<Longrightarrow> bit x i = bit y i"
    proof -
      assume "8 - n \<le> i"
      then have "7 - i < n" using i assms by linarith
      then have "byteBits x ! (7 - i) = byteBits y ! (7 - i)" using eq by (metis nth_take)
      then show ?thesis using i by (simp add: byteBits_nth)
    qed
    then show "bit (x AND NOT (drop_bit n 255)) i = bit (y AND NOT (drop_bit n (255 :: 8 word))) i"
      using bit_mask_byte [of n i] assms i by (auto simp: bit_and_iff)
  qed
qed

lemma maskIP_cidrMask:
  assumes "length a = l" "length b = l" "n \<le> 8 * l"
  shows "maskIP a (cidrMask n l) = maskIP b (cidrMask n l) \<longleftrightarrow> take n (ipBits a) = take n (ipBits b)"
  using assms
proof (induction l arbitrary: a b n)
  case 0
  then show ?case by (simp add: maskIP_def)
next
  case (Suc l)
  obtain x xs where a: "a = x # xs" "length xs = l" using Suc.prems(1) by (cases a) auto
  obtain y ys where b: "b = y # ys" "length ys = l" using Suc.prems(2) by (cases b) auto
  show ?case
  proof (cases "8 \<le> n")
    case True
    have "(x AND 255 = y AND (255 :: 8 word)) \<longleftrightarrow> x = y"
    proof -
      have "(255 :: 8 word) = - 1" by simp
      then show ?thesis by (simp only: and.right_neutral)
    qed
    moreover have "take n (ipBits a) = take n (ipBits b) \<longleftrightarrow>
        byteBits x = byteBits y \<and> take (n - 8) (ipBits xs) = take (n - 8) (ipBits ys)"
      using True by (simp add: a b ipBits_def)
    ultimately show ?thesis
      using Suc.IH [of xs ys "n - 8"] Suc.prems(3) True a b by (simp add: maskIP_def byteBits_inj)
  next
    case False
    have "maskIP xs (cidrMask 0 l) = maskIP ys (cidrMask 0 l)"
      using Suc.IH [of xs ys 0] a b by simp
    moreover have "take n (ipBits a) = take n (ipBits b) \<longleftrightarrow> take n (byteBits x) = take n (byteBits y)"
      using False by (simp add: a b ipBits_def)
    ultimately show ?thesis
      using False masked_byte_eq [of n x y] a b by (simp add: maskIP_def)
  qed
qed

lemma length_cidrMask [simp]: "length (cidrMask n l) = l"
  by (induction l arbitrary: n) auto

lemma length_maskIP [simp]: "length (maskIP a mk) = min (length a) (length mk)"
  by (simp add: maskIP_def)

lemma maskIP_idem: "length a = length mk \<Longrightarrow> maskIP (maskIP a mk) mk = maskIP a mk"
  unfolding maskIP_def by (induction a mk rule: list_induct2) (auto simp: and.assoc)

lemma parseIPv4_length: "parseIPv4 s = Some a \<Longrightarrow> length a = 4"
proof -
  have len: "optAll xs = Some ys \<Longrightarrow> length ys = length xs" for xs and ys :: "nat list"
    by (induction xs arbitrary: ys rule: optAll.induct) auto
  assume "parseIPv4 s = Some a"
  then show ?thesis using len by (fastforce simp: parseIPv4_def Let_def split: if_splits)
qed

text \<open>
  For an IPv4 block and an IPv4 address: contained exactly when the first \<open>n\<close> bits agree.
\<close>

lemma netContains_v4:
  assumes "parseAddr net = Some a" "length a = 4" "CHR ''/'' \<notin> set net" "n \<le> 32"
    and "parseIP host = Some h" "to4 h = Some b"
  shows "\<exists>block. parseCIDR (net @ ''/'' @ strconvItoa (int n)) = Some block \<and>
    (netContains block h \<longleftrightarrow> take n (ipBits b) = take n (ipBits a))"
proof -
  let ?mk = "cidrMask n 4"
  have m: "strconvItoa (int n) \<noteq> []" "digitsVal 0 (strconvItoa (int n)) = Some n"
    by (simp_all add: strconvItoa_def digitsVal_natDigits)
  have P: "parseCIDR (net @ ''/'' @ strconvItoa (int n)) = Some \<lparr>netIP = maskIP a ?mk, netMask = ?mk\<rparr>"
    using assms m by (simp add: parseCIDR_def Let_def)
  have b4: "length b = 4" using assms(6) by (auto simp: to4_def split: if_splits)
  have "netContains \<lparr>netIP = maskIP a ?mk, netMask = ?mk\<rparr> h \<longleftrightarrow> maskIP a ?mk = maskIP b ?mk"
    using assms b4 by (simp add: netContains_def networkNumberAndMask_def to4_def [of "maskIP a ?mk"] maskIP_idem)
  also have "\<dots> \<longleftrightarrow> take n (ipBits b) = take n (ipBits a)"
    using maskIP_cidrMask [of b 4 a n] b4 assms(2,4) by auto
  finally show ?thesis using P by blast
qed

section \<open>Lines of a file\<close>

text \<open>
  \<open>bufio.Scanner\<close> with its default settings: lines without their end, a trailing carriage
  return dropped; a line of more than 65535 bytes ends the scan with an error (\<open>False\<close>).
\<close>

definition dropCR :: "string \<Rightarrow> string" where
  "dropCR l = (if l \<noteq> [] \<and> last l = CHR 0x0D then butlast l else l)"

fun scanGo :: "string list \<Rightarrow> string list \<times> bool" where
  "scanGo [] = ([], True)"
| "scanGo (l # ls) =
     (if 65535 < int (length l) then ([], False) else (case scanGo ls of (r, ok) \<Rightarrow> (dropCR l # r, ok)))"

definition scanLines :: "string \<Rightarrow> string list \<times> bool" where
  "scanLines s =
     (let ls = splitOn (CHR 0x0A) s in scanGo (if last ls = [] then butlast ls else ls))"

end
