(* ===== verification/Plugins.thy ===== *)
theory Plugins
  imports Go_IP
begin

text \<open>
  The rule engine of package \<open>plugins\<close>: decisions and rules (\<open>engine.go\<close>), the match
  expressions and the AND-router (\<open>routing.go\<close>), the cached list files (\<open>lists.go\<close>) and
  the torrent heuristics (\<open>torrent.go\<close>). The list cache is a package variable in Go; here it
  is a state that every match takes and returns.
\<close>

section \<open>Decisions and rules\<close>

datatype decision = DecisionProxy | DecisionDirect | DecisionBlock

fun decisionName :: "decision \<Rightarrow> string" where
  "decisionName DecisionDirect = ''direct''"
| "decisionName DecisionBlock = ''block''"
| "decisionName DecisionProxy = ''proxy''"

definition decisionFromName :: "string \<Rightarrow> decision" where
  "decisionFromName s =
     (if s = ''direct'' then DecisionDirect else if s = ''block'' then DecisionBlock else DecisionProxy)"

lemma decision_roundtrip [simp]: "decisionFromName (decisionName d) = d"
  by (cases d) (simp_all add: decisionFromName_def)

record match_expr =
  mType :: string
  mValue :: string

record rule =
  rID :: string
  rMatch :: match_expr
  rAction :: decision
  rEnabled :: bool
  rNote :: string
  rActionName :: string

record engine =
  rules :: "rule list"
  engBlockDirect :: bool

definition setEngBlockDirect :: "bool \<Rightarrow> engine \<Rightarrow> engine" where
  "setEngBlockDirect v e = e\<lparr>engBlockDirect := v\<rparr>"

section \<open>Rule identifiers\<close>

text \<open>
  \<open>itoa\<close> writes into a 16-byte buffer from its end: \<open>pos\<close> bytes are left, and one digit
  more than that indexes out of the array, which panics (\<open>None\<close>).
\<close>

fun itoaLoop :: "nat \<Rightarrow> int \<Rightarrow> string \<Rightarrow> string option" where
  "itoaLoop 0 i acc = (if 0 < i then None else Some acc)"
| "itoaLoop (Suc pos) i acc =
     (if 0 < i then itoaLoop pos (i div 10) (digitChar (nat (i mod 10)) # acc) else Some acc)"

definition itoa :: "int \<Rightarrow> string option" where
  "itoa i = (if i = 0 then Some ''0'' else itoaLoop 16 i [])"

definition genRuleID :: "int \<Rightarrow> rule \<Rightarrow> string option" where
  "genRuleID idx r =
     map_option (\<lambda>n. mType (rMatch r) @ '':'' @ mValue (rMatch r) @ '':'' @ rActionName r @ ''#'' @ n)
       (itoa idx)"

definition setRule :: "nat \<Rightarrow> rule \<Rightarrow> rule option" where
  "setRule i r =
     map_option
       (\<lambda>r1. if rActionName r1 = [] then r1\<lparr>rActionName := decisionName (rAction r1)\<rparr>
             else r1\<lparr>rAction := decisionFromName (rActionName r1)\<rparr>)
       (if rID r = [] then map_option (\<lambda>n. r\<lparr>rID := n\<rparr>) (genRuleID (int i) r) else Some r)"

definition setRules :: "rule list \<Rightarrow> engine \<Rightarrow> engine option" where
  "setRules rs e =
     map_option (\<lambda>out. e\<lparr>rules := out\<rparr>) (optAll (map (\<lambda>(i, r). setRule i r) (enumerate 0 rs)))"

definition newEngine :: "rule list \<Rightarrow> engine option" where
  "newEngine rs = setRules rs \<lparr>rules = [], engBlockDirect = False\<rparr>"

section \<open>List files and their cache\<close>

text \<open>
  The files: \<open>statFile\<close> gives the modification time, \<open>openFile\<close> the content, each \<open>None\<close>
  where the call fails.
\<close>

record file_sys =
  statFile :: "string \<Rightarrow> int option"
  openFile :: "string \<Rightarrow> string option"

text \<open>
  One parsed file. The Go map \<open>ips\<close> is keyed by the canonical text of the address, which
  is one per sixteen-byte address; the model keeps the addresses.
\<close>

record list_entry =
  domainSuffixes :: "string list"
  cidrs :: "ipnet list"
  ips :: "ip set"
  lmtime :: int

type_synonym list_cache = "string \<Rightarrow> list_entry option"

definition addListLine :: "list_entry \<Rightarrow> string \<Rightarrow> list_entry" where
  "addListLine out raw =
     (let line = trimSpace raw
      in if line = [] \<or> hasPrefix line ''#'' then out
         else case (if contains line ''/'' then parseCIDR line else None) of
                Some n \<Rightarrow> out\<lparr>cidrs := cidrs out @ [n]\<rparr>
              | None \<Rightarrow>
                  (case parseIP line of
                     Some a \<Rightarrow> out\<lparr>ips := insert a (ips out)\<rparr>
                   | None \<Rightarrow>
                       out\<lparr>domainSuffixes := domainSuffixes out @ [toLower (trimPrefix line ''.'')]\<rparr>))"

definition parseListFile :: "int \<Rightarrow> string \<Rightarrow> list_entry" where
  "parseListFile mt body =
     foldl addListLine \<lparr>domainSuffixes = [], cidrs = [], ips = {}, lmtime = mt\<rparr> (fst (scanLines body))"

definition loadList :: "file_sys \<Rightarrow> string \<Rightarrow> list_cache \<Rightarrow> list_entry option \<times> list_cache" where
  "loadList fs path cache =
     (case statFile fs path of
        None \<Rightarrow> (None, cache)
      | Some mt \<Rightarrow>
          (case (case cache path of Some c \<Rightarrow> if lmtime c = mt then Some c else None | None \<Rightarrow> None) of
             Some c \<Rightarrow> (Some c, cache)
           | None \<Rightarrow>
               (case openFile fs path of
                  None \<Rightarrow> (None, cache)
                | Some body \<Rightarrow>
                    (let out = parseListFile mt body in (Some out, cache(path \<mapsto> out))))))"

definition suffixMatch :: "string \<Rightarrow> string \<Rightarrow> bool" where
  "suffixMatch lower suf \<longleftrightarrow> lower = suf \<or> hasSuffix lower (''.'' @ suf)"

definition matchDomainList :: "file_sys \<Rightarrow> string \<Rightarrow> string \<Rightarrow> list_cache \<Rightarrow> bool \<times> list_cache" where
  "matchDomainList fs host path cache =
     (case loadList fs path cache of
        (None, cache') \<Rightarrow> (False, cache')
      | (Some c, cache') \<Rightarrow> (list_ex (suffixMatch (toLower host)) (domainSuffixes c), cache'))"

definition matchIPList :: "file_sys \<Rightarrow> string \<Rightarrow> string \<Rightarrow> list_cache \<Rightarrow> bool \<times> list_cache" where
  "matchIPList fs host path cache =
     (case parseIP host of
        None \<Rightarrow> (False, cache)
      | Some a \<Rightarrow>
          (case loadList fs path cache of
             (None, cache') \<Rightarrow> (False, cache')
           | (Some c, cache') \<Rightarrow> (a \<in> ips c \<or> list_ex (\<lambda>n. netContains n a) (cidrs c), cache')))"

section \<open>Match expressions\<close>

definition matchPort :: "int \<Rightarrow> string \<Rightarrow> bool" where
  "matchPort port value =
     (case indexStr value ''-'' of
        Some dash \<Rightarrow>
          (case (strconvAtoi (take dash value), strconvAtoi (drop (Suc dash) value)) of
             (Some lo, Some hi) \<Rightarrow> lo \<le> port \<and> port \<le> hi
           | _ \<Rightarrow> False)
      | None \<Rightarrow> (case strconvAtoi value of Some p \<Rightarrow> port = p | None \<Rightarrow> False))"

fun geoLines :: "ip \<Rightarrow> string list \<Rightarrow> bool" where
  "geoLines a [] = False"
| "geoLines a (raw # ls) =
     (let line = trimSpace raw
      in if line = [] \<or> hasPrefix line ''#'' then geoLines a ls
         else case parseCIDR line of
                None \<Rightarrow> geoLines a ls
              | Some n \<Rightarrow> if netContains n a then True else geoLines a ls)"

definition matchGeoIP :: "file_sys \<Rightarrow> string \<Rightarrow> string \<Rightarrow> bool" where
  "matchGeoIP fs host cc =
     (case parseIP host of
        None \<Rightarrow> False
      | Some a \<Rightarrow>
          (case openFile fs (''geoip/'' @ toLower cc @ ''.txt'') of
             None \<Rightarrow> False
           | Some body \<Rightarrow> geoLines a (fst (scanLines body))))"

definition matchExpr ::
  "file_sys \<Rightarrow> match_expr \<Rightarrow> string \<Rightarrow> int \<Rightarrow> string \<Rightarrow> list_cache \<Rightarrow> bool \<times> list_cache" where
  "matchExpr fs m host port protocolHint cache =
     (let lower = toLower host
      in if mType m = ''domain'' then (equalFold (mValue m) host, cache)
         else if mType m = ''domain_suffix'' then (suffixMatch lower (toLower (mValue m)), cache)
         else if mType m = ''domain_keyword'' then (contains lower (toLower (mValue m)), cache)
         else if mType m = ''ip_cidr'' then
           (case parseIP host of
              None \<Rightarrow> (False, cache)
            | Some a \<Rightarrow>
                (case parseCIDR (mValue m) of
                   None \<Rightarrow> (False, cache)
                 | Some network \<Rightarrow> (netContains network a, cache)))
         else if mType m = ''geoip'' then (matchGeoIP fs host (toUpper (mValue m)), cache)
         else if mType m = ''domain_list'' then matchDomainList fs host (mValue m) cache
         else if mType m = ''ip_list'' then matchIPList fs host (mValue m) cache
         else if mType m = ''port'' then (matchPort port (mValue m), cache)
         else if mType m = ''protocol'' then (equalFold protocolHint (mValue m), cache)
         else (False, cache))"

section \<open>Evaluation\<close>

text \<open>A connection request: host, port and protocol hint.\<close>

type_synonym request = "string \<times> int \<times> string"

fun evaluateRules :: "file_sys \<Rightarrow> list_cache \<Rightarrow> rule list \<Rightarrow> request \<Rightarrow> decision \<times> list_cache" where
  "evaluateRules fs cache [] q = (DecisionProxy, cache)"
| "evaluateRules fs cache (r # rs) (host, port, hint) =
     (if \<not> rEnabled r then evaluateRules fs cache rs (host, port, hint)
      else case matchExpr fs (rMatch r) host port hint cache of
             (True, cache') \<Rightarrow> (rAction r, cache')
           | (False, cache') \<Rightarrow> evaluateRules fs cache' rs (host, port, hint))"

definition evaluate :: "file_sys \<Rightarrow> list_cache \<Rightarrow> engine \<Rightarrow> request \<Rightarrow> decision \<times> list_cache" where
  "evaluate fs cache e q = evaluateRules fs cache (rules e) q"

record routing_rule =
  rrMatch :: "match_expr list"
  rrAction :: decision

fun allMatch :: "file_sys \<Rightarrow> match_expr list \<Rightarrow> request \<Rightarrow> list_cache \<Rightarrow> bool \<times> list_cache" where
  "allMatch fs [] q cache = (True, cache)"
| "allMatch fs (m # ms) (host, port, hint) cache =
     (case matchExpr fs m host port hint cache of
        (False, cache') \<Rightarrow> (False, cache')
      | (True, cache') \<Rightarrow> allMatch fs ms (host, port, hint) cache')"

fun routerEvaluate ::
  "file_sys \<Rightarrow> list_cache \<Rightarrow> routing_rule list \<Rightarrow> request \<Rightarrow> decision \<times> list_cache" where
  "routerEvaluate fs cache [] q = (DecisionProxy, cache)"
| "routerEvaluate fs cache (r # rs) q =
     (if rrMatch r = [] then routerEvaluate fs cache rs q
      else case allMatch fs (rrMatch r) q cache of
             (True, cache') \<Rightarrow> (rrAction r, cache')
           | (False, cache') \<Rightarrow> routerEvaluate fs cache' rs q)"

section \<open>The torrent blocker\<close>

definition torrentPorts :: "int list" where
  "torrentPorts = [6881, 6882, 6883, 6884, 6885, 6886, 6887, 6888, 6889, 51413]"

definition trackerDomains :: "string list" where
  "trackerDomains =
    [''tracker.thepiratebay.org'', ''tracker.openbittorrent.com'', ''tracker.opentrackr.org'',
     ''announce.torrentsmd.com'', ''tracker.leechers-paradise.org'', ''tracker.coppersurfer.tk'',
     ''exodus.desync.com'']"

definition torrentKeywords :: "string list" where
  "torrentKeywords = [''torrent'', ''tracker'']"

definition torrentMatch :: "bool \<Rightarrow> request \<Rightarrow> bool" where
  "torrentMatch enabled q =
     (case q of (host, port, hint) \<Rightarrow>
        if \<not> enabled then False
        else if port \<in> set torrentPorts then True
        else if list_ex (suffixMatch (toLower host)) trackerDomains then True
        else if port = 80 \<or> port = 443 \<or> equalFold hint ''udp'' then
          list_ex (contains (toLower host)) torrentKeywords
        else False)"

section \<open>First match wins\<close>

text \<open>
  The contract both evaluators share. \<open>decide\<close> may keep a state (the list cache); while it
  is in \<open>inv\<close>, the verdict is the action of the first rule that applies.
\<close>

locale first_match =
  fixes decide :: "'c \<Rightarrow> 'r list \<Rightarrow> 'q \<Rightarrow> 'd \<times> 'c"
    and inv :: "'c \<Rightarrow> bool"
    and applies :: "'r \<Rightarrow> 'q \<Rightarrow> bool"
    and act :: "'r \<Rightarrow> 'd"
    and dflt :: 'd
  assumes verdict: "inv c \<Longrightarrow>
      fst (decide c rs q) = (case find (\<lambda>r. applies r q) rs of None \<Rightarrow> dflt | Some r \<Rightarrow> act r)"
    and inv_kept: "inv c \<Longrightarrow> inv (snd (decide c rs q))"
begin

lemma verdict_none: "inv c \<Longrightarrow> \<forall>r \<in> set rs. \<not> applies r q \<Longrightarrow> fst (decide c rs q) = dflt"
  by (auto simp: verdict split: option.split dest: find_SomeD)

lemma verdict_append:
  "inv c \<Longrightarrow> \<forall>r \<in> set rs. \<not> applies r q \<Longrightarrow> fst (decide c (rs @ rs') q) = fst (decide c rs' q)"
proof -
  have "\<forall>r \<in> set rs. \<not> applies r q \<Longrightarrow> find (\<lambda>r. applies r q) (rs @ rs') = find (\<lambda>r. applies r q) rs'"
    by (induction rs) auto
  then show "inv c \<Longrightarrow> \<forall>r \<in> set rs. \<not> applies r q \<Longrightarrow> ?thesis" by (simp add: verdict)
qed

lemma verdict_first:
  "inv c \<Longrightarrow> \<forall>r \<in> set rs. \<not> applies r q \<Longrightarrow> applies r q \<Longrightarrow> fst (decide c (rs @ r # rs') q) = act r"
  by (simp only: verdict_append) (simp add: verdict)

lemma verdict_irrelevant:
  "inv c \<Longrightarrow> (\<And>r. r \<in> set rs \<Longrightarrow> applies r q \<Longrightarrow> keep r) \<Longrightarrow>
   fst (decide c (filter keep rs) q) = fst (decide c rs q)"
proof -
  have "(\<And>r. r \<in> set rs \<Longrightarrow> applies r q \<Longrightarrow> keep r) \<Longrightarrow>
      find (\<lambda>r. applies r q) (filter keep rs) = find (\<lambda>r. applies r q) rs"
    by (induction rs) auto
  then show "inv c \<Longrightarrow> (\<And>r. r \<in> set rs \<Longrightarrow> applies r q \<Longrightarrow> keep r) \<Longrightarrow> ?thesis"
    by (simp add: verdict)
qed

lemma verdict_cases:
  "inv c \<Longrightarrow> fst (decide c rs q) = dflt \<or> (\<exists>r \<in> set rs. applies r q \<and> fst (decide c rs q) = act r)"
  by (auto simp: verdict split: option.splits dest: find_SomeD)

lemma verdict_stable:
  "inv c \<Longrightarrow> inv c' \<Longrightarrow> fst (decide c rs q) = fst (decide c' rs q)"
  by (simp add: verdict)

end

text \<open>
  What a match expression means, without the cache: a list rule reads the file as it is.
\<close>

definition listContent :: "file_sys \<Rightarrow> string \<Rightarrow> list_entry option" where
  "listContent fs path =
     (case (statFile fs path, openFile fs path) of
        (Some mt, Some body) \<Rightarrow> Some (parseListFile mt body) | _ \<Rightarrow> None)"

definition exprMatches :: "file_sys \<Rightarrow> match_expr \<Rightarrow> request \<Rightarrow> bool" where
  "exprMatches fs m q =
     (case q of (host, port, hint) \<Rightarrow>
        if mType m = ''domain_list'' then
          (case listContent fs (mValue m) of
             None \<Rightarrow> False | Some c \<Rightarrow> list_ex (suffixMatch (toLower host)) (domainSuffixes c))
        else if mType m = ''ip_list'' then
          (case (parseIP host, listContent fs (mValue m)) of
             (Some a, Some c) \<Rightarrow> a \<in> ips c \<or> list_ex (\<lambda>n. netContains n a) (cidrs c)
           | _ \<Rightarrow> False)
        else fst (matchExpr fs m host port hint Map.empty))"

text \<open>
  A coherent cache: an entry with the file's present time is what the file parses to.
\<close>

definition cache_ok :: "file_sys \<Rightarrow> list_cache \<Rightarrow> bool" where
  "cache_ok fs cache \<longleftrightarrow>
     (\<forall>path c mt. cache path = Some c \<longrightarrow> statFile fs path = Some mt \<longrightarrow> lmtime c = mt \<longrightarrow>
        listContent fs path = Some c)"

lemma cache_ok_empty [simp]: "cache_ok fs Map.empty"
  by (simp add: cache_ok_def)

lemma lmtime_addListLine [simp]: "lmtime (addListLine out l) = lmtime out"
  by (simp add: addListLine_def Let_def split: option.splits)

lemma lmtime_foldl_addListLine [simp]: "lmtime (foldl addListLine out ls) = lmtime out"
  by (induction ls arbitrary: out) auto

lemma lmtime_parseListFile [simp]: "lmtime (parseListFile mt body) = mt"
  by (simp add: parseListFile_def)

lemma loadList_ok:
  assumes "cache_ok fs cache"
  shows "fst (loadList fs path cache) = listContent fs path \<and> cache_ok fs (snd (loadList fs path cache))"
proof (cases "statFile fs path")
  case None
  then show ?thesis using assms by (simp add: loadList_def listContent_def)
next
  case (Some mt)
  show ?thesis
  proof (cases "\<exists>c. cache path = Some c \<and> lmtime c = mt")
    case True
    with Some assms show ?thesis by (auto simp: loadList_def cache_ok_def)
  next
    case False
    then have "(case cache path of Some c \<Rightarrow> if lmtime c = mt then Some c else None | None \<Rightarrow> None) = None"
      by (auto split: option.splits)
    with Some assms show ?thesis
      by (auto simp: loadList_def listContent_def cache_ok_def Let_def split: option.splits)
  qed
qed

lemma matchExpr_ok:
  assumes "cache_ok fs cache"
  shows "fst (matchExpr fs m host port hint cache) = exprMatches fs m (host, port, hint) \<and>
         cache_ok fs (snd (matchExpr fs m host port hint cache))"
proof -
  obtain c cache' where ld: "loadList fs (mValue m) cache = (c, cache')" by fastforce
  with loadList_ok [OF assms, of "mValue m"] have "c = listContent fs (mValue m)" "cache_ok fs cache'"
    by simp_all
  with ld assms show ?thesis
    by (auto simp: matchExpr_def exprMatches_def matchDomainList_def matchIPList_def Let_def
        split: option.splits)
qed

definition ruleApplies :: "file_sys \<Rightarrow> rule \<Rightarrow> request \<Rightarrow> bool" where
  "ruleApplies fs r q \<longleftrightarrow> rEnabled r \<and> exprMatches fs (rMatch r) q"

definition routingApplies :: "file_sys \<Rightarrow> routing_rule \<Rightarrow> request \<Rightarrow> bool" where
  "routingApplies fs r q \<longleftrightarrow> rrMatch r \<noteq> [] \<and> list_all (\<lambda>m. exprMatches fs m q) (rrMatch r)"

lemma allMatch_ok:
  assumes "cache_ok fs cache"
  shows "fst (allMatch fs ms q cache) = list_all (\<lambda>m. exprMatches fs m q) ms \<and>
         cache_ok fs (snd (allMatch fs ms q cache))"
  using assms
proof (induction ms arbitrary: cache)
  case Nil
  then show ?case by simp
next
  case (Cons m ms)
  obtain host port hint where q: "q = (host, port, hint)" by (metis prod_cases3)
  obtain ok cache' where m: "matchExpr fs m host port hint cache = (ok, cache')" by fastforce
  with matchExpr_ok [OF Cons.prems, of m host port hint]
  have "ok = exprMatches fs m q" "cache_ok fs cache'" by (simp_all add: q)
  with Cons.IH [of cache'] m show ?case by (cases ok) (auto simp: q)
qed

lemma evaluateRules_ok:
  assumes "cache_ok fs cache"
  shows "fst (evaluateRules fs cache rs q) =
      (case find (\<lambda>r. ruleApplies fs r q) rs of None \<Rightarrow> DecisionProxy | Some r \<Rightarrow> rAction r) \<and>
    cache_ok fs (snd (evaluateRules fs cache rs q))"
  using assms
proof (induction rs arbitrary: cache)
  case Nil
  then show ?case by simp
next
  case (Cons r rs)
  obtain host port hint where q: "q = (host, port, hint)" by (metis prod_cases3)
  obtain ok cache' where m: "matchExpr fs (rMatch r) host port hint cache = (ok, cache')" by fastforce
  with matchExpr_ok [OF Cons.prems, of "rMatch r" host port hint]
  have "ok = exprMatches fs (rMatch r) q" "cache_ok fs cache'" by (simp_all add: q)
  with Cons.IH [of cache'] Cons.IH [OF Cons.prems] m show ?case
    by (cases ok) (auto simp: q ruleApplies_def)
qed

lemma routerEvaluate_ok:
  assumes "cache_ok fs cache"
  shows "fst (routerEvaluate fs cache rs q) =
      (case find (\<lambda>r. routingApplies fs r q) rs of None \<Rightarrow> DecisionProxy | Some r \<Rightarrow> rrAction r) \<and>
    cache_ok fs (snd (routerEvaluate fs cache rs q))"
  using assms
proof (induction rs arbitrary: cache)
  case Nil
  then show ?case by simp
next
  case (Cons r rs)
  obtain ok cache' where m: "allMatch fs (rrMatch r) q cache = (ok, cache')" by fastforce
  with allMatch_ok [OF Cons.prems, of "rrMatch r" q]
  have "ok = list_all (\<lambda>m. exprMatches fs m q) (rrMatch r)" "cache_ok fs cache'" by simp_all
  with Cons.IH [of cache'] Cons.IH [OF Cons.prems] m show ?case
    by (cases ok) (auto simp: routingApplies_def)
qed

interpretation engine_fm: first_match "evaluateRules fs" "cache_ok fs" "ruleApplies fs" rAction DecisionProxy
  for fs
  by unfold_locales (simp_all add: evaluateRules_ok)

interpretation router_fm: first_match "routerEvaluate fs" "cache_ok fs" "routingApplies fs" rrAction DecisionProxy
  for fs
  by unfold_locales (simp_all add: routerEvaluate_ok)

section \<open>What the rule engine guarantees\<close>

text \<open>
  C6. First match wins: the engine's verdict is the action of the first enabled rule whose
  expression matches, read off the list files as they are now, or \<open>proxy\<close> when there is
  none; the list cache stays coherent with the files. In particular the verdict does not
  depend on which lists happened to be cached.
\<close>

theorem evaluate_first_match:
  assumes "cache_ok fs cache" "evaluate fs cache e q = (v, cache')"
  shows "cache_ok fs cache' \<and> evaluate fs Map.empty e q = (v, snd (evaluate fs Map.empty e q)) \<and>
    ((\<exists>pre r post. rules e = pre @ r # post \<and> (\<forall>x \<in> set pre. \<not> ruleApplies fs x q) \<and>
        ruleApplies fs r q \<and> v = rAction r) \<or>
     ((\<forall>x \<in> set (rules e). \<not> ruleApplies fs x q) \<and> v = DecisionProxy))"
proof -
  have v: "v = fst (evaluateRules fs cache (rules e) q)"
    and c: "cache' = snd (evaluateRules fs cache (rules e) q)"
    using assms(2) by (simp_all add: evaluate_def)
  have "v = fst (evaluateRules fs Map.empty (rules e) q)"
    unfolding v by (rule engine_fm.verdict_stable [OF assms(1) cache_ok_empty])
  then have e: "evaluate fs Map.empty e q = (v, snd (evaluate fs Map.empty e q))"
    by (simp add: evaluate_def)
  show ?thesis
  proof (cases "find (\<lambda>r. ruleApplies fs r q) (rules e)")
    case None
    then have "\<forall>x \<in> set (rules e). \<not> ruleApplies fs x q" by (simp add: find_None_iff)
    with e show ?thesis
      using engine_fm.verdict_none [OF assms(1)] engine_fm.inv_kept [OF assms(1)] by (simp add: v c)
  next
    case (Some r)
    then obtain i where i: "i < length (rules e)" "r = rules e ! i" "ruleApplies fs r q"
        "\<forall>j < i. \<not> ruleApplies fs (rules e ! j) q"
      by (auto simp: find_Some_iff)
    then have split: "rules e = take i (rules e) @ r # drop (Suc i) (rules e)"
      by (simp add: id_take_nth_drop)
    have pre: "\<forall>x \<in> set (take i (rules e)). \<not> ruleApplies fs x q"
      using i by (auto simp: in_set_conv_nth)
    have "v = rAction r"
      unfolding v by (subst split) (rule engine_fm.verdict_first [OF assms(1) pre i(3)])
    moreover have "cache_ok fs cache'" unfolding c by (rule engine_fm.inv_kept [OF assms(1)])
    ultimately show ?thesis using split pre i(3) e by blast
  qed
qed

lemma optAll_map_Some: "optAll (map f xs) = Some ys \<longleftrightarrow> list_all2 (\<lambda>x y. f x = Some y) xs ys"
proof (induction xs arbitrary: ys)
  case Nil
  then show ?case by (cases ys) auto
next
  case (Cons x xs)
  then show ?case
    by (cases "f x"; cases ys) (auto simp: list_all2_Cons1)
qed

lemma itoaLoop_zero [simp]: "itoaLoop pos 0 acc = Some acc"
  by (cases pos) auto

lemma itoaLoop_digits:
  "0 < i \<Longrightarrow> i < 10 ^ pos \<Longrightarrow> itoaLoop pos (int i) acc = Some (natDigits i @ acc)"
proof (induction pos arbitrary: i acc)
  case 0
  then show ?case by simp
next
  case (Suc pos)
  have d: "nat (int i mod 10) = i mod 10" "int i div 10 = int (i div 10)"
    by (simp_all add: nat_mod_distrib zdiv_int)
  have "i div 10 < 10 ^ pos" using Suc.prems(2) by (simp add: less_mult_imp_div_less mult.commute)
  then show ?case
    using Suc.IH [of "i div 10" "digitChar (i mod 10) # acc"] Suc.prems d
    by (cases "i < 10") (auto simp: natDigits.simps [of i])
qed

text \<open>The hand-written conversion agrees with \<open>strconv.Itoa\<close> below ten to the sixteenth.\<close>

lemma itoa_eq: "i < 10 ^ 16 \<Longrightarrow> itoa (int i) = Some (strconvItoa (int i))"
  using itoaLoop_digits [of i 16 "[]"]
  by (cases "i = 0") (simp_all add: itoa_def strconvItoa_def natDigits.simps [of 0])

lemma itoaLoop_overflow: "10 ^ pos \<le> i \<Longrightarrow> itoaLoop pos (int i) acc = None"
proof (induction pos arbitrary: i acc)
  case 0
  then show ?case by simp
next
  case (Suc pos)
  have "10 ^ pos \<le> i div 10" using Suc.prems by (simp add: less_eq_div_iff_mult_less_eq mult.commute)
  moreover have "0 < i" using Suc.prems by (metis gr0I not_one_le_zero one_le_numeral one_le_power le_zero_eq)
  moreover have "int i div 10 = int (i div 10)" by (simp add: zdiv_int)
  ultimately show ?case using Suc.IH [of "i div 10"] by simp
qed

lemma setRule_Some:
  "setRule i r = Some r' \<longleftrightarrow>
     (\<exists>n. (if rID r = [] then genRuleID (int i) r = Some n else n = rID r) \<and>
        r' = (if rActionName r = [] then r\<lparr>rID := n, rActionName := decisionName (rAction r)\<rparr>
              else r\<lparr>rID := n, rAction := decisionFromName (rActionName r)\<rparr>))"
  by (auto simp: setRule_def)

lemma setRules_nth:
  "setRules rs e = Some e' \<longleftrightarrow>
     engBlockDirect e' = engBlockDirect e \<and> length (rules e') = length rs \<and>
     (\<forall>i < length rs. setRule i (rs ! i) = Some (rules e' ! i))"
proof -
  have "setRules rs e = Some e' \<longleftrightarrow>
      optAll (map (\<lambda>(i, r). setRule i r) (enumerate 0 rs)) = Some (rules e') \<and>
      engBlockDirect e' = engBlockDirect e"
    unfolding setRules_def by (cases "optAll (map (\<lambda>(i, r). setRule i r) (enumerate 0 rs))"; cases e; cases e') auto
  then show ?thesis
    by (auto simp: optAll_map_Some list_all2_conv_all_nth nth_enumerate_eq)
qed

lemma genRuleID_nonempty: "genRuleID i r = Some n \<Longrightarrow> n \<noteq> []"
  by (auto simp: genRuleID_def)

lemma setRule_frame:
  assumes "setRule i r = Some r'"
  shows "rMatch r' = rMatch r \<and> rEnabled r' = rEnabled r \<and> rNote r' = rNote r \<and> rID r' \<noteq> [] \<and>
    rActionName r' \<noteq> [] \<and> rAction r' = decisionFromName (rActionName r') \<and>
    (rActionName r \<noteq> [] \<longrightarrow> rActionName r' = rActionName r)"
proof -
  obtain n where n: "if rID r = [] then genRuleID (int i) r = Some n else n = rID r"
    and r': "r' = (if rActionName r = [] then r\<lparr>rID := n, rActionName := decisionName (rAction r)\<rparr>
              else r\<lparr>rID := n, rAction := decisionFromName (rActionName r)\<rparr>)"
    using assms unfolding setRule_Some by blast
  have "n \<noteq> []" using n genRuleID_nonempty by (auto split: if_splits)
  moreover have "decisionName (rAction r) \<noteq> []" by (cases "rAction r") simp_all
  ultimately show ?thesis unfolding r' by simp
qed

lemma setRule_names: "setRule i r = Some r' \<Longrightarrow> rActionName r = [] \<Longrightarrow> rActionName r' = decisionName (rAction r)"
  unfolding setRule_Some by (elim exE conjE) simp

lemma setRules_accepts:
  assumes "length rs \<le> 10 ^ 16"
  shows "\<exists>e'. setRules rs e = Some e'"
proof -
  have "\<exists>r'. setRule i (rs ! i) = Some r'" if "i < length rs" for i
  proof -
    have "i < 10 ^ 16" using that assms by linarith
    then have "genRuleID (int i) (rs ! i) \<noteq> None" by (simp add: genRuleID_def itoa_eq)
    then show ?thesis by (auto simp: setRule_def)
  qed
  then obtain g where g: "\<And>i. i < length rs \<Longrightarrow> setRule i (rs ! i) = Some (g i)" by metis
  have "setRules rs e = Some (e\<lparr>rules := map g [0..<length rs]\<rparr>)" using g by (simp add: setRules_nth)
  then show ?thesis by blast
qed

text \<open>
  C37. \<open>SetRules\<close> normalises: a list shorter than ten to the sixteenth is accepted (no panic);
  every rule keeps its expression, flag and note and gets a non-empty identifier and action
  name, its action being the one its name denotes; and feeding the stored rules back, as the
  dashboard does, changes nothing.
\<close>

theorem setRules_normalises:
  assumes "length rs \<le> 10 ^ 16"
  shows "\<exists>e'. setRules rs e = Some e' \<and> engBlockDirect e' = engBlockDirect e \<and>
    map rMatch (rules e') = map rMatch rs \<and> map rEnabled (rules e') = map rEnabled rs \<and>
    map rNote (rules e') = map rNote rs \<and>
    (\<forall>r \<in> set (rules e'). rID r \<noteq> [] \<and> rActionName r \<noteq> [] \<and>
       rAction r = decisionFromName (rActionName r)) \<and>
    setRules (rules e') e' = Some e'"
proof -
  obtain e' where e': "setRules rs e = Some e'" using setRules_accepts [OF assms] by blast
  define g where "g i = rules e' ! i" for i
  have g: "setRule i (rs ! i) = Some (g i)" if "i < length rs" for i
    using e' that by (simp add: setRules_nth g_def)
  have e'_def: "e' = e\<lparr>rules := map g [0..<length rs]\<rparr>"
    using e' by (cases e; cases e') (auto simp: setRules_nth g_def intro!: nth_equalityI)
  have nth: "rules e' ! i = g i" if "i < length rs" for i using that by (simp add: e'_def)
  have frame: "rMatch (g i) = rMatch (rs ! i) \<and> rEnabled (g i) = rEnabled (rs ! i) \<and> rNote (g i) = rNote (rs ! i)
      \<and> rID (g i) \<noteq> [] \<and> rActionName (g i) \<noteq> [] \<and> rAction (g i) = decisionFromName (rActionName (g i))"
    if "i < length rs" for i
    using setRule_frame [OF g [OF that]] by blast
  have fix_rule: "setRule i r = Some r"
    if "rID r \<noteq> []" "rActionName r \<noteq> []" "rAction r = decisionFromName (rActionName r)" for i r
    using that by (cases r) (simp add: setRule_def)
  have "setRules (rules e') e' = Some e'"
    unfolding setRules_nth using frame nth by (auto simp: e'_def intro!: fix_rule)
  moreover have "map rMatch (rules e') = map rMatch rs" "map rEnabled (rules e') = map rEnabled rs"
      "map rNote (rules e') = map rNote rs"
    using frame by (auto simp: e'_def intro!: nth_equalityI)
  moreover have "\<forall>r \<in> set (rules e'). rID r \<noteq> [] \<and> rActionName r \<noteq> [] \<and>
      rAction r = decisionFromName (rActionName r)"
    using frame by (auto simp: e'_def)
  ultimately show ?thesis using e' by (auto simp: e'_def)
qed

lemma natDigits_no_hash: "CHR ''#'' \<notin> set (natDigits n)"
  using natDigits_isdigit [of "CHR ''#''" n] by auto

lemma hash_suffix_inj: "a @ ''#'' @ natDigits i = b @ ''#'' @ natDigits j \<Longrightarrow> i = j"
proof -
  assume "a @ ''#'' @ natDigits i = b @ ''#'' @ natDigits j"
  then have "rev (natDigits i) @ CHR ''#'' # rev a = rev (natDigits j) @ CHR ''#'' # rev b"
    by (metis append_Cons append_Nil append_assoc rev.simps(2) rev_append)
  moreover have "CHR ''#'' \<notin> set (rev (natDigits i))" "CHR ''#'' \<notin> set (rev (natDigits j))"
    using natDigits_no_hash by simp_all
  ultimately have "rev (natDigits i) = rev (natDigits j)"
    using cutByte_append by (metis option.inject prod.inject)
  then show "i = j" by simp
qed

text \<open>
  Identifiers the engine makes up in one \<open>SetRules\<close> call never collide, whatever the
  rules contain: the index after the last \<open>#\<close> tells them apart.
\<close>

theorem generated_ids_distinct:
  assumes "setRules rs e = Some e'" "i < length rs" "j < length rs" "i \<noteq> j"
    and "rID (rs ! i) = []" "rID (rs ! j) = []" "length rs \<le> 10 ^ 16"
  shows "rID (rules e' ! i) \<noteq> rID (rules e' ! j)"
proof
  assume eq: "rID (rules e' ! i) = rID (rules e' ! j)"
  have id: "\<exists>a. rID (rules e' ! k) = a @ ''#'' @ natDigits k" if "k < length rs" "rID (rs ! k) = []" for k
  proof -
    have "setRule k (rs ! k) = Some (rules e' ! k)" using assms(1) that by (simp add: setRules_nth)
    moreover have "k < 10 ^ 16" using that assms(7) by linarith
    ultimately show ?thesis
      using that by (auto simp: setRule_Some genRuleID_def itoa_eq strconvItoa_def)
  qed
  obtain a b where "rID (rules e' ! i) = a @ ''#'' @ natDigits i" "rID (rules e' ! j) = b @ ''#'' @ natDigits j"
    using id assms by blast
  with eq assms(4) hash_suffix_inj show False by metis
qed

lemma joinWith_sep:
  "xs \<noteq> [] \<Longrightarrow> ys \<noteq> [] \<Longrightarrow> joinWith sep (xs @ ys) = joinWith sep xs @ sep @ joinWith sep ys"
proof (induction sep xs rule: joinWith.induct)
  case (2 sep x)
  then show ?case by (cases ys) auto
qed auto

lemma suffixMatch_labels:
  "suffixMatch host suf \<longleftrightarrow> suffix (splitOn (CHR ''.'') suf) (splitOn (CHR ''.'') host)"
proof
  assume "suffixMatch host suf"
  then show "suffix (splitOn (CHR ''.'') suf) (splitOn (CHR ''.'') host)"
    by (auto simp: suffixMatch_def hasSuffix_append splitOn_sep suffix_def)
next
  assume "suffix (splitOn (CHR ''.'') suf) (splitOn (CHR ''.'') host)"
  then obtain ps where ps: "splitOn (CHR ''.'') host = ps @ splitOn (CHR ''.'') suf"
    by (auto simp: suffix_def)
  have "host = joinWith ''.'' (ps @ splitOn (CHR ''.'') suf)"
    by (metis joinWith_splitOn ps)
  then have "host = suf \<or> (\<exists>r. host = r @ ''.'' @ suf)"
    by (cases "ps = []") (auto simp: joinWith_sep joinWith_splitOn)
  then show "suffixMatch host suf" by (auto simp: suffixMatch_def hasSuffix_append)
qed

text \<open>
  A \<open>domain_suffix\<close> rule matches at label boundaries: exactly when the labels of the
  value are the last labels of the host, letter case aside (so \<open>badexample.com\<close> is not
  caught by \<open>example.com\<close>).
\<close>

theorem domain_suffix_labels:
  "fst (matchExpr fs \<lparr>mType = ''domain_suffix'', mValue = v\<rparr> host port hint cache) =
   suffix (splitOn (CHR ''.'') (toLower v)) (splitOn (CHR ''.'') (toLower host))"
  by (simp add: matchExpr_def suffixMatch_labels)

lemma strconvItoa_no_dash: "0 \<le> i \<Longrightarrow> CHR ''-'' \<notin> set (strconvItoa i)"
  using natDigits_isdigit [of "CHR ''-''" "nat i"] by (auto simp: strconvItoa_def)

lemma indexStr_byte: "indexStr s [c] = indexByte s c"
  by (induction s) (auto simp: hasPrefix_def)

text \<open>
  A \<open>port\<close> rule with the text \<open>lo-hi\<close> matches the ports from \<open>lo\<close> to \<open>hi\<close>, both
  included, and one with a single number that port only.
\<close>

theorem port_rule_range:
  assumes "in_int64 lo" "in_int64 hi" "0 \<le> lo" "0 \<le> hi"
  shows "fst (matchExpr fs \<lparr>mType = ''port'', mValue = strconvItoa lo @ ''-'' @ strconvItoa hi\<rparr>
           host port hint cache) = (lo \<le> port \<and> port \<le> hi) \<and>
         fst (matchExpr fs \<lparr>mType = ''port'', mValue = strconvItoa lo\<rparr> host port hint cache) = (port = lo)"
proof -
  have "indexStr (strconvItoa lo @ ''-'' @ strconvItoa hi) ''-'' = Some (length (strconvItoa lo))"
    using strconvItoa_no_dash [OF assms(3)] by (simp add: indexStr_byte)
  moreover have "indexStr (strconvItoa lo) ''-'' = None"
    using strconvItoa_no_dash [OF assms(3)] by (simp only: indexStr_byte indexByte_None not_False_eq_True)
  ultimately show ?thesis using assms by (simp add: matchExpr_def matchPort_def)
qed

text \<open>A disk without files, for the examples.\<close>

definition no_files :: file_sys where
  "no_files = \<lparr>statFile = \<lambda>_. None, openFile = \<lambda>_. None\<rparr>"

theorem port_rule_range_witness:
  "fst (matchExpr no_files \<lparr>mType = ''port'', mValue = strconvItoa 1000 @ ''-'' @ strconvItoa 2000\<rparr>
     ''h'' 1500 ''tcp'' Map.empty)"
  using port_rule_range [of 1000 2000 no_files "''h''" 1500 "''tcp''" Map.empty]
  by (simp add: in_int64_def int64_min_def int64_max_def)

text \<open>
  An \<open>ip_cidr\<close> rule over IPv4 compares address bits: the rule \<open>net/n\<close> matches an IPv4
  host exactly when the first \<open>n\<close> bits of the two addresses agree; a host name that is not
  an address literal never matches.
\<close>

theorem cidr_rule_bits:
  assumes "parseAddr net = Some a" "length a = 4" "CHR ''/'' \<notin> set net" "n \<le> 32"
    and "\<And>h. parseIP host = Some h \<Longrightarrow> to4 h = Some b"
  shows "fst (matchExpr fs \<lparr>mType = ''ip_cidr'', mValue = net @ ''/'' @ strconvItoa (int n)\<rparr>
           host port hint cache) =
         (parseIP host \<noteq> None \<and> take n (ipBits b) = take n (ipBits a))"
proof (cases "parseIP host")
  case None
  then show ?thesis by (simp add: matchExpr_def)
next
  case (Some h)
  from netContains_v4 [OF assms(1-4) Some assms(5) [OF Some]] obtain block
    where "parseCIDR (net @ ''/'' @ strconvItoa (int n)) = Some block"
      "netContains block h \<longleftrightarrow> take n (ipBits b) = take n (ipBits a)"
    by blast
  with Some show ?thesis by (simp add: matchExpr_def)
qed

section \<open>Concrete requests\<close>

definition port_rule :: "string \<Rightarrow> decision \<Rightarrow> rule" where
  "port_rule p d = \<lparr>rID = [], rMatch = \<lparr>mType = ''port'', mValue = p\<rparr>, rAction = d, rEnabled = True,
     rNote = [], rActionName = []\<rparr>"

lemmas match_run_defs = port_rule_def matchExpr_def matchPort_def go_defs strconvAtoi_def digitVal_def
  in_int64_def int64_min_def int64_max_def

theorem evaluate_first_match_witness:
  "\<exists>r. r = port_rule ''443'' DecisionDirect \<and> ruleApplies no_files r (''h'', 443, ''tcp'') \<and>
     fst (evaluate no_files Map.empty \<lparr>rules = [port_rule ''80'' DecisionBlock, r], engBlockDirect = False\<rparr>
       (''h'', 443, ''tcp'')) = DecisionDirect"
proof -
  let ?e = "\<lparr>rules = [port_rule ''80'' DecisionBlock, port_rule ''443'' DecisionDirect],
      engBlockDirect = False\<rparr>" and ?q = "(''h'', 443, ''tcp'')"
  have no: "\<not> ruleApplies no_files (port_rule ''80'' DecisionBlock) ?q"
    and yes: "ruleApplies no_files (port_rule ''443'' DecisionDirect) ?q"
    by (simp_all add: ruleApplies_def exprMatches_def match_run_defs)
  obtain v c where run: "evaluate no_files Map.empty ?e ?q = (v, c)" by fastforce
  from evaluate_first_match [OF cache_ok_empty run] obtain pre r post
    where "rules ?e = pre @ r # post" "ruleApplies no_files r ?q" "v = rAction r"
    using yes by auto
  then have "r \<in> set (rules ?e)" by (metis in_set_conv_decomp)
  with no \<open>ruleApplies no_files r ?q\<close> \<open>v = rAction r\<close> have "v = DecisionDirect"
    by (auto simp: port_rule_def)
  with run yes show ?thesis by simp
qed

theorem setRules_normalises_witness:
  "\<exists>e'. newEngine [port_rule ''80'' DecisionBlock] = Some e' \<and>
     map rActionName (rules e') = [''block''] \<and> setRules (rules e') e' = Some e'"
proof -
  have port_rule_sel: "rActionName (port_rule ''80'' DecisionBlock) = []"
      "decisionName (rAction (port_rule ''80'' DecisionBlock)) = ''block''"
    by (simp_all add: port_rule_def)
  have "length [port_rule ''80'' DecisionBlock] \<le> 10 ^ 16" by simp
  from setRules_normalises [OF this, of "\<lparr>rules = [], engBlockDirect = False\<rparr>"]
  obtain e' where e': "newEngine [port_rule ''80'' DecisionBlock] = Some e'" "setRules (rules e') e' = Some e'"
    unfolding newEngine_def by blast
  from e'(1) have nth: "length (rules e') = length [port_rule ''80'' DecisionBlock]"
      "\<And>i. i < length [port_rule ''80'' DecisionBlock] \<Longrightarrow>
        setRule i ([port_rule ''80'' DecisionBlock] ! i) = Some (rules e' ! i)"
    unfolding newEngine_def setRules_nth by blast+
  have "setRule 0 (port_rule ''80'' DecisionBlock) = Some (rules e' ! 0)"
    using nth(2) [of 0] by (simp only: nth_Cons_0 length_greater_0_conv list.distinct simp_thms)
  from setRule_names [OF this port_rule_sel(1)] have "rActionName (rules e' ! 0) = ''block''"
    by (simp only: port_rule_sel)
  with nth(1) have "map rActionName (rules e') = [''block'']"
    by (cases "rules e'") simp_all
  then show ?thesis using e' by (intro exI conjI)
qed

theorem generated_ids_distinct_witness:
  "\<exists>e'. newEngine [port_rule ''80'' DecisionBlock, port_rule ''80'' DecisionBlock] = Some e' \<and>
     rID (rules e' ! 0) \<noteq> rID (rules e' ! 1)"
proof -
  let ?rs = "[port_rule ''80'' DecisionBlock, port_rule ''80'' DecisionBlock]"
  have "\<exists>e'. newEngine ?rs = Some e'"
    unfolding newEngine_def by (rule setRules_accepts) simp
  then obtain e' where e': "newEngine ?rs = Some e'" by blast
  then have "setRules ?rs \<lparr>rules = [], engBlockDirect = False\<rparr> = Some e'" by (simp add: newEngine_def)
  from generated_ids_distinct [OF this, of 0 1] e' show ?thesis by (simp add: port_rule_def)
qed

theorem cidr_rule_bits_witness:
  "fst (matchExpr no_files \<lparr>mType = ''ip_cidr'', mValue = ''10.1.0.0'' @ ''/'' @ strconvItoa (int 15)\<rparr>
     ''10.0.3.4'' 443 ''tcp'' Map.empty)"
proof -
  have p: "parseAddr ''10.1.0.0'' = Some [10, 1, 0, 0]" "parseAddr ''10.0.3.4'' = Some [10, 0, 3, 4]"
    by code_simp+
  have h: "parseIP ''10.0.3.4'' = Some (as16 [10, 0, 3, 4])" by (simp add: parseIP_def p)
  have "take 15 (ipBits [10, 0, 3, 4]) = take 15 (ipBits [10, 1, 0, 0])" by code_simp
  then show ?thesis
    using cidr_rule_bits [OF p(1), of 15 "''10.0.3.4''" "[10, 0, 3, 4]" no_files 443 "''tcp''" Map.empty] h
    by (simp add: as16_def to4_def)
qed

end
