(* ===== verification/Templates.thy ===== *)
theory Templates
  imports Plugins
begin

text \<open>
  The catalogue of rule templates (\<open>plugins/templates.go\<close>), entry by entry. A rule literal
  in Go leaves \<open>ID\<close>, \<open>Action\<close> and \<open>Enabled\<close> at their zero values.
\<close>

record template =
  tKey :: string
  tTitle :: string
  tHelp :: string
  tRules :: "rule list"

definition tmplRule :: "string \<Rightarrow> string \<Rightarrow> string \<Rightarrow> string \<Rightarrow> rule" where
  "tmplRule t v act note =
     \<lparr>rID = [], rMatch = \<lparr>mType = t, mValue = v\<rparr>, rAction = DecisionProxy, rEnabled = False,
      rNote = note, rActionName = act\<rparr>"

text \<open>The em dash in the help texts, in UTF-8.\<close>

definition emDash :: string where
  "emDash = [CHR 0xE2, CHR 0x80, CHR 0x94]"

definition t_lan_direct :: template where
  "t_lan_direct = \<lparr>tKey = ''lan-direct'', tTitle = ''Direct dial for LAN ranges'',
     tHelp =
       ''Skips the proxy for RFC1918 / link-local destinations (matched as IP literals '' @
       emDash @
       '' the normal way LAN devices are addressed). Practically required so internal '' @
       ''services (gateway UIs, NAS, printers) stay reachable when SOCKS5 is set '' @
       ''system-wide.'',
     tRules =
      [tmplRule ''ip_cidr'' ''10.0.0.0/8'' ''direct'' ''RFC1918 (private)'',
       tmplRule ''ip_cidr'' ''172.16.0.0/12'' ''direct'' ''RFC1918 (private)'',
       tmplRule ''ip_cidr'' ''192.168.0.0/16'' ''direct'' ''RFC1918 (private)'',
       tmplRule ''ip_cidr'' ''127.0.0.0/8'' ''direct'' ''loopback'',
       tmplRule ''ip_cidr'' ''169.254.0.0/16'' ''direct'' ''link-local'']\<rparr>"

definition t_block_known_trackers :: template where
  "t_block_known_trackers = \<lparr>tKey = ''block-known-trackers'', tTitle = ''Block well-known BitTorrent trackers'',
     tHelp =
       ''Hard-blocks a curated list of trackers. Complements the heuristic '' @
       ''TorrentBlocker (which catches port + keyword patterns).'',
     tRules =
      [tmplRule ''domain_suffix'' ''tracker.thepiratebay.org'' ''block'' ''TPB tracker'',
       tmplRule ''domain_suffix'' ''tracker.openbittorrent.com'' ''block'' ''OpenBitTorrent'',
       tmplRule ''domain_suffix'' ''tracker.opentrackr.org'' ''block'' ''OpenTrackr'',
       tmplRule ''domain_suffix'' ''exodus.desync.com'' ''block'' ''Exodus tracker'']\<rparr>"

definition t_block_ad_networks :: template where
  "t_block_ad_networks = \<lparr>tKey = ''block-ad-networks'', tTitle = ''Block common ad / tracking domains'',
     tHelp =
       ''A short, conservative starter list (Google Ads + DoubleClick + adservice). '' @
       ''For exhaustive coverage point a real DNS sinkhole (Pi-hole, AdGuard) at '' @
       ''moav-client's DNS plugin.'',
     tRules =
      [tmplRule ''domain_suffix'' ''doubleclick.net'' ''block'' ''Google DoubleClick'',
       tmplRule ''domain_suffix'' ''googleadservices.com'' ''block'' [],
       tmplRule ''domain_suffix'' ''googlesyndication.com'' ''block'' [],
       tmplRule ''domain_suffix'' ''adservice.google.com'' ''block'' [],
       tmplRule ''domain_suffix'' ''scorecardresearch.com'' ''block'' []]\<rparr>"

definition t_block_telemetry :: template where
  "t_block_telemetry = \<lparr>tKey = ''block-telemetry'', tTitle = ''Block opt-out telemetry endpoints'',
     tHelp =
       ''Targets pings most OSes / IDEs make even after settings are toggled off. '' @
       ''Conservative '' @
       emDash @
       '' only widely-recognised endpoints.'',
     tRules =
      [tmplRule ''domain_suffix'' ''telemetry.microsoft.com'' ''block'' [],
       tmplRule ''domain_suffix'' ''vortex.data.microsoft.com'' ''block'' [],
       tmplRule ''domain_suffix'' ''watson.telemetry.microsoft.com'' ''block'' [],
       tmplRule ''domain_suffix'' ''incoming.telemetry.mozilla.org'' ''block'' [],
       tmplRule ''domain_suffix'' ''telemetry.jetbrains.com'' ''block'' []]\<rparr>"

definition t_force_tls_only :: template where
  "t_force_tls_only = \<lparr>tKey = ''force-tls-only'', tTitle = ''Block plain HTTP (port 80)'',
     tHelp =
       ''Drops any DecisionProxy attempt to TCP port 80. Encourages HTTPS for '' @
       ''everything else (note: this also blocks plain HTTP healthchecks).'',
     tRules =
      [tmplRule ''port'' ''80'' ''block'' ''no plaintext HTTP'']\<rparr>"

definition t_direct_anthropic :: template where
  "t_direct_anthropic = \<lparr>tKey = ''direct-anthropic'', tTitle = ''Direct dial Anthropic / Claude domains'',
     tHelp =
       ''Sample: prefer direct path for Anthropic APIs. Useful when you want LLM calls '' @
       ''outside the proxy budget.'',
     tRules =
      [tmplRule ''domain_suffix'' ''anthropic.com'' ''direct'' [],
       tmplRule ''domain_suffix'' ''claude.ai'' ''direct'' []]\<rparr>"

definition t_block_system_updates :: template where
  "t_block_system_updates = \<lparr>tKey = ''block-system-updates'', tTitle = ''Block OS / system updates'',
     tHelp =
       ''Drops macOS / iOS (Apple) and Windows software-update domains to save VPN '' @
       ''bandwidth. NOTE: while on, the OS can't fetch updates through this proxy at '' @
       ''all '' @
       emDash @
       '' flip the rules to `direct` instead if you want updates to work but bypass '' @
       ''the VPN.'',
     tRules =
      [tmplRule ''domain_suffix'' ''swcdn.apple.com'' ''block'' ''Apple update CDN'',
       tmplRule ''domain_suffix'' ''swscan.apple.com'' ''block'' ''Apple update scan'',
       tmplRule ''domain_suffix'' ''swdist.apple.com'' ''block'' [],
       tmplRule ''domain_suffix'' ''swdownload.apple.com'' ''block'' [],
       tmplRule ''domain_suffix'' ''mesu.apple.com'' ''block'' ''Apple update metadata'',
       tmplRule ''domain_suffix'' ''gdmf.apple.com'' ''block'' [],
       tmplRule ''domain_suffix'' ''updates.cdn-apple.com'' ''block'' [],
       tmplRule ''domain_suffix'' ''updates-http.cdn-apple.com'' ''block'' [],
       tmplRule ''domain_suffix'' ''windowsupdate.com'' ''block'' ''Windows Update'',
       tmplRule ''domain_suffix'' ''update.microsoft.com'' ''block'' [],
       tmplRule ''domain_suffix'' ''delivery.mp.microsoft.com'' ''block'' ''Windows Update delivery'']\<rparr>"

definition t_direct_zoom :: template where
  "t_direct_zoom = \<lparr>tKey = ''direct-zoom'', tTitle = ''Keep Zoom off the VPN (direct)'',
     tHelp =
       ''Routes Zoom (meetings + the Zoom updater) directly, bypassing the proxy '' @
       emDash @
       '' better call quality and the exit's location won't affect Zoom. Covers '' @
       ''signaling/media over zoom.us; Zoom also uses UDP 3478-3481 / 8801-8810 which '' @
       ''a SOCKS5 proxy doesn't carry anyway.'',
     tRules =
      [tmplRule ''domain_suffix'' ''zoom.us'' ''direct'' ''Zoom (incl. cdn.zoom.us updater)'',
       tmplRule ''domain_suffix'' ''zoom.com'' ''direct'' [],
       tmplRule ''domain_suffix'' ''zoomgov.com'' ''direct'' []]\<rparr>"

definition t_direct_icloud :: template where
  "t_direct_icloud = \<lparr>tKey = ''direct-icloud'', tTitle = ''Keep iCloud off the VPN (direct)'',
     tHelp =
       ''Routes iCloud sync / CloudKit / iCloud Drive directly. High-bandwidth, '' @
       ''sensitive personal sync with no reason to tunnel it through the exit.'',
     tRules =
      [tmplRule ''domain_suffix'' ''icloud.com'' ''direct'' ''iCloud'',
       tmplRule ''domain_suffix'' ''icloud-content.com'' ''direct'' [],
       tmplRule ''domain_suffix'' ''apple-cloudkit.com'' ''direct'' ''CloudKit'',
       tmplRule ''domain_suffix'' ''me.com'' ''direct'' []]\<rparr>"

definition t_direct_cloud_sync :: template where
  "t_direct_cloud_sync = \<lparr>tKey = ''direct-cloud-sync'', tTitle = ''Keep cloud sync off the VPN (direct)'',
     tHelp =
       ''Routes Dropbox / Google Drive / OneDrive directly '' @
       emDash @
       '' heavy background sync you usually don't want eating VPN bandwidth.'',
     tRules =
      [tmplRule ''domain_suffix'' ''dropbox.com'' ''direct'' [],
       tmplRule ''domain_suffix'' ''dropboxapi.com'' ''direct'' [],
       tmplRule ''domain_suffix'' ''dropboxusercontent.com'' ''direct'' [],
       tmplRule ''domain_suffix'' ''drive.google.com'' ''direct'' ''Google Drive (shared googleapis.com not included)'',
       tmplRule ''domain_suffix'' ''onedrive.com'' ''direct'' [],
       tmplRule ''domain_suffix'' ''onedrive.live.com'' ''direct'' [],
       tmplRule ''domain_suffix'' ''1drv.com'' ''direct'' [],
       tmplRule ''domain_suffix'' ''storage.live.com'' ''direct'' []]\<rparr>"

definition t_direct_streaming :: template where
  "t_direct_streaming = \<lparr>tKey = ''direct-streaming'', tTitle = ''Keep streaming off the VPN (direct)'',
     tHelp =
       ''Routes Netflix / YouTube / Spotify directly '' @
       emDash @
       '' heavy bandwidth. NOTE: this also forgoes any geo-unblocking for these '' @
       ''services (they'll use your real location).'',
     tRules =
      [tmplRule ''domain_suffix'' ''netflix.com'' ''direct'' [],
       tmplRule ''domain_suffix'' ''nflxvideo.net'' ''direct'' ''Netflix CDN'',
       tmplRule ''domain_suffix'' ''googlevideo.com'' ''direct'' ''YouTube video CDN'',
       tmplRule ''domain_suffix'' ''youtube.com'' ''direct'' [],
       tmplRule ''domain_suffix'' ''spotify.com'' ''direct'' [],
       tmplRule ''domain_suffix'' ''scdn.co'' ''direct'' ''Spotify CDN'']\<rparr>"

definition t_direct_game_downloads :: template where
  "t_direct_game_downloads = \<lparr>tKey = ''direct-game-downloads'', tTitle = ''Keep game downloads off the VPN (direct)'',
     tHelp =
       ''Routes Steam / Epic / Blizzard content + downloads directly so multi-GB '' @
       ''updates don't run through the exit.'',
     tRules =
      [tmplRule ''domain_suffix'' ''steamcontent.com'' ''direct'' ''Steam content'',
       tmplRule ''domain_suffix'' ''steamstatic.com'' ''direct'' [],
       tmplRule ''domain_suffix'' ''steampowered.com'' ''direct'' [],
       tmplRule ''domain_suffix'' ''epicgames.com'' ''direct'' [],
       tmplRule ''domain_suffix'' ''blizzard.com'' ''direct'' [],
       tmplRule ''domain_suffix'' ''battle.net'' ''direct'' []]\<rparr>"

definition templates :: "template list" where
  "templates =
    [t_lan_direct, t_block_known_trackers, t_block_ad_networks, t_block_telemetry, t_force_tls_only, t_direct_anthropic,
     t_block_system_updates, t_direct_zoom, t_direct_icloud,
     t_direct_cloud_sync, t_direct_streaming, t_direct_game_downloads]"

lemmas template_defs = templates_def t_lan_direct_def t_block_known_trackers_def t_block_ad_networks_def t_block_telemetry_def t_force_tls_only_def t_direct_anthropic_def t_block_system_updates_def t_direct_zoom_def t_direct_icloud_def t_direct_cloud_sync_def t_direct_streaming_def t_direct_game_downloads_def

section \<open>Templates are inert until switched on\<close>

lemma template_rules_off: "t \<in> set templates \<Longrightarrow> r \<in> set (tRules t) \<Longrightarrow> \<not> rEnabled r"
  by (auto simp: template_defs tmplRule_def)

lemma template_rules_ok:
  "list_all (\<lambda>t. list_all (\<lambda>r. rActionName r = ''direct'' \<or> rActionName r = ''block'') (tRules t)) templates"
  by (simp add: template_defs tmplRule_def)

lemma lan_masks:
  "cidrMask 8 4 = [255, 0, 0, 0]" "cidrMask 12 4 = [255, 240, 0, 0]" "cidrMask 16 4 = [255, 255, 0, 0]"
  by code_simp+

lemma parseCIDR_v4:
  assumes "cutByte s (CHR ''/'') = Some (addr, ds)" "parseAddr addr = Some a" "length a = 4"
    and "ds \<noteq> []" "digitsVal 0 ds = Some n" "n \<le> 32"
  shows "parseCIDR s = Some \<lparr>netIP = maskIP a (cidrMask n 4), netMask = cidrMask n 4\<rparr>"
  using assms by (simp add: parseCIDR_def Let_def)

lemma lan_addrs:
  "parseAddr ''10.0.0.0'' = Some [10, 0, 0, 0]" "parseAddr ''172.16.0.0'' = Some [172, 16, 0, 0]"
  "parseAddr ''192.168.0.0'' = Some [192, 168, 0, 0]" "parseAddr ''127.0.0.0'' = Some [127, 0, 0, 0]"
  "parseAddr ''169.254.0.0'' = Some [169, 254, 0, 0]"
  by code_simp+

lemma lan_blocks:
  "parseCIDR ''10.0.0.0/8'' = Some \<lparr>netIP = [10, 0, 0, 0], netMask = [255, 0, 0, 0]\<rparr>"
  "parseCIDR ''172.16.0.0/12'' = Some \<lparr>netIP = [172, 16, 0, 0], netMask = [255, 240, 0, 0]\<rparr>"
  "parseCIDR ''192.168.0.0/16'' = Some \<lparr>netIP = [192, 168, 0, 0], netMask = [255, 255, 0, 0]\<rparr>"
  "parseCIDR ''127.0.0.0/8'' = Some \<lparr>netIP = [127, 0, 0, 0], netMask = [255, 0, 0, 0]\<rparr>"
  "parseCIDR ''169.254.0.0/16'' = Some \<lparr>netIP = [169, 254, 0, 0], netMask = [255, 255, 0, 0]\<rparr>"
proof -
  have c: "cutByte ''10.0.0.0/8'' (CHR ''/'') = Some (''10.0.0.0'', ''8'')"
    "cutByte ''172.16.0.0/12'' (CHR ''/'') = Some (''172.16.0.0'', ''12'')"
    "cutByte ''192.168.0.0/16'' (CHR ''/'') = Some (''192.168.0.0'', ''16'')"
    "cutByte ''127.0.0.0/8'' (CHR ''/'') = Some (''127.0.0.0'', ''8'')"
    "cutByte ''169.254.0.0/16'' (CHR ''/'') = Some (''169.254.0.0'', ''16'')"
    by (simp_all add: cutByte_def)
  have d: "digitsVal 0 ''8'' = Some 8" "digitsVal 0 ''12'' = Some 12" "digitsVal 0 ''16'' = Some 16"
    by (simp_all add: digitVal_def)
  show "parseCIDR ''10.0.0.0/8'' = Some \<lparr>netIP = [10, 0, 0, 0], netMask = [255, 0, 0, 0]\<rparr>"
    using parseCIDR_v4 [OF c(1) lan_addrs(1) _ _ d(1)] by (simp add: lan_masks maskIP_def)
  show "parseCIDR ''172.16.0.0/12'' = Some \<lparr>netIP = [172, 16, 0, 0], netMask = [255, 240, 0, 0]\<rparr>"
    using parseCIDR_v4 [OF c(2) lan_addrs(2) _ _ d(2)] by (simp add: lan_masks maskIP_def)
  show "parseCIDR ''192.168.0.0/16'' = Some \<lparr>netIP = [192, 168, 0, 0], netMask = [255, 255, 0, 0]\<rparr>"
    using parseCIDR_v4 [OF c(3) lan_addrs(3) _ _ d(3)] by (simp add: lan_masks maskIP_def)
  show "parseCIDR ''127.0.0.0/8'' = Some \<lparr>netIP = [127, 0, 0, 0], netMask = [255, 0, 0, 0]\<rparr>"
    using parseCIDR_v4 [OF c(4) lan_addrs(4) _ _ d(1)] by (simp add: lan_masks maskIP_def)
  show "parseCIDR ''169.254.0.0/16'' = Some \<lparr>netIP = [169, 254, 0, 0], netMask = [255, 255, 0, 0]\<rparr>"
    using parseCIDR_v4 [OF c(5) lan_addrs(5) _ _ d(3)] by (simp add: lan_masks maskIP_def)
qed

lemma byte_and_255: "(b :: 8 word) AND 255 = b"
proof -
  have "(255 :: 8 word) = - 1" by simp
  then show ?thesis by (simp only: and.right_neutral)
qed

lemma byte_and_240: "(b :: 8 word) AND 240 = 16 \<longleftrightarrow> 16 \<le> b \<and> b \<le> 31"
proof -
  have "\<forall>b :: 8 word. b AND 240 = 16 \<longleftrightarrow> 16 \<le> b \<and> b \<le> 31" by code_simp
  then show ?thesis ..
qed

definition v4In :: "ip \<Rightarrow> bool" where
  "v4In a \<longleftrightarrow> a ! 0 = 10 \<or> a ! 0 = 172 \<and> 16 \<le> a ! 1 \<and> a ! 1 \<le> 31 \<or>
     a ! 0 = 192 \<and> a ! 1 = 168 \<or> a ! 0 = 127 \<or> a ! 0 = 169 \<and> a ! 1 = 254"

text \<open>The user takes over a template by switching its rules on.\<close>

definition enableAll :: "rule list \<Rightarrow> rule list" where
  "enableAll rs = map (\<lambda>r. r\<lparr>rEnabled := True\<rparr>) rs"

text \<open>
  Templates are inert until switched on: wherever a template's rules are inserted in the
  rule list, every verdict stays what it was; each of their actions is \<open>direct\<close> or \<open>block\<close>,
  and every address block in the catalogue parses.
\<close>

theorem templates_inert:
  assumes "t \<in> set templates" "cache_ok fs cache"
  shows "fst (evaluateRules fs cache (pre @ tRules t @ post) q) = fst (evaluateRules fs cache (pre @ post) q) \<and>
    (\<forall>r \<in> set (tRules t). rActionName r \<in> {''direct'', ''block''} \<and>
       (mType (rMatch r) = ''ip_cidr'' \<longrightarrow> parseCIDR (mValue (rMatch r)) \<noteq> None))"
proof -
  have off: "\<not> rEnabled r" if "r \<in> set (tRules t)" for r using template_rules_off [OF assms(1) that] .
  let ?rs = "pre @ tRules t @ post" and ?rs' = "pre @ post"
  have "filter rEnabled ?rs = filter rEnabled ?rs'" using off by auto
  moreover have "fst (evaluateRules fs cache (filter rEnabled rs) q) = fst (evaluateRules fs cache rs q)" for rs
    by (rule engine_fm.verdict_irrelevant [OF assms(2)]) (simp add: ruleApplies_def)
  ultimately have "fst (evaluateRules fs cache ?rs q) = fst (evaluateRules fs cache ?rs' q)" by metis
  moreover have "\<forall>r \<in> set (tRules t). rActionName r \<in> {''direct'', ''block''}"
    using template_rules_ok assms(1) by (auto simp: list_all_iff)
  moreover have "\<forall>r \<in> set (tRules t). mType (rMatch r) = ''ip_cidr'' \<longrightarrow> parseCIDR (mValue (rMatch r)) \<noteq> None"
    using assms(1) by (auto simp: template_defs tmplRule_def lan_blocks)
  ultimately show ?thesis by blast
qed

theorem templates_inert_witness:
  "fst (evaluateRules no_files Map.empty ([] @ tRules t_force_tls_only @ []) (''example.com'', 80, ''tcp'')) = DecisionProxy \<and>
   fst (evaluateRules no_files Map.empty (enableAll (rules (the (newEngine (tRules t_force_tls_only)))))
     (''example.com'', 80, ''tcp'')) = DecisionBlock"
  using templates_inert [of t_force_tls_only no_files Map.empty "[]" "[]" "(''example.com'', 80, ''tcp'')"]
  by (simp add: templates_def newEngine_def setRules_def enumerate_eq_zip setRule_def genRuleID_def itoa_def
      t_force_tls_only_def tmplRule_def enableAll_def matchExpr_def matchPort_def go_defs strconvAtoi_def
      digitVal_def in_int64_def int64_min_def int64_max_def decisionFromName_def)

lemma netContains_v4_net:
  assumes "parseIP host = Some h" "to4 h = Some b" "length nn = 4" "length mk = 4" "maskIP nn mk = nn"
  shows "netContains \<lparr>netIP = nn, netMask = mk\<rparr> h \<longleftrightarrow> maskIP b mk = nn"
proof -
  have "length b = 4" using assms(2) by (auto simp: to4_def split: if_splits)
  then show ?thesis
    using assms by (auto simp: netContains_def networkNumberAndMask_def to4_def [of nn])
qed

text \<open>
  The \<open>lan-direct\<close> template, switched on, sends exactly the private, loopback and
  link-local IPv4 literals direct, and leaves every other request to the proxy.
\<close>

theorem lan_template_covers:
  assumes "newEngine (enableAll (tRules t_lan_direct)) = Some e" "cache_ok fs cache"
    and "\<And>h. parseIP host = Some h \<Longrightarrow> to4 h = Some a"
  shows "fst (evaluate fs cache e (host, port, hint)) =
    (if parseIP host \<noteq> None \<and> v4In a then DecisionDirect else DecisionProxy)"
proof -
  let ?vs = "[''10.0.0.0/8'', ''172.16.0.0/12'', ''192.168.0.0/16'', ''127.0.0.0/8'', ''169.254.0.0/16'']"
  let ?rs = "enableAll (tRules t_lan_direct)" and ?q = "(host, port, hint)"
  have rs: "list_all (\<lambda>r. rEnabled r \<and> rActionName r = ''direct'') ?rs"
      "map rMatch ?rs = map (\<lambda>v. \<lparr>mType = ''ip_cidr'', mValue = v\<rparr>) ?vs"
    by (simp_all add: enableAll_def t_lan_direct_def tmplRule_def)
  have nth: "length (rules e) = length ?rs"
      "\<And>i. i < length ?rs \<Longrightarrow> setRule i (?rs ! i) = Some (rules e ! i)"
    using assms(1) by (simp_all add: newEngine_def setRules_nth)
  have "list_all (\<lambda>r. rEnabled r \<and> rAction r = DecisionDirect) (rules e)"
    unfolding list_all_length
  proof (intro allI impI)
    fix i assume "i < length (rules e)"
    then have "i < length ?rs" by (simp add: nth(1))
    with setRule_frame [OF nth(2) [OF this]] rs(1)
    show "rEnabled (rules e ! i) \<and> rAction (rules e ! i) = DecisionDirect"
      by (auto simp: list_all_length decisionFromName_def)
  qed
  then have all: "\<And>r. r \<in> set (rules e) \<Longrightarrow> rEnabled r \<and> rAction r = DecisionDirect"
    by (simp add: list_all_iff)
  have "map rMatch (rules e) = map rMatch ?rs"
    using nth setRule_frame by (intro nth_equalityI) auto
  then have ms: "rMatch ` set (rules e) = (\<lambda>v. \<lparr>mType = ''ip_cidr'', mValue = v\<rparr>) ` set ?vs"
    using rs(2) by (metis image_set)
  have "fst (evaluate fs cache e ?q) =
      (if \<exists>r \<in> set (rules e). exprMatches fs (rMatch r) ?q then DecisionDirect else DecisionProxy)"
    unfolding evaluate_def engine_fm.verdict [OF assms(2)]
    using all by (auto simp: ruleApplies_def find_None_iff split: option.split dest: find_SomeD)
  also have "(\<exists>r \<in> set (rules e). exprMatches fs (rMatch r) ?q) \<longleftrightarrow>
      (\<exists>v \<in> set ?vs. exprMatches fs \<lparr>mType = ''ip_cidr'', mValue = v\<rparr> ?q)"
    by (subst bex_simps(7) [of rMatch _ "\<lambda>m. exprMatches fs m ?q", symmetric], subst ms) (simp only: bex_simps(7))
  also have "\<dots> \<longleftrightarrow> parseIP host \<noteq> None \<and> v4In a"
  proof (cases "parseIP host")
    case None
    then show ?thesis by (simp add: exprMatches_def matchExpr_def)
  next
    case (Some h)
    note c = netContains_v4_net [OF Some assms(3) [OF Some]]
    have "length a = 4" using assms(3) [OF Some] by (auto simp: to4_def split: if_splits)
    then obtain b0 b1 b2 b3 where a: "a = [b0, b1, b2, b3]"
      by (auto simp: length_Suc_conv eval_nat_numeral)
    show ?thesis
      using Some
      by (simp add: exprMatches_def matchExpr_def lan_blocks c maskIP_def a v4In_def byte_and_240 byte_and_255)
  qed
  finally show ?thesis by simp
qed

theorem lan_template_covers_witness:
  "\<exists>e. newEngine (enableAll (tRules t_lan_direct)) = Some e \<and>
     fst (evaluate no_files Map.empty e (''172.20.0.9'', 443, ''tcp'')) = DecisionDirect \<and>
     fst (evaluate no_files Map.empty e (''172.32.0.9'', 443, ''tcp'')) = DecisionProxy"
proof -
  have "\<exists>e. newEngine (enableAll (tRules t_lan_direct)) = Some e"
    by (simp add: newEngine_def setRules_def enumerate_eq_zip setRule_def genRuleID_def itoa_def
        t_lan_direct_def tmplRule_def enableAll_def decisionFromName_def eval_nat_numeral)
  then obtain e where e: "newEngine (enableAll (tRules t_lan_direct)) = Some e" by blast
  have p: "parseAddr ''172.20.0.9'' = Some [172, 20, 0, 9]" "parseAddr ''172.32.0.9'' = Some [172, 32, 0, 9]"
    by code_simp+
  have "fst (evaluate no_files Map.empty e (''172.20.0.9'', 443, ''tcp'')) = DecisionDirect"
    using lan_template_covers [OF e cache_ok_empty, of "''172.20.0.9''" "[172, 20, 0, 9]" no_files 443 "''tcp''"] p
    by (simp add: parseIP_def as16_def to4_def v4In_def)
  moreover have "fst (evaluate no_files Map.empty e (''172.32.0.9'', 443, ''tcp'')) = DecisionProxy"
    using lan_template_covers [OF e cache_ok_empty, of "''172.32.0.9''" "[172, 32, 0, 9]" no_files 443 "''tcp''"] p
    by (simp add: parseIP_def as16_def to4_def v4In_def)
  ultimately show ?thesis using e by blast
qed

end
