(* ===== verification/Go_Path.thy ===== *)
theory Go_Path
  imports Go_Strings
begin

text \<open>
  The parts of Go's \<open>path/filepath\<close> the code uses, on Unix: \<open>Clean\<close>, \<open>Join\<close>, \<open>Base\<close>, \<open>Ext\<close> and
  \<open>IsAbs\<close>, and the files on disk as a map from paths to contents.
\<close>

definition isAbs :: "string \<Rightarrow> bool" where
  [go_defs]: "isAbs s = hasPrefix s ''/''"

text \<open>\<open>Clean\<close> walks the components with the stack of those it keeps, innermost first.\<close>

fun cleanGo :: "bool \<Rightarrow> string list \<Rightarrow> string list \<Rightarrow> string list" where
  "cleanGo rooted st [] = rev st"
| "cleanGo rooted st (c # cs) =
     (if c = [] \<or> c = ''.'' then cleanGo rooted st cs
      else if c = ''..'' then
        (case st of
           [] \<Rightarrow> if rooted then cleanGo rooted [] cs else cleanGo rooted [''..''] cs
         | t # ts \<Rightarrow> if t = ''..'' then cleanGo rooted (''..'' # st) cs else cleanGo rooted ts cs)
      else cleanGo rooted (c # st) cs)"

definition pathClean :: "string \<Rightarrow> string" where
  "pathClean s =
     (if isAbs s then CHR ''/'' # joinWith ''/'' (cleanGo True [] (splitOn (CHR ''/'') s))
      else (case cleanGo False [] (splitOn (CHR ''/'') s) of [] \<Rightarrow> ''.'' | cs \<Rightarrow> joinWith ''/'' cs))"

definition pathJoin :: "string list \<Rightarrow> string" where
  "pathJoin elems = (case dropWhile (\<lambda>e. e = []) elems of [] \<Rightarrow> [] | es \<Rightarrow> pathClean (joinWith ''/'' es))"

definition pathBase :: "string \<Rightarrow> string" where
  "pathBase s =
     (if s = [] then ''.''
      else (let t = trimRight s ''/''
            in if t = [] then ''/'' else last (splitOn (CHR ''/'') t)))"

definition pathExt :: "string \<Rightarrow> string" where
  "pathExt s =
     (let e = last (splitOn (CHR ''/'') s)
      in case lastIndexByte e (CHR ''.'') of None \<Rightarrow> [] | Some i \<Rightarrow> drop i e)"

definition pathDir :: "string \<Rightarrow> string" where
  "pathDir s = (case lastIndexByte s (CHR ''/'') of None \<Rightarrow> ''.'' | Some i \<Rightarrow> pathClean (take (Suc i) s))"

section \<open>Ordinary components\<close>

text \<open>A component that names an entry of its directory and nothing else.\<close>

definition normal :: "string \<Rightarrow> bool" where
  "normal c \<longleftrightarrow> c \<noteq> [] \<and> c \<noteq> ''.'' \<and> c \<noteq> ''..'' \<and> CHR ''/'' \<notin> set c"

lemma cleanGo_normal: "\<forall>c \<in> set cs. normal c \<Longrightarrow> cleanGo r st cs = rev st @ cs"
  by (induction cs arbitrary: st) (simp_all add: normal_def)

lemma splitOn_join_normal:
  "cs \<noteq> [] \<Longrightarrow> \<forall>c \<in> set cs. normal c \<Longrightarrow> splitOn (CHR ''/'') (joinWith ''/'' cs) = cs"
  by (rule splitOn_joinWith) (auto simp: normal_def)

lemma joinWith_Cons: "cs \<noteq> [] \<Longrightarrow> joinWith sep (c # cs) = c @ sep @ joinWith sep cs"
  by (cases cs) simp_all

lemma joinWith_append:
  "xs \<noteq> [] \<Longrightarrow> ys \<noteq> [] \<Longrightarrow> joinWith sep (xs @ ys) = joinWith sep xs @ sep @ joinWith sep ys"
proof (induction xs)
  case (Cons x xs)
  then show ?case by (cases "xs = []") (simp_all add: joinWith_Cons)
qed simp

lemma isAbs_join: "cs \<noteq> [] \<Longrightarrow> \<forall>c \<in> set cs. normal c \<Longrightarrow> \<not> isAbs (joinWith ''/'' cs)"
proof (cases cs)
  case (Cons c cs')
  moreover assume "\<forall>c \<in> set cs. normal c"
  ultimately obtain x xs where "c = x # xs" "x \<noteq> CHR ''/''" by (cases c) (auto simp: normal_def)
  then show ?thesis using Cons by (cases cs') (auto simp: isAbs_def hasPrefix_def)
qed simp

lemma join_normal_ne: "cs \<noteq> [] \<Longrightarrow> \<forall>c \<in> set cs. normal c \<Longrightarrow> joinWith ''/'' cs \<noteq> []"
proof (cases cs)
  case (Cons c cs')
  moreover assume "\<forall>c \<in> set cs. normal c"
  ultimately show ?thesis by (cases "cs' = []") (simp_all add: normal_def joinWith_Cons)
qed simp

lemma pathClean_normal:
  assumes "cs \<noteq> []" "\<forall>c \<in> set cs. normal c"
  shows "pathClean (joinWith ''/'' cs) = joinWith ''/'' cs"
  using assms isAbs_join [OF assms] cleanGo_normal [OF assms(2), of False "[]"]
  by (simp add: pathClean_def splitOn_join_normal split: list.split)

text \<open>What \<open>Clean\<close> leaves of a relative path: parents to climb, then ordinary components.\<close>

lemma cleanGo_rel:
  assumes "\<forall>c \<in> set cs. CHR ''/'' \<notin> set c" "rev st = replicate k ''..'' @ ns" "\<forall>c \<in> set ns. normal c"
  shows "\<exists>k ns. cleanGo False st cs = replicate k ''..'' @ ns \<and> (\<forall>c \<in> set ns. normal c)"
  using assms
proof (induction cs arbitrary: st k ns)
  case Nil
  then show ?case by auto
next
  case (Cons c cs)
  have cs: "\<forall>c \<in> set cs. CHR ''/'' \<notin> set c" using Cons.prems(1) by simp
  consider (skip) "c = [] \<or> c = ''.''" | (up) "c = ''..''" | (down) "normal c"
    using Cons.prems(1) by (auto simp: normal_def)
  then show ?case
  proof cases
    case skip
    then show ?thesis using Cons.IH [OF cs Cons.prems(2,3)] by simp
  next
    case up
    show ?thesis
    proof (cases "ns = []")
      case True
      then have st: "st = replicate k ''..''" using Cons.prems(2) by (metis append_Nil2 rev_replicate rev_rev_ident)
      have "rev (''..'' # st) = replicate (Suc k) ''..'' @ []"
        by (simp add: st replicate_append_same)
      from Cons.IH [OF cs this] up show ?thesis by (cases k) (simp_all add: st)
    next
      case False
      then obtain ms m where ns: "ns = ms @ [m]" by (cases ns rule: rev_cases) auto
      then have st: "st = m # rev (replicate k ''..'' @ ms)" using Cons.prems(2) by (metis append_assoc rev.simps(2) rev_rev_ident rev_append rev_singleton_conv append_Cons append_Nil)
      have "m \<noteq> ''..''" using Cons.prems(3) ns by (simp add: normal_def)
      then show ?thesis
        using Cons.IH [OF cs, of "rev (replicate k ''..'' @ ms)" k ms] Cons.prems(3) up ns st by simp
    qed
  next
    case down
    then have "rev (c # st) = replicate k ''..'' @ (ns @ [c])" using Cons.prems(2) by simp
    from Cons.IH [OF cs this] down Cons.prems(3) show ?thesis by (simp add: normal_def)
  qed
qed

text \<open>
  The check of the archive readers: a relative path whose cleaned form does not begin with two
  dots is made of ordinary components, or is the directory itself.
\<close>

lemma pathClean_safe:
  assumes "\<not> hasPrefix (pathClean s) ''..''" "\<not> isAbs (pathClean s)"
  shows "pathClean s = ''.'' \<or> (\<exists>cs. cs \<noteq> [] \<and> (\<forall>c \<in> set cs. normal c) \<and> pathClean s = joinWith ''/'' cs)"
proof -
  have rel: "\<not> isAbs s" using assms(2) by (auto simp: pathClean_def isAbs_def hasPrefix_def)
  have "\<forall>c \<in> set (splitOn (CHR ''/'') s). CHR ''/'' \<notin> set c" using splitOn_parts by blast
  from cleanGo_rel [OF this, of "[]" 0 "[]"]
  obtain k ns where ns: "cleanGo False [] (splitOn (CHR ''/'') s) = replicate k ''..'' @ ns" "\<forall>c \<in> set ns. normal c"
    by auto
  have "k = 0"
  proof (rule ccontr)
    assume "k \<noteq> 0"
    then obtain j where "replicate k ''..'' @ ns = ''..'' # (replicate j ''..'' @ ns)" by (cases k) auto
    then have "pathClean s = joinWith ''/'' (''..'' # (replicate j ''..'' @ ns))" using rel ns by (simp add: pathClean_def)
    then have "hasPrefix (pathClean s) ''..''"
      by (cases "replicate j ''..'' @ ns") (simp_all add: hasPrefix_def)
    with assms(1) show False by simp
  qed
  with ns have cs: "cleanGo False [] (splitOn (CHR ''/'') s) = ns" by simp
  show ?thesis
  proof (cases "ns = []")
    case True
    then show ?thesis using rel cs by (simp add: pathClean_def)
  next
    case False
    then have "pathClean s = joinWith ''/'' ns" using rel cs by (simp add: pathClean_def split: list.split)
    with ns(2) False show ?thesis by blast
  qed
qed

lemma pathJoin_below:
  assumes "ds \<noteq> []" "\<forall>d \<in> set ds. normal d" "cs \<noteq> []" "\<forall>c \<in> set cs. normal c"
  shows "pathJoin [joinWith ''/'' ds, joinWith ''/'' cs] = joinWith ''/'' (ds @ cs)"
proof -
  have "joinWith ''/'' ds \<noteq> []" using assms(1,2) by (rule join_normal_ne)
  then have "pathJoin [joinWith ''/'' ds, joinWith ''/'' cs] = pathClean (joinWith ''/'' (ds @ cs))"
    using joinWith_append [OF assms(1,3), of "''/''"] by (simp add: pathJoin_def)
  then show ?thesis using assms pathClean_normal [of "ds @ cs"] by auto
qed

lemma pathJoin_dot:
  assumes "ds \<noteq> []" "\<forall>d \<in> set ds. normal d"
  shows "pathJoin [joinWith ''/'' ds, ''.''] = joinWith ''/'' ds"
proof -
  have ne: "joinWith ''/'' ds \<noteq> []" using assms by (rule join_normal_ne)
  have sp: "splitOn (CHR ''/'') (joinWith ''/'' ds @ ''/'' @ ''.'') = ds @ [''.'']"
    using splitOn_joinWith [of "ds @ [''.'']" "CHR ''/''"] assms by (simp add: joinWith_append normal_def)
  have "cleanGo False [] (ds @ [''.'']) = ds"
  proof -
    have "cleanGo False st (ds @ [''.'']) = rev st @ ds" for st
      using assms(2) by (induction ds arbitrary: st) (simp_all add: normal_def)
    then show ?thesis by simp
  qed
  moreover have "\<not> isAbs (joinWith ''/'' ds @ ''/'' @ ''.'')"
    using isAbs_join [OF assms] ne by (cases "joinWith ''/'' ds") (simp_all add: isAbs_def hasPrefix_def)
  ultimately show ?thesis using ne sp assms(1)
    by (simp add: pathJoin_def pathClean_def split: list.split)
qed

section \<open>Files\<close>

type_synonym disk = "string \<Rightarrow> string option"

text \<open>
  How a write of a file can end: done, or an error of one of its steps, the temporary file
  possibly half written.
\<close>

datatype io_fault = NoFault | MkdirFails | WriteFails nat | RenameFails

definition writeAtomic :: "io_fault \<Rightarrow> string \<Rightarrow> string \<Rightarrow> disk \<Rightarrow> disk \<times> bool" where
  "writeAtomic f path body d =
     (let tmp = path @ ''.tmp''
      in case f of
           MkdirFails \<Rightarrow> (d, False)
         | WriteFails n \<Rightarrow> (d(tmp \<mapsto> take n body), False)
         | RenameFails \<Rightarrow> (d(tmp \<mapsto> body), False)
         | NoFault \<Rightarrow> ((d(tmp := None))(path \<mapsto> body), True))"

text \<open>\<open>os.WriteFile\<close>: the file is truncated and rewritten in place.\<close>

datatype write_res = WroteAll | WrotePart nat | NotOpened

definition writeFile :: "write_res \<Rightarrow> string \<Rightarrow> string \<Rightarrow> disk \<Rightarrow> disk \<times> bool" where
  "writeFile r path body d =
     (case r of
        WroteAll \<Rightarrow> (d(path \<mapsto> body), True)
      | WrotePart n \<Rightarrow> (d(path \<mapsto> take n body), False)
      | NotOpened \<Rightarrow> (d, False))"

lemma writeFile_frame: "writeFile r path body d = (d', ok) \<Longrightarrow> p \<noteq> path \<Longrightarrow> d' p = d p"
  by (auto simp: writeFile_def split: write_res.splits)

lemma writeFile_ok: "writeFile r path body d = (d', True) \<Longrightarrow> d' = d(path \<mapsto> body)"
  by (auto simp: writeFile_def split: write_res.splits)

text \<open>The target is never half written, and nothing but it and its temporary file changes.\<close>

lemma writeAtomic_target:
  "writeAtomic f path body d = (d', ok) \<Longrightarrow>
   d' path = (if ok then Some body else d path) \<and> (\<forall>p. p \<noteq> path \<longrightarrow> p \<noteq> path @ ''.tmp'' \<longrightarrow> d' p = d p)"
  by (auto simp: writeAtomic_def Let_def split: io_fault.splits)

end
