(* ===== verification/Generators.thy ===== *)
theory Generators
  imports Endpoint Go_Net
begin

text \<open>
  What the configuration generators share: JSON values, the allocation of one local port per
  endpoint a generator claims, and the SNI-spoof mappings (\<open>snispoof/generator.go\<close>). Writing
  a JSON value out as text is left to \<open>encoding/json\<close>; an object is a list of fields whose
  order does not matter.
\<close>

section \<open>JSON values\<close>

datatype json = JNull | JStr string | JNum int | JBool bool | JArr "json list" | JObj "(string \<times> json) list"

fun jget :: "json \<Rightarrow> string \<Rightarrow> json option" where
  "jget (JObj kvs) k = map_of kvs k"
| "jget _ k = None"

fun jset :: "string \<Rightarrow> json \<Rightarrow> json \<Rightarrow> json" where
  "jset k v (JObj kvs) = JObj ((k, v) # filter (\<lambda>kv. fst kv \<noteq> k) kvs)"
| "jset k v j = j"

definition strings :: "string list \<Rightarrow> json" where
  "strings xs = JArr (map JStr xs)"

definition optField :: "string \<Rightarrow> string \<Rightarrow> (string \<times> json) list" where
  "optField k v = (if v \<noteq> [] then [(k, JStr v)] else [])"

lemma map_of_filter_ne: "map_of (filter (\<lambda>kv. fst kv \<noteq> k) kvs) k' = (if k' = k then None else map_of kvs k')"
  by (induction kvs) auto

fun isObj :: "json \<Rightarrow> bool" where
  "isObj (JObj kvs) = True"
| "isObj _ = False"

lemma jget_jset [simp]: "isObj j \<Longrightarrow> jget (jset k v j) k' = (if k' = k then Some v else jget j k')"
  by (cases j) (auto simp: map_of_filter_ne)

lemma isObj_jset [simp]: "isObj (jset k v j) = isObj j"
  by (cases j) auto

section \<open>One port per claimed endpoint\<close>

text \<open>\<open>updated[i].Config[key] = net.JoinHostPort(dialHost, port)\<close>.\<close>

definition pin :: "string \<Rightarrow> string \<Rightarrow> int \<Rightarrow> endpoint \<Rightarrow> endpoint" where
  "pin key dialHost port ep = ep\<lparr>Config := (Config ep)(key \<mapsto> joinHostPort dialHost (strconvItoa port))\<rparr>"

text \<open>
  The contract of a generator's loop over the endpoints: it walks the list with a port
  counter, pins the endpoints it claims and leaves the others as they are.
\<close>

locale port_alloc =
  fixes run :: "'cfg \<Rightarrow> nat \<Rightarrow> int \<Rightarrow> endpoint list \<Rightarrow> endpoint list"
    and claims :: "'cfg \<Rightarrow> endpoint \<Rightarrow> bool"
    and key :: string
    and dial :: "'cfg \<Rightarrow> string"
  assumes run_Nil: "run c i p [] = []"
    and run_skip: "\<not> claims c e \<Longrightarrow> run c i p (e # es) = e # run c (Suc i) p es"
    and run_claim: "claims c e \<Longrightarrow> run c i p (e # es) = pin key (dial c) p e # run c (Suc i) (p + 1) es"
begin

lemma run_length [simp]: "length (run c i p es) = length es"
proof (induction es arbitrary: i p)
  case Nil
  then show ?case by (simp add: run_Nil)
next
  case (Cons e es)
  then show ?case by (cases "claims c e") (simp_all add: run_skip run_claim)
qed

text \<open>The port of position \<open>i\<close>: the base plus the claims before it.\<close>

definition portAt :: "'cfg \<Rightarrow> int \<Rightarrow> endpoint list \<Rightarrow> nat \<Rightarrow> int" where
  "portAt c p es i = p + int (length (filter (claims c) (take i es)))"

lemma portAt_0 [simp]: "portAt c p es 0 = p"
  by (simp add: portAt_def)

lemma portAt_Suc [simp]: "portAt c p (e # es) (Suc i) = portAt c (if claims c e then p + 1 else p) es i"
  by (simp add: portAt_def)

lemma run_nth:
  "i < length es \<Longrightarrow>
   run c n p es ! i = (if claims c (es ! i) then pin key (dial c) (portAt c p es i) (es ! i) else es ! i)"
proof (induction es arbitrary: i n p)
  case (Cons e es)
  show ?case
  proof (cases i)
    case 0
    then show ?thesis by (cases "claims c e") (simp_all add: run_skip run_claim)
  next
    case (Suc j)
    then show ?thesis using Cons.IH [of j] Cons.prems
      by (cases "claims c e") (simp_all add: run_skip run_claim)
  qed
qed simp

lemma portAt_less:
  assumes "i < j" "j < length es" "claims c (es ! i)"
  shows "portAt c p es i < portAt c p es j"
proof -
  have "take j es = take (Suc i) (take j es) @ drop (Suc i) (take j es)"
    by (rule append_take_drop_id [symmetric])
  also have "take (Suc i) (take j es) = take (Suc i) es" using assms(1) by (simp add: min_def)
  also have "\<dots> = take i es @ [es ! i]" using assms by (simp add: take_Suc_conv_app_nth)
  finally obtain rest where "take j es = (take i es @ [es ! i]) @ rest" by blast
  then show ?thesis using assms(3) by (simp add: portAt_def)
qed

lemma portAt_bounds: "p \<le> portAt c p es i \<and> portAt c p es i \<le> p + int (length es)"
proof -
  have "length (filter (claims c) (take i es)) \<le> length (take i es)" by (rule length_filter_le)
  also have "\<dots> \<le> length es" by simp
  finally show ?thesis by (simp add: portAt_def)
qed

lemma pinned_distinct:
  assumes "i < length es" "j < length es" "i \<noteq> j" "claims c (es ! i)" "claims c (es ! j)"
    and "in_int64 p" "in_int64 (p + int (length es))"
  shows "cget (Config (run c n p es ! i)) key \<noteq> cget (Config (run c n p es ! j)) key"
proof -
  have ne: "portAt c p es i \<noteq> portAt c p es j"
  proof (cases "i < j")
    case True
    from portAt_less [OF this assms(2,4), of p] show ?thesis by simp
  next
    case False
    then have "j < i" using assms(3) by simp
    from portAt_less [OF this assms(1,5), of p] show ?thesis by simp
  qed
  have "in_int64 (portAt c p es k)" for k
    using portAt_bounds [of p c es k] assms(6,7) by (auto simp: in_int64_def)
  then have "strconvItoa (portAt c p es i) \<noteq> strconvItoa (portAt c p es j)"
    using ne strconvItoa_inj by blast
  then have "joinHostPort (dial c) (strconvItoa (portAt c p es i)) \<noteq> joinHostPort (dial c) (strconvItoa (portAt c p es j))"
    using joinHostPort_same_host by blast
  then show ?thesis using assms(1-5) by (simp add: run_nth pin_def)
qed

lemma run_frame:
  assumes "i < length es" "k \<noteq> key"
  shows "cget (Config (run c n p es ! i)) k = cget (Config (es ! i)) k"
    "run c n p es ! i = (es ! i)\<lparr>Config := Config (run c n p es ! i)\<rparr>"
  using assms by (simp_all add: run_nth pin_def)

end

section \<open>Following a configuration\<close>

text \<open>
  The claimed endpoints with their positions and ports, in order; a dialer's configuration
  is a few images of this list.
\<close>

fun allocs :: "(endpoint \<Rightarrow> bool) \<Rightarrow> nat \<Rightarrow> int \<Rightarrow> endpoint list \<Rightarrow> (nat \<times> int \<times> endpoint) list" where
  "allocs claims i p [] = []"
| "allocs claims i p (e # es) =
     (if claims e then (i, p, e) # allocs claims (Suc i) (p + 1) es else allocs claims (Suc i) p es)"

lemma allocs_nth:
  "k < length es \<Longrightarrow> claims (es ! k) \<Longrightarrow>
   (i + k, p + int (length (filter claims (take k es))), es ! k) \<in> set (allocs claims i p es)"
proof (induction es arbitrary: i p k)
  case (Cons e es)
  show ?case
  proof (cases k)
    case 0
    then show ?thesis using Cons.prems by simp
  next
    case (Suc j)
    then show ?thesis using Cons.IH [of j "Suc i" "p + 1"] Cons.IH [of j "Suc i" p] Cons.prems
      by (auto simp: algebra_simps)
  qed
qed simp

lemma allocs_Nil_iff: "allocs claims i p es = [] \<longleftrightarrow> \<not> list_ex claims es"
  by (induction es arbitrary: i p) auto

lemma allocs_bounds: "(i, p, e) \<in> set (allocs claims n q es) \<Longrightarrow> n \<le> i \<and> q \<le> p \<and> claims e"
  by (induction es arbitrary: n q) (fastforce split: if_splits)+

lemma allocs_upper: "(i, p, e) \<in> set (allocs claims n q es) \<Longrightarrow> p < q + int (length es)"
  by (induction es arbitrary: n q) (fastforce split: if_splits)+

lemma allocs_distinct:
  "distinct (map fst (allocs claims n q es))" "distinct (map (\<lambda>x. fst (snd x)) (allocs claims n q es))"
proof (induction es arbitrary: n q)
  case (Cons e es)
  { case 1
    show ?case using Cons.IH(1) allocs_bounds by (fastforce simp: image_iff) }
  { case 2
    show ?case using Cons.IH(2) allocs_bounds by (fastforce simp: image_iff) }
qed simp_all

lemma find_map_distinct:
  assumes "distinct (map k xs)" "x \<in> set xs" "\<And>y. y \<in> set xs \<Longrightarrow> P (f y) \<longleftrightarrow> k y = k x"
  shows "find P (map f xs) = Some (f x)"
  using assms
proof (induction xs)
  case (Cons y ys)
  show ?case
  proof (cases "k y = k x")
    case True
    then have "y = x" using Cons.prems(1,2) by auto
    then show ?thesis using Cons.prems(3) [of y] by simp
  next
    case False
    then show ?thesis using Cons by auto
  qed
qed simp

lemma find_append: "find P (xs @ ys) = (case find P xs of None \<Rightarrow> find P ys | Some x \<Rightarrow> Some x)"
  by (induction xs) auto

definition items :: "json \<Rightarrow> string \<Rightarrow> json list" where
  "items j k = (case jget j k of Some (JArr xs) \<Rightarrow> xs | _ \<Rightarrow> [])"

definition epTag :: "string \<Rightarrow> nat \<Rightarrow> string" where
  "epTag pre i = pre @ ''ep-'' @ strconvItoa (int i)"

lemma epTag_inj [simp]: "epTag pre i = epTag pre j \<longleftrightarrow> i = j"
  by (simp add: epTag_def)

section \<open>SNI-spoof mappings\<close>

record gen_config =
  ListenHost :: string
  DialHost :: string
  BasePort :: int

definition genDefaults :: "int \<Rightarrow> gen_config \<Rightarrow> gen_config" where
  "genDefaults base cfg =
     \<lparr>ListenHost = (if ListenHost cfg = [] then ''0.0.0.0'' else ListenHost cfg),
      DialHost = (if DialHost cfg = [] then ''127.0.0.1'' else DialHost cfg),
      BasePort = (if BasePort cfg = 0 then base else BasePort cfg)\<rparr>"

record mapping =
  mapListen :: string
  mapConnect :: string
  mapFakeSNI :: string
  mapUTLS :: string

definition ssHandles :: "endpoint \<Rightarrow> bool" where
  "ssHandles ep \<longleftrightarrow> cget (Config ep) ''fake_sni'' \<noteq> []"

definition ssMapping :: "int \<Rightarrow> endpoint \<Rightarrow> mapping" where
  "ssMapping port ep =
     \<lparr>mapListen = '':'' @ strconvItoa port, mapConnect = Address ep,
      mapFakeSNI = cget (Config ep) ''fake_sni'',
      mapUTLS = (if cget (Config ep) ''utls'' = [] then ''chrome'' else cget (Config ep) ''utls'')\<rparr>"

fun ssLoop :: "gen_config \<Rightarrow> int \<Rightarrow> endpoint list \<Rightarrow> mapping list \<times> endpoint list" where
  "ssLoop cfg port [] = ([], [])"
| "ssLoop cfg port (ep # eps) =
     (if \<not> ssHandles ep then (case ssLoop cfg port eps of (ms, us) \<Rightarrow> (ms, ep # us))
      else (case ssLoop cfg (port + 1) eps of
              (ms, us) \<Rightarrow> (ssMapping port ep # ms, pin ''spoof_via'' (DialHost cfg) port ep # us)))"

text \<open>The mappings (\<open>None\<close> when there are none) and the endpoints.\<close>

definition ssGenerate :: "endpoint list \<Rightarrow> gen_config \<Rightarrow> mapping list option \<times> endpoint list" where
  "ssGenerate eps cfg0 =
     (let cfg = genDefaults 12800 cfg0; (ms, us) = ssLoop cfg (BasePort cfg) eps
      in (if ms = [] then None else Some ms, us))"

interpretation ss_alloc: port_alloc "\<lambda>cfg _ p es. snd (ssLoop cfg p es)" "\<lambda>_. ssHandles" "''spoof_via''" DialHost
  by unfold_locales (auto split: prod.splits)

end
