(* ===== verification/Yaml_Edit.thy ===== *)
theory Yaml_Edit
  imports Go_Path Generators
begin

text \<open>
  Editing \<open>config.yaml\<close> as a tree of nodes (\<open>api/yamledit.go\<close>). The parser and printer of
  \<open>yaml.v3\<close> are arguments; \<open>nMeta\<close> stands for what a node carries besides its kind, tag and
  value: its anchor and the comments above, behind and below it. How a value is laid out (quotes,
  block or flow style, line and column) is not part of a node here.
\<close>

section \<open>Nodes\<close>

datatype ykind = NoKind | DocumentNode | SequenceNode | MappingNode | ScalarNode | AliasNode

datatype ynode = YNode (nKind: ykind) (nTag: string) (nValue: string) (nMeta: string) (nContent: "ynode list")

fun withContent :: "ynode list \<Rightarrow> ynode \<Rightarrow> ynode" where
  "withContent c (YNode k t v m _) = YNode k t v m c"

lemma withContent_sel [simp]:
  "nKind (withContent c n) = nKind n" "nTag (withContent c n) = nTag n" "nValue (withContent c n) = nValue n"
  "nMeta (withContent c n) = nMeta n" "nContent (withContent c n) = c"
  by (cases n; simp)+

lemma withContent_id [simp]: "withContent (nContent n) n = n" "withContent c (withContent d n) = withContent c n"
  by (cases n; simp)+

definition emptyMap :: ynode where
  "emptyMap = YNode MappingNode ''!!map'' [] [] []"

definition emptySeq :: ynode where
  "emptySeq = YNode SequenceNode ''!!seq'' [] [] []"

definition keyNode :: "string \<Rightarrow> ynode" where
  "keyNode key = YNode ScalarNode ''!!str'' key [] []"

section \<open>Mappings\<close>

text \<open>A mapping's content is its keys and values in turn; an odd last node is not looked at.\<close>

fun getPair :: "string \<Rightarrow> ynode list \<Rightarrow> ynode option" where
  "getPair key (k # v # rest) = (if nValue k = key then Some v else getPair key rest)"
| "getPair key _ = None"

definition yget :: "string \<Rightarrow> ynode \<Rightarrow> ynode option" where
  "yget key m = getPair key (nContent m)"

definition scalarString :: "string \<Rightarrow> ynode \<Rightarrow> string" where
  "scalarString key m = (case yget key m of Some v \<Rightarrow> if nKind v = ScalarNode then nValue v else [] | None \<Rightarrow> [])"

text \<open>The loop of \<open>setNode\<close>; what is appended follows even an odd last node.\<close>

fun setPair :: "string \<Rightarrow> ynode \<Rightarrow> ynode list \<Rightarrow> ynode list option" where
  "setPair key val (k # v # rest) =
     (if nValue k = key then Some (k # val # rest) else map_option (\<lambda>r. k # v # r) (setPair key val rest))"
| "setPair key val _ = None"

definition setNode :: "string \<Rightarrow> ynode \<Rightarrow> ynode \<Rightarrow> ynode" where
  "setNode key val m =
     (case setPair key val (nContent m) of
        Some c \<Rightarrow> withContent c m
      | None \<Rightarrow> withContent (nContent m @ [keyNode key, val]) m)"

text \<open>
  \<open>child\<close> and \<open>seq\<close> return the nested node for further edits in place; here the edit is an
  argument.
\<close>

definition onChild :: "string \<Rightarrow> (ynode \<Rightarrow> ynode) \<Rightarrow> ynode \<Rightarrow> ynode" where
  "onChild key f m =
     (case yget key m of
        Some v \<Rightarrow> if nKind v = MappingNode then setNode key (f v) m else setNode key (f emptyMap) m
      | None \<Rightarrow> setNode key (f emptyMap) m)"

definition onSeq :: "string \<Rightarrow> (ynode list \<Rightarrow> ynode list) \<Rightarrow> ynode \<Rightarrow> ynode" where
  "onSeq key f m =
     (let s = (case yget key m of Some v \<Rightarrow> if nKind v = SequenceNode then v else emptySeq | None \<Rightarrow> emptySeq)
      in setNode key (withContent (f (nContent s)) s) m)"

fun delPair :: "string \<Rightarrow> ynode list \<Rightarrow> ynode list option" where
  "delPair key (k # v # rest) =
     (if nValue k = key then Some rest else map_option (\<lambda>r. k # v # r) (delPair key rest))"
| "delPair key _ = None"

definition ydel :: "string \<Rightarrow> ynode \<Rightarrow> ynode \<times> bool" where
  "ydel key m = (case delPair key (nContent m) of Some c \<Rightarrow> (withContent c m, True) | None \<Rightarrow> (m, False))"

section \<open>Documents and files\<close>

text \<open>The root mapping of a document, and the document with the root edited.\<close>

definition documentRoot :: "ynode \<Rightarrow> ynode" where
  "documentRoot doc =
     (if nKind doc = DocumentNode then (case nContent doc of [] \<Rightarrow> emptyMap | r # _ \<Rightarrow> r) else emptyMap)"

definition withRoot :: "ynode \<Rightarrow> ynode \<Rightarrow> ynode" where
  "withRoot r doc =
     (if nKind doc = DocumentNode then withContent (r # drop 1 (nContent doc)) doc
      else YNode DocumentNode (nTag doc) (nValue doc) (nMeta doc) [r])"

definition noDoc :: ynode where
  "noDoc = YNode NoKind [] [] [] []"

text \<open>Go values as they are encoded into fresh nodes.\<close>

datatype yval = YStr string | YInt int | YBool bool | YList "yval list" | YMap "(string \<times> yval) list" | YNull

record yaml_lib =
  yUnmarshal :: "string \<Rightarrow> ynode option"
  yMarshal :: "ynode \<Rightarrow> string option"
  yNodeOf :: "yval \<Rightarrow> ynode"

definition yset :: "yaml_lib \<Rightarrow> string \<Rightarrow> yval \<Rightarrow> ynode \<Rightarrow> ynode" where
  "yset y key v m = setNode key (yNodeOf y v) m"

text \<open>
  What an edit returns besides the tree: go on and write, stop without writing. (\<open>fn\<close> never
  fails otherwise.) The third result is what the callback left in the variables it captures.
\<close>

datatype edit_res = FileError | Skipped | Written | WriteError

definition parseDoc :: "yaml_lib \<Rightarrow> string \<Rightarrow> disk \<Rightarrow> ynode option" where
  "parseDoc y path d =
     (case d path of None \<Rightarrow> None | Some raw \<Rightarrow> if raw = [] then Some noDoc else yUnmarshal y raw)"

definition editYAMLFile ::
  "yaml_lib \<Rightarrow> write_res \<Rightarrow> string \<Rightarrow> (ynode \<Rightarrow> ynode option) \<Rightarrow> disk \<Rightarrow> disk \<times> edit_res" where
  "editYAMLFile y wr path fn d =
     (case parseDoc y path d of
        None \<Rightarrow> (d, FileError)
      | Some doc \<Rightarrow>
          (case fn (documentRoot doc) of
             None \<Rightarrow> (d, Skipped)
           | Some root \<Rightarrow>
               (case yMarshal y (withRoot root doc) of
                  None \<Rightarrow> (d, FileError)
                | Some out \<Rightarrow>
                    (case writeFile wr path out d of
                       (d', ok) \<Rightarrow> (d', if ok then Written else WriteError)))))"

section \<open>Laws\<close>

lemma setPair_None: "setPair key v c = None \<longleftrightarrow> getPair key c = None"
  by (induction key v c rule: setPair.induct) auto

lemma getPair_setPair: "setPair key v c = Some c' \<Longrightarrow> getPair k c' = (if k = key then Some v else getPair k c)"
  by (induction key v c arbitrary: c' rule: setPair.induct) (auto split: if_splits)

text \<open>A mapping node has an even number of children.\<close>

definition wf_map :: "ynode \<Rightarrow> bool" where
  "wf_map m \<longleftrightarrow> even (length (nContent m))"

lemma getPair_append:
  "even (length c) \<Longrightarrow> getPair k (c @ d) = (case getPair k c of None \<Rightarrow> getPair k d | Some v \<Rightarrow> Some v)"
  by (induction k c rule: getPair.induct) auto

lemma length_setPair: "setPair key v c = Some c' \<Longrightarrow> length c' = length c"
  by (induction key v c arbitrary: c' rule: setPair.induct) (auto split: if_splits)

lemma wf_emptyMap [simp]: "wf_map emptyMap"
  by (simp add: wf_map_def emptyMap_def)

lemma wf_setNode [simp]: "wf_map m \<Longrightarrow> wf_map (setNode key v m)"
  by (auto simp: setNode_def wf_map_def split: option.split dest: length_setPair)

text \<open>Setting a key changes that key and no other; the other nodes stay as they are.\<close>

lemma yget_setNode [simp]: "wf_map m \<Longrightarrow> yget k (setNode key v m) = (if k = key then Some v else yget k m)"
proof (cases "setPair key v (nContent m)")
  case None
  then show "wf_map m \<Longrightarrow> ?thesis"
    using setPair_None [of key v "nContent m"]
    by (auto simp: yget_def setNode_def wf_map_def getPair_append keyNode_def split: option.split)
next
  case (Some c)
  then show ?thesis by (simp add: yget_def setNode_def getPair_setPair [OF Some])
qed

lemma setNode_meta [simp]:
  "nKind (setNode key v m) = nKind m" "nTag (setNode key v m) = nTag m" "nMeta (setNode key v m) = nMeta m"
  by (auto simp: setNode_def split: option.split)

lemma yget_emptyMap [simp]: "yget k emptyMap = None"
  by (simp add: yget_def emptyMap_def)

lemma wf_onChild [simp]: "wf_map m \<Longrightarrow> wf_map (onChild key f m)"
  by (auto simp: onChild_def split: option.split)

lemma onChild_meta [simp]:
  "nKind (onChild key f m) = nKind m" "nMeta (onChild key f m) = nMeta m"
  by (auto simp: onChild_def split: option.split)

definition childAt :: "string \<Rightarrow> ynode \<Rightarrow> ynode" where
  "childAt key m = (case yget key m of Some v \<Rightarrow> if nKind v = MappingNode then v else emptyMap | None \<Rightarrow> emptyMap)"

lemma yget_onChild [simp]:
  "wf_map m \<Longrightarrow> yget k (onChild key f m) = (if k = key then Some (f (childAt key m)) else yget k m)"
  by (auto simp: onChild_def childAt_def split: option.split)

definition seqAt :: "string \<Rightarrow> ynode \<Rightarrow> ynode" where
  "seqAt key m = (case yget key m of Some v \<Rightarrow> if nKind v = SequenceNode then v else emptySeq | None \<Rightarrow> emptySeq)"

lemma wf_onSeq [simp]: "wf_map m \<Longrightarrow> wf_map (onSeq key f m)"
  by (simp add: onSeq_def Let_def)

lemma onSeq_meta [simp]: "nKind (onSeq key f m) = nKind m" "nMeta (onSeq key f m) = nMeta m"
  by (simp_all add: onSeq_def Let_def)

lemma yget_onSeq [simp]:
  "wf_map m \<Longrightarrow> yget k (onSeq key f m) =
     (if k = key then Some (withContent (f (nContent (seqAt key m))) (seqAt key m)) else yget k m)"
  by (simp add: onSeq_def seqAt_def Let_def)

lemma setNode_same: "wf_map m \<Longrightarrow> yget key m = Some v \<Longrightarrow> setNode key v m = m"
proof -
  have "getPair key c = Some v \<Longrightarrow> setPair key v c = Some c" for c
    by (induction key v c rule: setPair.induct) (auto split: if_splits)
  then show "wf_map m \<Longrightarrow> yget key m = Some v \<Longrightarrow> setNode key v m = m"
    by (simp add: setNode_def yget_def)
qed

lemma setPair_twice: "setPair key w c = Some c' \<Longrightarrow> setPair key v c' = setPair key v c"
  by (induction key w c arbitrary: c' rule: setPair.induct) (auto split: if_splits)

lemma setPair_last:
  "even (length c) \<Longrightarrow> setPair key w c = None \<Longrightarrow> setPair key v (c @ [keyNode key, w]) = Some (c @ [keyNode key, v])"
  by (induction key w c rule: setPair.induct) (auto simp: keyNode_def split: if_splits)

lemma setNode_twice: "wf_map m \<Longrightarrow> setNode key v (setNode key w m) = setNode key v m"
proof (cases "setPair key w (nContent m)")
  case None
  then have "setPair key v (nContent m) = None" by (simp add: setPair_None)
  with None show "wf_map m \<Longrightarrow> ?thesis" by (simp add: setNode_def wf_map_def setPair_last)
next
  case (Some c)
  then have "setPair key v (nContent m) \<noteq> None"
    using setPair_None [of key v "nContent m"] setPair_None [of key w "nContent m"] by simp
  then show ?thesis using setPair_twice [OF Some, of v] by (auto simp: setNode_def Some)
qed

lemma onChild_eq: "onChild key f m = setNode key (f (childAt key m)) m"
  by (auto simp: onChild_def childAt_def split: option.split)

lemma onSeq_eq: "onSeq key f m = setNode key (withContent (f (nContent (seqAt key m))) (seqAt key m)) m"
  by (auto simp: onSeq_def seqAt_def Let_def split: option.split)

text \<open>
  Two mappings that differ at most in the value of one key: if the key was there, in that one node,
  and every other node, the key's own and its comments among them, is the same at the same place;
  if it was not, in the new key and its value at the end.
\<close>

definition same_but_at :: "string \<Rightarrow> ynode \<Rightarrow> ynode \<Rightarrow> bool" where
  "same_but_at key m m' \<longleftrightarrow>
     nKind m' = nKind m \<and> nTag m' = nTag m \<and> nValue m' = nValue m \<and> nMeta m' = nMeta m \<and>
     (case yget key m of
        None \<Rightarrow> \<exists>v. nContent m' = nContent m @ [keyNode key, v]
      | Some _ \<Rightarrow> \<exists>i v. 2 * i + 1 < length (nContent m) \<and> nValue (nContent m ! (2 * i)) = key \<and>
          nContent m' = (nContent m)[2 * i + 1 := v])"

lemma setPair_at:
  "setPair key v c = Some c' \<Longrightarrow>
     \<exists>i. 2 * i + 1 < length c \<and> nValue (c ! (2 * i)) = key \<and> c' = c[2 * i + 1 := v]"
proof (induction key v c arbitrary: c' rule: setPair.induct)
  case (1 key v k w rest)
  show ?case
  proof (cases "nValue k = key")
    case True
    with 1(2) show ?thesis by (intro exI [of _ 0]) auto
  next
    case False
    with 1(2) obtain r where r: "setPair key v rest = Some r" "c' = k # w # r" by auto
    with 1(1) [OF False r(1)] obtain i where "2 * i + 1 < length rest" "nValue (rest ! (2 * i)) = key" "r = rest[2 * i + 1 := v]"
      by auto
    with r(2) show ?thesis by (intro exI [of _ "Suc i"]) auto
  qed
qed auto

lemma same_but_at_setNode [simp, intro]: "same_but_at key m (setNode key v m)"
proof (cases "setPair key v (nContent m)")
  case None
  then show ?thesis
    using setPair_None [of key v "nContent m"] by (simp add: same_but_at_def setNode_def yget_def)
next
  case (Some c)
  then have "getPair key (nContent m) \<noteq> None" using setPair_None [of key v "nContent m"] by auto
  then obtain w where "yget key m = Some w" by (auto simp: yget_def)
  with Some show ?thesis using setPair_at [OF Some] by (simp add: same_but_at_def setNode_def) blast
qed

lemma same_but_at_onChild [simp, intro]: "same_but_at key m (onChild key f m)"
  by (auto simp: onChild_def split: option.split)

lemma same_but_at_onSeq [simp, intro]: "same_but_at key m (onSeq key f m)"
  by (auto simp: onSeq_def Let_def)

end
