(* ===== verification/Sidecars.thy ===== *)
theory Sidecars
  imports Go_Path Generators
begin

text \<open>
  The sidecars (\<open>sidecars/manager.go\<close>, \<open>sidecars/configgen.go\<close>): the endpoints of the enabled
  ones and the configuration files written for them. The JSON encoder is an argument.
\<close>

section \<open>Endpoints\<close>

record sidecar_entry =
  scEnabled :: bool
  scPriority :: int
  scConfig :: config

record sidecars_config =
  scMasterDNS :: sidecar_entry
  scDNSTT :: sidecar_entry
  scPsiphon :: sidecar_entry
  scTor :: sidecar_entry
  scAmneziaWG :: sidecar_entry
  scTrustTunnel :: sidecar_entry

definition prio :: "sidecar_entry \<Rightarrow> int \<Rightarrow> int" where
  "prio e dflt = (if 0 < scPriority e then scPriority e else dflt)"

record sidecar_meta =
  smName :: string
  smHost :: string
  smPort :: int
  smPriority :: int
  smEntry :: sidecar_entry

definition sidecarMetas :: "sidecars_config \<Rightarrow> sidecar_meta list" where
  "sidecarMetas c =
     [\<lparr>smName = ''masterdns'', smHost = ''masterdns'', smPort = 5300, smPriority = prio (scMasterDNS c) 1, smEntry = scMasterDNS c\<rparr>,
      \<lparr>smName = ''dnstt'', smHost = ''dns-tunnels'', smPort = 5301, smPriority = prio (scDNSTT c) 5, smEntry = scDNSTT c\<rparr>,
      \<lparr>smName = ''psiphon'', smHost = ''psiphon'', smPort = 5400, smPriority = prio (scPsiphon c) 5, smEntry = scPsiphon c\<rparr>,
      \<lparr>smName = ''tor'', smHost = ''tor'', smPort = 9150, smPriority = prio (scTor c) 5, smEntry = scTor c\<rparr>,
      \<lparr>smName = ''amneziawg'', smHost = ''amneziawg'', smPort = 5500, smPriority = prio (scAmneziaWG c) 5, smEntry = scAmneziaWG c\<rparr>,
      \<lparr>smName = ''trusttunnel'', smHost = ''trusttunnel'', smPort = 5600, smPriority = prio (scTrustTunnel c) 5, smEntry = scTrustTunnel c\<rparr>]"

definition dockerAddr :: "sidecar_meta \<Rightarrow> string" where
  "dockerAddr m = smHost m @ '':'' @ strconvItoa (smPort m)"

text \<open>The user's keys are copied last, over the address and the kind.\<close>

definition sidecarEndpoint :: "sidecar_meta \<Rightarrow> endpoint" where
  "sidecarEndpoint m =
     \<lparr>ID = ''sidecar:'' @ smName m, Protocol = ''sidecar'', Name = ''sidecar-'' @ smName m,
      Address = dockerAddr m, RawURI = ''sidecar://'' @ dockerAddr m,
      Source = cget (scConfig (smEntry m)) ''source'',
      Config = [''socks5_addr'' \<mapsto> dockerAddr m, ''sidecar_kind'' \<mapsto> smName m] ++ scConfig (smEntry m),
      Priority = smPriority m, Enabled = True, LatencyMs = -1, Status = ''unknown''\<rparr>"

definition enabledEndpoints :: "sidecars_config \<Rightarrow> endpoint list" where
  "enabledEndpoints c = map sidecarEndpoint (filter (\<lambda>m. scEnabled (smEntry m)) (sidecarMetas c))"

text \<open>\<open>dockerctl.SidecarDockerService\<close>.\<close>

definition sidecarDockerService :: "string \<Rightarrow> string" where
  "sidecarDockerService kind =
     (let k = toLower kind
      in if k \<in> {''masterdns'', ''amneziawg'', ''trusttunnel'', ''psiphon'', ''tor''} then k
         else if k = ''dnstt'' then ''dns-tunnels'' else kind)"

section \<open>Configuration files\<close>

definition textLines :: "string list \<Rightarrow> string" where
  "textLines ls = concat (map (\<lambda>l. l @ [CHR 0x0A]) ls)"

definition quoted :: "string \<Rightarrow> string" where
  "quoted s = [CHR 0x22] @ s @ [CHR 0x22]"

text \<open>A step of the generation: the disk afterwards and whether it succeeded.\<close>

type_synonym gen_step = "disk \<Rightarrow> disk \<times> bool"

definition stepThen :: "gen_step \<Rightarrow> gen_step \<Rightarrow> gen_step" where
  "stepThen f g d = (case f d of (d', ok) \<Rightarrow> if ok then g d' else (d', False))"

definition stepWhen :: "bool \<Rightarrow> gen_step \<Rightarrow> gen_step" where
  "stepWhen b f d = (if b then f d else (d, True))"

record gen_env =
  geFault :: "string \<Rightarrow> io_fault"
  geMarshal :: "json \<Rightarrow> string"

definition writeTo :: "gen_env \<Rightarrow> string list \<Rightarrow> string \<Rightarrow> gen_step" where
  "writeTo env elems body d = (let p = pathJoin elems in writeAtomic (geFault env p) p body d)"

definition masterDNSBody :: "string \<Rightarrow> string \<Rightarrow> string \<Rightarrow> string" where
  "masterDNSBody domain meth key =
     textLines [''DOMAINS = ['' @ quoted domain @ '']'', ''DATA_ENCRYPTION_METHOD = '' @ meth,
       ''ENCRYPTION_KEY = '' @ quoted key, ''PROTOCOL_TYPE = '' @ quoted ''SOCKS5'',
       ''LISTEN_IP = '' @ quoted ''0.0.0.0'', ''LISTEN_PORT = 5300'',
       ''CLIENT_RESOLVERS_FILE = '' @ quoted ''client_resolvers.txt'']"

definition resolversBody :: string where
  "resolversBody =
     textLines [''# One resolver per line. Used by the masterdns client to send queries.'',
       ''# Format: <ip>:<port> [proto]'', ''1.1.1.1:53'', ''8.8.8.8:53'', ''9.9.9.9:53'', ''1.0.0.1:53'']"

definition writeMasterDNS :: "gen_env \<Rightarrow> string \<Rightarrow> config \<Rightarrow> gen_step" where
  "writeMasterDNS env base c =
     (if cget c ''domain'' = [] \<or> cget c ''key'' = [] then (\<lambda>d. (d, True))
      else stepThen
        (writeTo env [base, ''masterdns'', ''client_config.toml'']
           (masterDNSBody (cget c ''domain'') (if cget c ''method'' = [] then ''5'' else cget c ''method'') (cget c ''key'')))
        (writeTo env [base, ''masterdns'', ''client_resolvers.txt''] resolversBody))"

definition orElse :: "string \<Rightarrow> string \<Rightarrow> string" where
  "orElse v fallback = (if v = [] then fallback else v)"

definition psiphonDefaultPubKey :: string where
  "psiphonDefaultPubKey =
     ''MIICIDANBgkqhkiG9w0BAQEFAAOCAg0AMIICCAKCAgEAt7Ls+/39r+T6zNW7GiVpJfzq/xvL9SBH5rIFnk0RXYEYav'' @
     ''ax3WS6HOD35eTAqn8AniOwiH+DOkvgSKF2caqk/y1dfq47Pdymtwzp9ikpB1C5OfAysXzBiwVJlCdajBKvBZDerV1c'' @
     ''MvRzCKvKwRmvDmHgphQQ7WfXIGbRbmmk6opMBh3roE42KcotLFtqp0RRwLtcBRNtCdsrVsjiI1Lqz/lH+T61sGjSjQ'' @
     ''3CHMuZYSQJZo/KrvzgQXpkaCTdbObxHqb6/+i1qaVOfEsvjoiyzTxJADvSytVtcTjijhPEV6XskJVHE1Zgl+7rATr/'' @
     ''pDQkw6DPCNBS1+Y6fy7GstZALQXwEDN/qhQI9kWkHijT8ns+i1vGg00Mk/6J75arLhqcodWsdeG/M/moWgqQAnlZAG'' @
     ''VtJI1OgeF5fsPpXu4kctOfuZlGjVZXQNW34aOzm8r8S0eVZitPlbhcPiR4gT/aSMz/wd8lZlzZYsje/Jr8u/Ytlwjj'' @
     ''reZrGRmG8KMOzukV3lLmMppXFMvl4bxv6YFEmIuTsOhbLTwFgh7KYNjodLj/LsqRVfwz31PgWQFTEPICV7GCvgVlPR'' @
     ''xnofqKSjgTWI4mxDhBpVcATvaoBl1L/6WLbFvBsoAUBItWwctO2xalKxF5szhGm8lccoc5MZr8kfE0uxMgsxz4er68'' @
     ''iCID+rsCAQM=''"

definition psiphonDefaultListURL :: string where
  "psiphonDefaultListURL = ''https://s3.amazonaws.com//psiphon/web/mjr4-p23r-puwl/server_list_compressed''"

definition psiphonConfig :: "config \<Rightarrow> json" where
  "psiphonConfig c =
     JObj ([(''PropagationChannelId'', JStr (orElse (cget c ''propagation_channel_id'') ''FFFFFFFFFFFFFFFF'')),
            (''SponsorId'', JStr (orElse (cget c ''sponsor_id'') ''FFFFFFFFFFFFFFFF'')),
            (''ClientPlatform'', JStr (orElse (cget c ''client_platform'') ''Linux_moav-client'')),
            (''LocalSocksProxyPort'', JNum 5400), (''LocalHttpProxyPort'', JNum 0),
            (''DisableLocalHTTPProxy'', JBool True), (''DataRootDirectory'', JStr ''/var/lib/psiphon''),
            (''EmitDiagnosticNotices'', JBool True), (''EmitBytesTransferred'', JBool True),
            (''UseIndistinguishableTLS'', JBool True),
            (''RemoteServerListSignaturePublicKey'',
               JStr (orElse (cget c ''remote_server_list_signature_public_key'') psiphonDefaultPubKey)),
            (''RemoteServerListUrl'', JStr (orElse (cget c ''remote_server_list_url'') psiphonDefaultListURL)),
            (''RemoteServerListDownloadFilename'', JStr ''remote_server_list'')] @
           (if cget c ''obfuscated_server_list_root_url'' \<noteq> [] then
              [(''ObfuscatedServerListRootURLs'',
                JArr [JObj [(''URL'', JStr (cget c ''obfuscated_server_list_root_url''))]])] else []) @
           optField ''EgressRegion'' (cget c ''egress_region''))"

definition writePsiphon :: "gen_env \<Rightarrow> string \<Rightarrow> config \<Rightarrow> gen_step" where
  "writePsiphon env base c =
     writeTo env [base, ''psiphon'', ''psiphon.config'']
       (if cget c ''config_json'' \<noteq> [] then cget c ''config_json'' else geMarshal env (psiphonConfig c))"

definition writeAmneziaWG :: "gen_env \<Rightarrow> string \<Rightarrow> config \<Rightarrow> gen_step" where
  "writeAmneziaWG env base c d =
     (let src = cget c ''source_path''
      in if src = [] then (d, True)
         else case d src of
                None \<Rightarrow> (d, False)
              | Some raw \<Rightarrow> writeTo env [base, ''amneziawg'', ''awg0.conf''] raw d)"

fun stripLines :: "bool \<Rightarrow> string list \<Rightarrow> string list" where
  "stripLines inListener [] = []"
| "stripLines inListener (line # ls) =
     (let t = trimSpace line;
          inL = (if hasPrefix t ''['' then hasPrefix t ''[listener'' else inListener)
      in if inL then stripLines inL ls else line # stripLines inL ls)"

definition stripListenerSections :: "string \<Rightarrow> string" where
  "stripListenerSections s = textLines (stripLines False (splitOn (CHR 0x0A) s))"

definition writeTrustTunnel :: "gen_env \<Rightarrow> string \<Rightarrow> config \<Rightarrow> gen_step" where
  "writeTrustTunnel env base c d =
     (let src = cget c ''source_path''
      in if src = [] then (d, True)
         else case d src of
                None \<Rightarrow> (d, False)
              | Some raw \<Rightarrow>
                  writeTo env [base, ''trusttunnel'', ''client.toml'']
                    (stripListenerSections raw @ [CHR 0x0A] @
                     textLines [''[listener.socks]'', ''address = '' @ quoted ''127.0.0.1:5601'']) d)"

definition generateConfigs :: "gen_env \<Rightarrow> string \<Rightarrow> sidecars_config \<Rightarrow> gen_step" where
  "generateConfigs env base c =
     stepThen (stepWhen (scEnabled (scMasterDNS c)) (writeMasterDNS env base (scConfig (scMasterDNS c))))
     (stepThen (stepWhen (scEnabled (scPsiphon c)) (writePsiphon env base (scConfig (scPsiphon c))))
     (stepThen (stepWhen (scEnabled (scAmneziaWG c)) (writeAmneziaWG env base (scConfig (scAmneziaWG c))))
       (stepWhen (scEnabled (scTrustTunnel c)) (writeTrustTunnel env base (scConfig (scTrustTunnel c))))))"

section \<open>The endpoints and the services\<close>

text \<open>
  The service started and stopped for a sidecar is the host its endpoint names, for every kind.
\<close>

lemma sidecar_services:
  "m \<in> set (sidecarMetas c) \<Longrightarrow> sidecarDockerService (smName m) = smHost m"
  by (auto simp: sidecarMetas_def sidecarDockerService_def Let_def toLower_def lowerChar_def)

lemma sidecarMetas_distinct: "distinct (map smName (sidecarMetas c))"
  by (simp add: sidecarMetas_def)

lemma enabledEndpoints_uris: "distinct (map RawURI (enabledEndpoints c))"
proof -
  have "distinct (map (\<lambda>m. RawURI (sidecarEndpoint m)) (sidecarMetas c))"
    by (simp add: sidecarMetas_def sidecarEndpoint_def dockerAddr_def)
  then show ?thesis
    by (simp add: enabledEndpoints_def comp_def distinct_map_filter)
qed

lemma enabledEndpoints_ids: "distinct (map ID (enabledEndpoints c))"
  using sidecarMetas_distinct [of c]
  by (simp add: enabledEndpoints_def comp_def sidecarEndpoint_def distinct_map_filter distinct_map inj_on_def)

lemma enabledEndpoints_protocol: "e \<in> set (enabledEndpoints c) \<Longrightarrow> Protocol e = ''sidecar''"
  by (auto simp: enabledEndpoints_def sidecarEndpoint_def)

section \<open>The listener sections\<close>

text \<open>
  A TOML text as the lines before its first header and the sections, each with its header line.
\<close>

definition isHeader :: "string \<Rightarrow> bool" where
  "isHeader line \<longleftrightarrow> hasPrefix (trimSpace line) ''[''"

definition isListener :: "string \<Rightarrow> bool" where
  "isListener line \<longleftrightarrow> hasPrefix (trimSpace line) ''[listener''"

lemma isListener_header: "isListener line \<Longrightarrow> isHeader line"
  by (auto simp: isListener_def isHeader_def hasPrefix_append)

lemma stripLines_body: "\<forall>l \<in> set ls. \<not> isHeader l \<Longrightarrow> stripLines b (ls @ rest) = (if b then [] else ls) @ stripLines b rest"
  by (induction ls) (auto simp: isHeader_def Let_def)

text \<open>
  The text is its preamble followed by its sections, and \<open>stripListenerSections\<close> drops exactly the
  sections whose header begins with \<open>[listener\<close>.
\<close>

lemma strip_listener_sections:
  assumes "\<forall>l \<in> set pre. \<not> isHeader l" "\<forall>(h, ls) \<in> set secs. isHeader h \<and> (\<forall>l \<in> set ls. \<not> isHeader l)"
  shows "stripLines False (pre @ concat (map (\<lambda>(h, ls). h # ls) secs)) =
    pre @ concat (map (\<lambda>(h, ls). h # ls) (filter (\<lambda>(h, ls). \<not> isListener h) secs))"
proof -
  have "stripLines b (concat (map (\<lambda>(h, ls). h # ls) secs)) =
      concat (map (\<lambda>(h, ls). h # ls) (filter (\<lambda>(h, ls). \<not> isListener h) secs))" for b
    using assms(2)
  proof (induction secs arbitrary: b)
    case (Cons s secs)
    obtain h ls where s: "s = (h, ls)" by (cases s)
    have h: "isHeader h" "\<forall>l \<in> set ls. \<not> isHeader l" using Cons.prems s by auto
    have "stripLines b (h # ls @ rest) = (if isListener h then [] else h # ls) @ stripLines (isListener h) rest" for rest
      using h(1) stripLines_body [OF h(2), of "isListener h" rest]
      by (cases "isListener h") (simp_all add: isHeader_def isListener_def Let_def)
    then show ?case using Cons s by simp
  qed simp
  then show ?thesis using stripLines_body [OF assms(1)] by simp
qed

end
