(* ===== verification/Singbox.thy ===== *)
theory Singbox
  imports Generators
begin

text \<open>
  The sing-box configuration (\<open>singbox/generator.go\<close>): one local SOCKS5 inbound per endpoint
  sing-box can dial, an outbound (for WireGuard an endpoint block) and a route rule between
  the two.
\<close>

section \<open>Outbounds\<close>

definition commaList :: "string \<Rightarrow> json" where
  "commaList s = strings (splitOn (CHR '','') s)"

definition normalizeFingerprint :: "string \<Rightarrow> string" where
  "normalizeFingerprint fp = (if fp = [] \<or> fp = ''random'' then ''chrome'' else fp)"

text \<open>\<open>None\<close>: unsupported; \<open>Some None\<close>: plain TCP, no transport block.\<close>

definition transportFromConfig :: "config \<Rightarrow> json option option" where
  "transportFromConfig c =
     (let nt = (if cget c ''net'' = [] then cget c ''type'' else cget c ''net'')
      in if nt = [] \<or> nt = ''tcp'' then Some None
         else if nt = ''ws'' then
           Some (Some (JObj ([(''type'', JStr ''ws'')] @ optField ''path'' (cget c ''path'') @
             (if cget c ''host'' \<noteq> [] then [(''headers'', JObj [(''Host'', JStr (cget c ''host''))])] else []))))
         else if nt = ''grpc'' then
           Some (Some (JObj [(''type'', JStr ''grpc''), (''service_name'', JStr (cget c ''path''))]))
         else if nt = ''http'' \<or> nt = ''h2'' then
           Some (Some (JObj ([(''type'', JStr ''http'')] @
             (if cget c ''host'' \<noteq> [] then [(''host'', commaList (cget c ''host''))] else []) @
             optField ''path'' (cget c ''path''))))
         else if nt = ''httpupgrade'' then
           Some (Some (JObj ([(''type'', JStr ''httpupgrade'')] @ optField ''path'' (cget c ''path'') @
             optField ''host'' (cget c ''host''))))
         else None)"

definition withTransport :: "config \<Rightarrow> (string \<times> json) list \<Rightarrow> json option" where
  "withTransport c ob =
     (case transportFromConfig c of
        None \<Rightarrow> None
      | Some None \<Rightarrow> Some (JObj ob)
      | Some (Some t) \<Rightarrow> Some (JObj (ob @ [(''transport'', t)])))"

definition serverFields :: "string \<Rightarrow> string \<Rightarrow> int \<Rightarrow> (string \<times> json) list" where
  "serverFields t h p = [(''type'', JStr t), (''server'', JStr h), (''server_port'', JNum p)]"

definition tlsBase :: "config \<Rightarrow> (string \<times> json) list" where
  "tlsBase c =
     [(''enabled'', JBool True), (''server_name'', JStr (cget c ''sni''))] @
     (if cget c ''alpn'' \<noteq> [] then [(''alpn'', commaList (cget c ''alpn''))] else []) @
     (if cget c ''fp'' \<noteq> [] then
        [(''utls'', JObj [(''enabled'', JBool True),
                          (''fingerprint'', JStr (normalizeFingerprint (cget c ''fp'')))])] else [])"

definition vlessOutbound :: "config \<Rightarrow> string \<Rightarrow> int \<Rightarrow> json option" where
  "vlessOutbound c h p =
     (let security = cget c ''security''
      in withTransport c
           (serverFields ''vless'' h p @ [(''uuid'', JStr (cget c ''uuid''))] @ optField ''flow'' (cget c ''flow'') @
            (if security = ''tls'' \<or> security = ''reality'' then
               [(''tls'', JObj (tlsBase c @
                  (if security = ''reality'' then
                     [(''reality'', JObj [(''enabled'', JBool True), (''public_key'', JStr (cget c ''pbk'')),
                                          (''short_id'', JStr (cget c ''sid''))])] else [])))]
             else [])))"

definition trojanOutbound :: "config \<Rightarrow> string \<Rightarrow> int \<Rightarrow> json option" where
  "trojanOutbound c h p =
     withTransport c
       (serverFields ''trojan'' h p @ [(''password'', JStr (cget c ''password''))] @
        (if cget c ''security'' = ''tls'' \<or> cget c ''security'' = [] then [(''tls'', JObj (tlsBase c))] else []))"

definition insecureFlag :: "config \<Rightarrow> bool" where
  "insecureFlag c \<longleftrightarrow> cget c ''insecure'' = ''1'' \<or> cget c ''insecure'' = ''true''"

definition anytlsOutbound :: "config \<Rightarrow> string \<Rightarrow> int \<Rightarrow> json option" where
  "anytlsOutbound c h p =
     Some (JObj (serverFields ''anytls'' h p @
       [(''password'', JStr (cget c ''password'')),
        (''tls'', JObj ([(''enabled'', JBool True), (''server_name'', JStr (cget c ''sni'')),
            (''insecure'', JBool (insecureFlag c)),
            (''utls'', JObj [(''enabled'', JBool True), (''fingerprint'', JStr ''random'')])] @
            (if cget c ''alpn'' \<noteq> [] then [(''alpn'', commaList (cget c ''alpn''))] else [])))]))"

definition ssOutbound :: "config \<Rightarrow> string \<Rightarrow> int \<Rightarrow> json option" where
  "ssOutbound c h p =
     Some (JObj (serverFields ''shadowsocks'' h p @
       [(''method'', JStr (cget c ''method'')), (''password'', JStr (cget c ''password''))]))"

definition hysteria2Outbound :: "config \<Rightarrow> string \<Rightarrow> int \<Rightarrow> json option" where
  "hysteria2Outbound c h p =
     Some (JObj (serverFields ''hysteria2'' h p @
       [(''password'', JStr (cget c ''auth'')),
        (''tls'', JObj [(''enabled'', JBool True), (''server_name'', JStr (cget c ''sni'')),
                        (''insecure'', JBool (insecureFlag c))])] @
       (if cget c ''obfs'' \<noteq> [] then
          [(''obfs'', JObj [(''type'', JStr (cget c ''obfs'')), (''password'', JStr (cget c ''obfs_password''))])]
        else [])))"

definition vmessOutbound :: "config \<Rightarrow> string \<Rightarrow> int \<Rightarrow> json option" where
  "vmessOutbound c h p =
     withTransport c
       (serverFields ''vmess'' h p @ [(''uuid'', JStr (cget c ''uuid'')), (''security'', JStr ''auto'')] @
        (if cget c ''tls'' = ''tls'' then
           [(''tls'', JObj [(''enabled'', JBool True), (''server_name'', JStr (cget c ''host''))])] else []))"

definition tuicOutbound :: "config \<Rightarrow> string \<Rightarrow> int \<Rightarrow> json option" where
  "tuicOutbound c h p =
     Some (JObj (serverFields ''tuic'' h p @
       [(''uuid'', JStr (cget c ''uuid'')), (''password'', JStr (cget c ''password'')),
        (''congestion_control'', JStr (cget c ''congestion'')),
        (''udp_relay_mode'', JStr (cget c ''udp_relay_mode'')),
        (''tls'', JObj [(''enabled'', JBool True), (''server_name'', JStr (cget c ''sni''))])]))"

definition sbApplySpoof :: "endpoint \<Rightarrow> json \<Rightarrow> json" where
  "sbApplySpoof ep ob =
     (let via = cget (Config ep) ''spoof_via''
      in if via = [] then ob
         else if cget (Config ep) ''security'' = ''reality'' then ob
         else case splitHostPortInt via of
                None \<Rightarrow> ob
              | Some (h, p) \<Rightarrow> jset ''server_port'' (JNum p) (jset ''server'' (JStr h) ob))"

definition sbOutbound :: "endpoint \<Rightarrow> json option" where
  "sbOutbound ep =
     (case splitHostPortInt (Address ep) of
        None \<Rightarrow> None
      | Some (h, p) \<Rightarrow>
          (let c = Config ep
           in map_option (sbApplySpoof ep)
                (if Protocol ep = ''vless'' then vlessOutbound c h p
                 else if Protocol ep = ''trojan'' then trojanOutbound c h p
                 else if Protocol ep = ''anytls'' then anytlsOutbound c h p
                 else if Protocol ep = ''ss'' then ssOutbound c h p
                 else if Protocol ep = ''hysteria2'' then hysteria2Outbound c h p
                 else if Protocol ep = ''vmess'' then vmessOutbound c h p
                 else if Protocol ep = ''tuic'' then tuicOutbound c h p
                 else None)))"

definition splitNonEmpty :: "string \<Rightarrow> string list" where
  "splitNonEmpty s = (if s = [] then [] else filter (\<lambda>p. p \<noteq> []) (map trimSpace (splitOn (CHR '','') s)))"

definition wireguardEndpointBlock :: "endpoint \<Rightarrow> json option" where
  "wireguardEndpointBlock ep =
     (case splitHostPortInt (Address ep) of
        None \<Rightarrow> None
      | Some (h, p) \<Rightarrow>
          (let c = Config ep;
               addrs = splitNonEmpty (cget c ''address'');
               allowed = splitNonEmpty (cget c ''allowed_ips'')
           in if cget c ''private_key'' = [] \<or> cget c ''public_key'' = [] then None
              else Some (JObj
                [(''type'', JStr ''wireguard''),
                 (''address'', strings (if addrs = [] then [''172.16.0.2/32''] else addrs)),
                 (''private_key'', JStr (cget c ''private_key'')),
                 (''mtu'', JNum (case strconvAtoi (cget c ''mtu'') of Some v \<Rightarrow> if 0 < v then v else 1408 | None \<Rightarrow> 1408)),
                 (''peers'', JArr [JObj
                    ([(''address'', JStr h), (''port'', JNum p), (''public_key'', JStr (cget c ''public_key'')),
                      (''allowed_ips'', strings (if allowed = [] then [''0.0.0.0/0''] else allowed))] @
                     optField ''pre_shared_key'' (cget c ''psk''))])])))"

section \<open>The configuration\<close>

text \<open>What the loop does with one endpoint: skip it, or give it a tagged block.\<close>

datatype sb_claim = SbSkip | SbWireguard json | SbOutbound json

definition sbClaim :: "endpoint \<Rightarrow> sb_claim" where
  "sbClaim ep =
     (if Protocol ep = ''sidecar'' then SbSkip
      else if Protocol ep = ''wireguard'' then
        (case wireguardEndpointBlock ep of None \<Rightarrow> SbSkip | Some b \<Rightarrow> SbWireguard b)
      else (case sbOutbound ep of None \<Rightarrow> SbSkip | Some ob \<Rightarrow> SbOutbound ob))"

record sb_acc =
  sbInbounds :: "json list"
  sbOutbounds :: "json list"
  sbEndpoints :: "json list"
  sbRules :: "json list"

definition sbInbound :: "gen_config \<Rightarrow> nat \<Rightarrow> int \<Rightarrow> json" where
  "sbInbound cfg i port =
     JObj [(''type'', JStr ''socks''), (''tag'', JStr (epTag ''in-'' i)), (''listen'', JStr (ListenHost cfg)),
           (''listen_port'', JNum port)]"

definition sbRule :: "string \<Rightarrow> nat \<Rightarrow> json" where
  "sbRule pre i = JObj [(''inbound'', strings [epTag ''in-'' i]), (''outbound'', JStr (epTag pre i))]"

fun sbLoop :: "gen_config \<Rightarrow> nat \<Rightarrow> int \<Rightarrow> endpoint list \<Rightarrow> sb_acc \<Rightarrow> sb_acc \<times> endpoint list" where
  "sbLoop cfg i port [] acc = (acc, [])"
| "sbLoop cfg i port (ep # eps) acc =
     (case sbClaim ep of
        SbSkip \<Rightarrow> (case sbLoop cfg (Suc i) port eps acc of (a, us) \<Rightarrow> (a, ep # us))
      | SbWireguard b \<Rightarrow>
          (let acc' = acc\<lparr>sbEndpoints := sbEndpoints acc @ [jset ''tag'' (JStr (epTag ''wg-'' i)) b],
                          sbInbounds := sbInbounds acc @ [sbInbound cfg i port],
                          sbRules := sbRules acc @ [sbRule ''wg-'' i]\<rparr>
           in case sbLoop cfg (Suc i) (port + 1) eps acc' of
                (a, us) \<Rightarrow> (a, pin ''socks5_addr'' (DialHost cfg) port ep # us))
      | SbOutbound ob \<Rightarrow>
          (let acc' = acc\<lparr>sbOutbounds := sbOutbounds acc @ [jset ''tag'' (JStr (epTag ''out-'' i)) ob],
                          sbInbounds := sbInbounds acc @ [sbInbound cfg i port],
                          sbRules := sbRules acc @ [sbRule ''out-'' i]\<rparr>
           in case sbLoop cfg (Suc i) (port + 1) eps acc' of
                (a, us) \<Rightarrow> (a, pin ''socks5_addr'' (DialHost cfg) port ep # us)))"

definition sbRoot :: "sb_acc \<Rightarrow> json" where
  "sbRoot a =
     JObj ([(''log'', JObj [(''level'', JStr ''info''), (''timestamp'', JBool True)]),
            (''inbounds'', JArr (sbInbounds a)),
            (''outbounds'', JArr (sbOutbounds a @ [JObj [(''type'', JStr ''direct''), (''tag'', JStr ''out-direct'')]])),
            (''route'', JObj [(''rules'', JArr (sbRules a)), (''final'', JStr ''out-direct''),
                              (''auto_detect_interface'', JBool False)])] @
           (if sbEndpoints a \<noteq> [] then [(''endpoints'', JArr (sbEndpoints a))] else []))"

definition sbGenerate :: "endpoint list \<Rightarrow> gen_config \<Rightarrow> json \<times> endpoint list" where
  "sbGenerate eps cfg0 =
     (let cfg = genDefaults 10800 cfg0;
          (a, us) = sbLoop cfg 0 (BasePort cfg) eps \<lparr>sbInbounds = [], sbOutbounds = [], sbEndpoints = [], sbRules = []\<rparr>
      in (sbRoot a, us))"

section \<open>Ports\<close>

definition sbClaims :: "endpoint \<Rightarrow> bool" where
  "sbClaims ep \<longleftrightarrow> sbClaim ep \<noteq> SbSkip"

text \<open>The accumulator does not influence the endpoints.\<close>

lemma sbLoop_acc: "snd (sbLoop cfg i p es a) = snd (sbLoop cfg i p es b)"
  by (induction es arbitrary: i p a b)
    (auto simp: Let_def case_prod_unfold split: sb_claim.split)

definition sbRun :: "gen_config \<Rightarrow> nat \<Rightarrow> int \<Rightarrow> endpoint list \<Rightarrow> endpoint list" where
  "sbRun cfg i p es = snd (sbLoop cfg i p es \<lparr>sbInbounds = [], sbOutbounds = [], sbEndpoints = [], sbRules = []\<rparr>)"

lemma sbLoop_run: "snd (sbLoop cfg i p es a) = sbRun cfg i p es"
  unfolding sbRun_def by (rule sbLoop_acc)

interpretation sb_alloc: port_alloc sbRun "\<lambda>_. sbClaims" "''socks5_addr''" DialHost
proof
  show "sbRun c i p [] = []" for c i p by (simp add: sbRun_def)
  show "\<not> sbClaims e \<Longrightarrow> sbRun c i p (e # es) = e # sbRun c (Suc i) p es" for c i p e es
    by (simp add: sbRun_def sbClaims_def case_prod_unfold)
  show "sbClaims e \<Longrightarrow> sbRun c i p (e # es) = pin ''socks5_addr'' (DialHost c) p e # sbRun c (Suc i) (p + 1) es" for c i p e es
    by (cases "sbClaim e") (auto simp: sbRun_def sbClaims_def case_prod_unfold Let_def intro: sbLoop_acc)
qed

section \<open>Where a port leads\<close>

text \<open>
  The meaning of a sing-box configuration for a client of one of its ports: the inbound that
  listens there, the first rule for that inbound (or \<open>final\<close>), and the block with that tag.
\<close>

definition sbTarget :: "json \<Rightarrow> int \<Rightarrow> json option" where
  "sbTarget root port =
     (case find (\<lambda>j. jget j ''listen_port'' = Some (JNum port)) (items root ''inbounds'') of
        None \<Rightarrow> None
      | Some ib \<Rightarrow>
          (case (jget ib ''tag'', jget root ''route'') of
             (Some t, Some route) \<Rightarrow>
               (let out = (case find (\<lambda>r. t \<in> set (items r ''inbound'')) (items route ''rules'') of
                             Some r \<Rightarrow> jget r ''outbound'' | None \<Rightarrow> jget route ''final'')
                in find (\<lambda>j. jget j ''tag'' = out) (items root ''outbounds'' @ items root ''endpoints''))
           | _ \<Rightarrow> None))"

definition sbPre :: "endpoint \<Rightarrow> string" where
  "sbPre ep = (case sbClaim ep of SbWireguard _ \<Rightarrow> ''wg-'' | _ \<Rightarrow> ''out-'')"

definition sbBlock :: "endpoint \<Rightarrow> json" where
  "sbBlock ep = (case sbClaim ep of SbWireguard b \<Rightarrow> b | SbOutbound b \<Rightarrow> b | SbSkip \<Rightarrow> JObj [])"

definition sbTagged :: "nat \<times> int \<times> endpoint \<Rightarrow> json" where
  "sbTagged x = (case x of (i, p, e) \<Rightarrow> jset ''tag'' (JStr (epTag (sbPre e) i)) (sbBlock e))"

lemma sbLoop_lists:
  "fst (sbLoop cfg i p es acc) =
     \<lparr>sbInbounds = sbInbounds acc @ map (\<lambda>(i, p, e). sbInbound cfg i p) (allocs sbClaims i p es),
      sbOutbounds = sbOutbounds acc @ map sbTagged (filter (\<lambda>(i, p, e). sbPre e = ''out-'') (allocs sbClaims i p es)),
      sbEndpoints = sbEndpoints acc @ map sbTagged (filter (\<lambda>(i, p, e). sbPre e = ''wg-'') (allocs sbClaims i p es)),
      sbRules = sbRules acc @ map (\<lambda>(i, p, e). sbRule (sbPre e) i) (allocs sbClaims i p es)\<rparr>"
proof (induction es arbitrary: i p acc)
  case Nil
  then show ?case by simp
next
  case (Cons e es)
  then show ?case
    by (cases "sbClaim e")
      (simp_all add: sbClaims_def sbPre_def sbTagged_def sbBlock_def Let_def case_prod_unfold)
qed

lemma isObj_withTransport: "withTransport c kvs = Some j \<Longrightarrow> isObj j"
  by (auto simp: withTransport_def split: option.splits)

lemma isObj_sbApplySpoof [simp]: "isObj (sbApplySpoof ep j) = isObj j"
  by (simp add: sbApplySpoof_def Let_def split: option.split)

lemma sbOutbound_isObj: "sbOutbound ep = Some ob \<Longrightarrow> isObj ob"
  by (auto simp: sbOutbound_def Let_def vlessOutbound_def trojanOutbound_def anytlsOutbound_def ssOutbound_def
      hysteria2Outbound_def vmessOutbound_def tuicOutbound_def split: option.splits if_splits dest: isObj_withTransport)

lemma sbBlock_isObj: "sbClaims e \<Longrightarrow> isObj (sbBlock e)"
  by (auto simp: sbClaims_def sbBlock_def sbClaim_def wireguardEndpointBlock_def Let_def sbOutbound_isObj
      split: sb_claim.splits option.splits if_splits prod.splits)

lemma sbPre_cases: "sbPre e = ''out-'' \<or> sbPre e = ''wg-''"
  by (simp add: sbPre_def split: sb_claim.split)

lemma sbTagged_tag: "sbClaims e \<Longrightarrow> jget (sbTagged (i, p, e)) ''tag'' = Some (JStr (epTag (sbPre e) i))"
  by (simp add: sbTagged_def sbBlock_isObj)

lemma sb_tag_found:
  assumes "(i, q, e) \<in> set (allocs sbClaims n p es)" (is "?x \<in> set ?L")
  shows "find (\<lambda>j. jget j ''tag'' = Some (JStr (epTag (sbPre e) i)))
      (map sbTagged (filter (\<lambda>(i, p, e). sbPre e = ''out-'') ?L) @
       JObj [(''type'', JStr ''direct''), (''tag'', JStr ''out-direct'')] #
       map sbTagged (filter (\<lambda>(i, p, e). sbPre e = ''wg-'') ?L)) = Some (sbTagged ?x)" (is "find ?P _ = _")
proof -
  have tag: "jget (sbTagged y) ''tag'' = Some (JStr (epTag (sbPre (snd (snd y))) (fst y)))" if "y \<in> set ?L" for y
  proof -
    obtain m r d where y: "y = (m, r, d)" by (rule prod_cases3)
    then have "sbClaims d" using allocs_bounds [of m r d sbClaims n p es] that by simp
    then show ?thesis by (simp add: y sbTagged_tag)
  qed
  have sel: "find ?P (map sbTagged (filter (\<lambda>(j, p, d). sbPre d = sbPre e) ?L)) = Some (sbTagged ?x)"
  proof (rule find_map_distinct [where k = fst])
    show "distinct (map fst (filter (\<lambda>(j, p, d). sbPre d = sbPre e) ?L))"
      using allocs_distinct(1) distinct_map_filter by blast
    show "?x \<in> set (filter (\<lambda>(j, p, d). sbPre d = sbPre e) ?L)" using assms by simp
    show "?P (sbTagged y) \<longleftrightarrow> fst y = fst ?x" if "y \<in> set (filter (\<lambda>(j, p, d). sbPre d = sbPre e) ?L)" for y
      using that tag [of y] by (simp add: case_prod_unfold)
  qed
  show ?thesis
  proof (cases "sbPre e = ''out-''")
    case True
    then show ?thesis using sel by (simp add: find_append)
  next
    case False
    then have wg: "sbPre e = ''wg-''" using sbPre_cases by blast
    have "\<not> ?P (sbTagged y)" if "y \<in> set (filter (\<lambda>(i, p, e). sbPre e = ''out-'') ?L)" for y
      using that tag [of y] by (simp add: case_prod_unfold wg epTag_def)
    then have "find ?P (map sbTagged (filter (\<lambda>(i, p, e). sbPre e = ''out-'') ?L)) = None"
      unfolding find_None_iff by auto
    then show ?thesis using sel by (simp add: wg find_append epTag_def)
  qed
qed

text \<open>
  C20. Every endpoint sing-box can dial gets its own port, and the generated configuration
  leads from that port to that endpoint's outbound (or WireGuard block) and no other; the
  endpoint is pinned to the port, the other endpoints are returned as they came.
\<close>

theorem singbox_routes:
  assumes "sbGenerate eps cfg = (root, us)" "i < length eps"
  defines "port \<equiv> sb_alloc.portAt (genDefaults 10800 cfg) (BasePort (genDefaults 10800 cfg)) eps i"
  shows "length us = length eps \<and>
    (if sbClaims (eps ! i) then
       us ! i = pin ''socks5_addr'' (DialHost (genDefaults 10800 cfg)) port (eps ! i) \<and>
       sbTarget root port = Some (sbTagged (i, port, eps ! i))
     else us ! i = eps ! i)"
proof -
  let ?cfg = "genDefaults 10800 cfg"
  let ?L = "allocs sbClaims 0 (BasePort ?cfg) eps"
  let ?acc = "\<lparr>sbInbounds = [], sbOutbounds = [], sbEndpoints = [], sbRules = []\<rparr>"
  have us: "us = sbRun ?cfg 0 (BasePort ?cfg) eps"
    and root: "root = sbRoot (fst (sbLoop ?cfg 0 (BasePort ?cfg) eps ?acc))"
    using assms(1) by (simp_all add: sbGenerate_def Let_def case_prod_unfold sbRun_def)
  show ?thesis
  proof (cases "sbClaims (eps ! i)")
    case False
    then show ?thesis using us assms(2) by (simp add: sb_alloc.run_nth)
  next
    case True
    let ?e = "eps ! i" and ?x = "(i, port, eps ! i)"
    have x: "?x \<in> set ?L"
      using allocs_nth [OF assms(2), of sbClaims 0 "BasePort ?cfg"] True by (simp add: port_def sb_alloc.portAt_def)
    have ins: "items root ''inbounds'' = map (\<lambda>(i, p, e). sbInbound ?cfg i p) ?L"
      and outs: "items root ''outbounds'' = map sbTagged (filter (\<lambda>(i, p, e). sbPre e = ''out-'') ?L) @
            [JObj [(''type'', JStr ''direct''), (''tag'', JStr ''out-direct'')]]"
      and ends: "items root ''endpoints'' = map sbTagged (filter (\<lambda>(i, p, e). sbPre e = ''wg-'') ?L)"
      and route: "jget root ''route'' = Some (JObj [(''rules'', JArr (map (\<lambda>(i, p, e). sbRule (sbPre e) i) ?L)),
          (''final'', JStr ''out-direct''), (''auto_detect_interface'', JBool False)])"
      by (simp_all add: root sbRoot_def items_def sbLoop_lists)
    have "find (\<lambda>j. jget j ''listen_port'' = Some (JNum port)) (items root ''inbounds'') = Some (sbInbound ?cfg i port)"
      using find_map_distinct [OF allocs_distinct(2) x, of "\<lambda>j. jget j ''listen_port'' = Some (JNum port)"
          "\<lambda>(i, p, e). sbInbound ?cfg i p"]
      unfolding ins by (simp add: sbInbound_def case_prod_unfold)
    moreover have "find (\<lambda>r. JStr (epTag ''in-'' i) \<in> set (items r ''inbound'')) (map (\<lambda>(i, p, e). sbRule (sbPre e) i) ?L)
        = Some (sbRule (sbPre ?e) i)"
      using find_map_distinct [OF allocs_distinct(1) x, of "\<lambda>r. JStr (epTag ''in-'' i) \<in> set (items r ''inbound'')"
          "\<lambda>(i, p, e). sbRule (sbPre e) i"]
      by (auto simp: sbRule_def items_def strings_def case_prod_unfold)
    moreover have "find (\<lambda>j. jget j ''tag'' = Some (JStr (epTag (sbPre ?e) i))) (items root ''outbounds'' @ items root ''endpoints'')
        = Some (sbTagged ?x)"
      using sb_tag_found [OF x] by (simp add: outs ends)
    ultimately have "sbTarget root port = Some (sbTagged ?x)"
      by (simp add: sbTarget_def route Let_def sbInbound_def sbRule_def items_def [of "JObj _"])
    moreover have "us ! i = pin ''socks5_addr'' (DialHost ?cfg) port ?e"
      using us assms(2) True by (simp add: sb_alloc.run_nth port_def)
    ultimately show ?thesis using True us by simp
  qed
qed

text \<open>A Shadowsocks endpoint behind one that sing-box leaves to Xray.\<close>

definition exampleEps :: "endpoint list" where
  "exampleEps =
     [fresh_endpoint ''vless'' ''a.test:443'' ''a'' ''vless://a'' [''net'' \<mapsto> ''xhttp'', ''uuid'' \<mapsto> ''u''],
      fresh_endpoint ''ss'' ''b.test:8388'' ''b'' ''ss://b'' [''method'' \<mapsto> ''aes-128-gcm'', ''password'' \<mapsto> ''p'']]"

definition exampleCfg :: "string \<Rightarrow> gen_config" where
  "exampleCfg dh = \<lparr>ListenHost = [], DialHost = dh, BasePort = 0\<rparr>"

lemma exampleEps_claims:
  "\<not> sbClaims (exampleEps ! 0)" "sbClaims (exampleEps ! 1)" "length exampleEps = 2"
  by code_simp+

lemma singbox_routes_witness:
  "case sbGenerate exampleEps (exampleCfg ''singbox'') of (root, us) \<Rightarrow>
     length us = 2 \<and> cget (Config (us ! 1)) ''socks5_addr'' = ''singbox:10800'' \<and>
     sbTarget root 10800 = Some (sbTagged (1, 10800, exampleEps ! 1))"
proof -
  obtain root us where r: "sbGenerate exampleEps (exampleCfg ''singbox'') = (root, us)" by fastforce
  have port: "sb_alloc.portAt (genDefaults 10800 (exampleCfg ''singbox''))
      (BasePort (genDefaults 10800 (exampleCfg ''singbox''))) exampleEps 1 = 10800"
    using exampleEps_claims(1)
    by (simp add: sb_alloc.portAt_def genDefaults_def exampleCfg_def exampleEps_def)
  have "DialHost (genDefaults 10800 (exampleCfg ''singbox'')) = ''singbox''"
    by (simp add: genDefaults_def exampleCfg_def)
  moreover have "joinHostPort ''singbox'' (strconvItoa 10800) = ''singbox:10800''"
    by (simp add: joinHostPort_def strconvItoa_def natDigits.simps)
  ultimately show ?thesis
    using singbox_routes [OF r, of 1] exampleEps_claims(2,3) unfolding port
    by (simp add: r pin_def)
qed

end
