(* ===== verification/Xray.thy ===== *)
theory Xray
  imports Singbox
begin

text \<open>
  The Xray configuration (\<open>xray/generator.go\<close>) for the endpoints sing-box cannot dial:
  Xray-only transports of VLESS, and Telegram's MTProxy.
\<close>

section \<open>Outbounds\<close>

definition xrDefault :: "string \<Rightarrow> string \<Rightarrow> string" where
  "xrDefault v fallback = (if v = [] then fallback else v)"

definition normFP :: "string \<Rightarrow> string" where
  "normFP s = (if s = [] \<or> s = ''random'' then ''chrome'' else s)"

definition xrHandles :: "endpoint \<Rightarrow> bool" where
  "xrHandles ep =
     (if Protocol ep = ''sidecar'' then False
      else if Protocol ep = ''mtproxy'' then True
      else (let c = Config ep; nt = (if cget c ''net'' = [] then cget c ''type'' else cget c ''net'')
            in nt \<in> {''xhttp'', ''splithttp'', ''raw''}))"

definition mtproxyOutbound :: "endpoint \<Rightarrow> string \<Rightarrow> int \<Rightarrow> json" where
  "mtproxyOutbound ep h p =
     JObj [(''protocol'', JStr ''mtproto''),
           (''settings'', JObj [(''servers'', JArr [JObj
              [(''address'', JStr h), (''port'', JNum p),
               (''users'', JArr [JObj [(''secret'', JStr (cget (Config ep) ''secret''))]])]])])]"

text \<open>
  The code's second look at an empty \<open>network\<close> never fires, the default having been put in.
\<close>

definition streamSettings :: "config \<Rightarrow> json" where
  "streamSettings c =
     (let network = xrDefault (cget c ''net'') ''tcp'';
          fingerprint = xrDefault (normFP (cget c ''fp'')) ''chrome'';
          security = cget c ''security''
      in JObj ([(''network'', JStr network)] @
           (if security = ''reality'' then
              [(''security'', JStr ''reality''),
               (''realitySettings'', JObj
                  [(''serverName'', JStr (cget c ''sni'')), (''fingerprint'', JStr fingerprint),
                   (''publicKey'', JStr (cget c ''pbk'')), (''shortId'', JStr (cget c ''sid'')),
                   (''spiderX'', JStr ''/'')])]
            else if security = ''tls'' then
              [(''security'', JStr ''tls''),
               (''tlsSettings'', JObj
                  ([(''serverName'', JStr (cget c ''sni'')), (''fingerprint'', JStr fingerprint)] @
                   (if cget c ''alpn'' \<noteq> [] then [(''alpn'', commaList (cget c ''alpn''))] else [])))]
            else []) @
           (if network = ''xhttp'' \<or> network = ''splithttp'' then
              [(''xhttpSettings'', JObj
                  [(''path'', JStr (xrDefault (cget c ''path'') ''/'')), (''host'', JStr (cget c ''host'')),
                   (''mode'', JStr (xrDefault (cget c ''mode'') ''auto''))])]
            else if network = ''ws'' then
              [(''wsSettings'', JObj
                  [(''path'', JStr (xrDefault (cget c ''path'') ''/'')),
                   (''headers'', JObj [(''Host'', JStr (cget c ''host''))])])]
            else [])))"

definition xrVlessOutbound :: "endpoint \<Rightarrow> string \<Rightarrow> int \<Rightarrow> json" where
  "xrVlessOutbound ep h p =
     (let c = Config ep;
          usr = JObj ([(''id'', JStr (cget c ''uuid'')),
                       (''encryption'', JStr (xrDefault (cget c ''encryption'') ''none''))] @
                      optField ''flow'' (cget c ''flow''))
      in JObj [(''protocol'', JStr ''vless''),
               (''settings'', JObj [(''vnext'', JArr [JObj
                  [(''address'', JStr h), (''port'', JNum p), (''users'', JArr [usr])]])]),
               (''streamSettings'', streamSettings c)])"

text \<open>Redirect the first entry of \<open>settings.vnext\<close> and of \<open>settings.servers\<close>.\<close>

fun setAddr :: "string \<Rightarrow> int \<Rightarrow> json \<Rightarrow> json" where
  "setAddr h p (JObj kvs) = jset ''port'' (JNum p) (jset ''address'' (JStr h) (JObj kvs))"
| "setAddr h p j = j"

fun onHead :: "(json \<Rightarrow> json) \<Rightarrow> json \<Rightarrow> json" where
  "onHead f (JArr (x # xs)) = JArr (f x # xs)"
| "onHead f j = j"

definition onField :: "string \<Rightarrow> (json \<Rightarrow> json) \<Rightarrow> json \<Rightarrow> json" where
  "onField k f j = (case jget j k of Some v \<Rightarrow> jset k (f v) j | None \<Rightarrow> j)"

definition xrApplySpoof :: "endpoint \<Rightarrow> json \<Rightarrow> json" where
  "xrApplySpoof ep ob =
     (let via = cget (Config ep) ''spoof_via''
      in if via = [] then ob
         else if cget (Config ep) ''security'' = ''reality'' then ob
         else case splitHostPortInt via of
                None \<Rightarrow> ob
              | Some (h, p) \<Rightarrow>
                  onField ''settings''
                    (\<lambda>s. onField ''servers'' (onHead (setAddr h p)) (onField ''vnext'' (onHead (setAddr h p)) s)) ob)"

definition xrOutbound :: "endpoint \<Rightarrow> json option" where
  "xrOutbound ep =
     (case splitHostPortInt (Address ep) of
        None \<Rightarrow> None
      | Some (h, p) \<Rightarrow>
          map_option (xrApplySpoof ep)
            (if Protocol ep = ''vless'' then Some (xrVlessOutbound ep h p)
             else if Protocol ep = ''mtproxy'' then Some (mtproxyOutbound ep h p)
             else None))"

section \<open>The configuration\<close>

definition xrClaim :: "endpoint \<Rightarrow> json option" where
  "xrClaim ep = (if \<not> xrHandles ep then None else xrOutbound ep)"

record xr_acc =
  xrInbounds :: "json list"
  xrOutbounds :: "json list"
  xrRules :: "json list"

definition xrInbound :: "gen_config \<Rightarrow> nat \<Rightarrow> int \<Rightarrow> json" where
  "xrInbound cfg i port =
     JObj [(''tag'', JStr (epTag ''in-'' i)), (''listen'', JStr (ListenHost cfg)), (''port'', JNum port),
           (''protocol'', JStr ''socks''),
           (''settings'', JObj [(''auth'', JStr ''noauth''), (''udp'', JBool True)])]"

definition xrRule :: "nat \<Rightarrow> json" where
  "xrRule i = JObj [(''type'', JStr ''field''), (''inboundTag'', strings [epTag ''in-'' i]),
                    (''outboundTag'', JStr (epTag ''out-'' i))]"

fun xrLoop :: "gen_config \<Rightarrow> nat \<Rightarrow> int \<Rightarrow> endpoint list \<Rightarrow> xr_acc \<Rightarrow> xr_acc \<times> endpoint list" where
  "xrLoop cfg i port [] acc = (acc, [])"
| "xrLoop cfg i port (ep # eps) acc =
     (case xrClaim ep of
        None \<Rightarrow> (case xrLoop cfg (Suc i) port eps acc of (a, us) \<Rightarrow> (a, ep # us))
      | Some ob \<Rightarrow>
          (let acc' = acc\<lparr>xrInbounds := xrInbounds acc @ [xrInbound cfg i port],
                          xrOutbounds := xrOutbounds acc @ [jset ''tag'' (JStr (epTag ''out-'' i)) ob],
                          xrRules := xrRules acc @ [xrRule i]\<rparr>
           in case xrLoop cfg (Suc i) (port + 1) eps acc' of
                (a, us) \<Rightarrow> (a, pin ''socks5_addr'' (DialHost cfg) port ep # us)))"

definition xrRoot :: "xr_acc \<Rightarrow> json" where
  "xrRoot a =
     JObj [(''log'', JObj [(''loglevel'', JStr ''warning'')]),
           (''inbounds'', JArr (xrInbounds a)),
           (''outbounds'', JArr (xrOutbounds a @ [JObj [(''tag'', JStr ''out-direct''), (''protocol'', JStr ''freedom'')]])),
           (''routing'', JObj [(''domainStrategy'', JStr ''AsIs''), (''rules'', JArr (xrRules a))])]"

text \<open>\<open>None\<close>: nothing claimed, no file to write.\<close>

definition xrGenerate :: "endpoint list \<Rightarrow> gen_config \<Rightarrow> json option \<times> endpoint list" where
  "xrGenerate eps cfg0 =
     (let cfg = genDefaults 11800 cfg0;
          (a, us) = xrLoop cfg 0 (BasePort cfg) eps \<lparr>xrInbounds = [], xrOutbounds = [], xrRules = []\<rparr>
      in (if xrOutbounds a = [] then None else Some (xrRoot a), us))"

section \<open>Ports\<close>

definition xrClaims :: "endpoint \<Rightarrow> bool" where
  "xrClaims ep \<longleftrightarrow> xrClaim ep \<noteq> None"

lemma xrLoop_acc: "snd (xrLoop cfg i p es a) = snd (xrLoop cfg i p es b)"
  by (induction es arbitrary: i p a b) (auto simp: Let_def case_prod_unfold split: option.split)

definition xrRun :: "gen_config \<Rightarrow> nat \<Rightarrow> int \<Rightarrow> endpoint list \<Rightarrow> endpoint list" where
  "xrRun cfg i p es = snd (xrLoop cfg i p es \<lparr>xrInbounds = [], xrOutbounds = [], xrRules = []\<rparr>)"

interpretation xr_alloc: port_alloc xrRun "\<lambda>_. xrClaims" "''socks5_addr''" DialHost
proof
  show "xrRun c i p [] = []" for c i p by (simp add: xrRun_def)
  show "\<not> xrClaims e \<Longrightarrow> xrRun c i p (e # es) = e # xrRun c (Suc i) p es" for c i p e es
    by (simp add: xrRun_def xrClaims_def case_prod_unfold)
  show "xrClaims e \<Longrightarrow> xrRun c i p (e # es) = pin ''socks5_addr'' (DialHost c) p e # xrRun c (Suc i) (p + 1) es" for c i p e es
    by (auto simp: xrRun_def xrClaims_def case_prod_unfold Let_def intro: xrLoop_acc)
qed

section \<open>Where a port leads\<close>

text \<open>As in sing-box, except that an inbound no rule names goes to the first outbound.\<close>

definition xrTarget :: "json \<Rightarrow> int \<Rightarrow> json option" where
  "xrTarget root port =
     (case find (\<lambda>j. jget j ''port'' = Some (JNum port)) (items root ''inbounds'') of
        None \<Rightarrow> None
      | Some ib \<Rightarrow>
          (case (jget ib ''tag'', jget root ''routing'') of
             (Some t, Some routing) \<Rightarrow>
               (case find (\<lambda>r. t \<in> set (items r ''inboundTag'')) (items routing ''rules'') of
                  Some r \<Rightarrow> find (\<lambda>j. jget j ''tag'' = jget r ''outboundTag'') (items root ''outbounds'')
                | None \<Rightarrow> Some (hd (items root ''outbounds'')))
           | _ \<Rightarrow> None))"

definition xrTagged :: "nat \<times> int \<times> endpoint \<Rightarrow> json" where
  "xrTagged x = (case x of (i, p, e) \<Rightarrow> jset ''tag'' (JStr (epTag ''out-'' i)) (the (xrClaim e)))"

lemma xrLoop_lists:
  "fst (xrLoop cfg i p es acc) =
     \<lparr>xrInbounds = xrInbounds acc @ map (\<lambda>(i, p, e). xrInbound cfg i p) (allocs xrClaims i p es),
      xrOutbounds = xrOutbounds acc @ map xrTagged (allocs xrClaims i p es),
      xrRules = xrRules acc @ map (\<lambda>(i, p, e). xrRule i) (allocs xrClaims i p es)\<rparr>"
proof (induction es arbitrary: i p acc)
  case Nil
  then show ?case by simp
next
  case (Cons e es)
  then show ?case
    by (cases "xrClaim e") (simp_all add: xrClaims_def xrTagged_def Let_def case_prod_unfold)
qed

lemma isObj_onField [simp]: "isObj (onField k f j) = isObj j"
  by (simp add: onField_def split: option.split)

lemma isObj_xrApplySpoof [simp]: "isObj (xrApplySpoof ep j) = isObj j"
  by (simp add: xrApplySpoof_def Let_def split: option.split)

lemma xrClaim_isObj: "xrClaim e = Some ob \<Longrightarrow> isObj ob"
  by (auto simp: xrClaim_def xrOutbound_def xrVlessOutbound_def mtproxyOutbound_def Let_def
      split: option.splits if_splits)

lemma xr_tag_found:
  assumes "(i, q, e) \<in> set (allocs xrClaims n p es)" (is "?x \<in> set ?L")
  shows "find (\<lambda>j. jget j ''tag'' = Some (JStr (epTag ''out-'' i))) (map xrTagged ?L @ rest) = Some (xrTagged ?x)"
proof -
  have "find (\<lambda>j. jget j ''tag'' = Some (JStr (epTag ''out-'' i))) (map xrTagged ?L) = Some (xrTagged ?x)"
  proof (rule find_map_distinct [OF allocs_distinct(1) assms])
    fix y assume y: "y \<in> set ?L"
    obtain m r d where d: "y = (m, r, d)" by (rule prod_cases3)
    then have "xrClaims d" using allocs_bounds [of m r d xrClaims n p es] y by simp
    then show "jget (xrTagged y) ''tag'' = Some (JStr (epTag ''out-'' i)) \<longleftrightarrow> fst y = fst ?x"
      using xrClaim_isObj by (auto simp: d xrTagged_def xrClaims_def)
  qed
  then show ?thesis by (simp add: find_append)
qed

text \<open>
  C21. Every endpoint Xray takes gets its own port, and the generated configuration leads from
  that port to that endpoint's outbound; nothing is written exactly when it takes none.
\<close>

theorem xray_routes:
  assumes "xrGenerate eps cfg = (out, us)" "i < length eps"
  defines "port \<equiv> xr_alloc.portAt (genDefaults 11800 cfg) (BasePort (genDefaults 11800 cfg)) eps i"
  shows "length us = length eps \<and> (out = None \<longleftrightarrow> \<not> list_ex xrClaims eps) \<and>
    (if xrClaims (eps ! i) then
       us ! i = pin ''socks5_addr'' (DialHost (genDefaults 11800 cfg)) port (eps ! i) \<and>
       (\<exists>root. out = Some root \<and> xrTarget root port = Some (xrTagged (i, port, eps ! i)))
     else us ! i = eps ! i)"
proof -
  let ?cfg = "genDefaults 11800 cfg"
  let ?L = "allocs xrClaims 0 (BasePort ?cfg) eps"
  let ?acc = "\<lparr>xrInbounds = [], xrOutbounds = [], xrRules = []\<rparr>"
  have us: "us = xrRun ?cfg 0 (BasePort ?cfg) eps"
    and out: "out = (if ?L = [] then None else Some (xrRoot (fst (xrLoop ?cfg 0 (BasePort ?cfg) eps ?acc))))"
    using assms(1) by (simp_all add: xrGenerate_def Let_def case_prod_unfold xrRun_def xrLoop_lists)
  have none: "out = None \<longleftrightarrow> \<not> list_ex xrClaims eps" by (simp add: out allocs_Nil_iff)
  show ?thesis
  proof (cases "xrClaims (eps ! i)")
    case False
    then show ?thesis using us assms(2) none by (simp add: xr_alloc.run_nth)
  next
    case True
    let ?x = "(i, port, eps ! i)"
    have x: "?x \<in> set ?L"
      using allocs_nth [OF assms(2), of xrClaims 0 "BasePort ?cfg"] True by (simp add: port_def xr_alloc.portAt_def)
    define root where "root = xrRoot (fst (xrLoop ?cfg 0 (BasePort ?cfg) eps ?acc))"
    have "?L \<noteq> []" using length_pos_if_in_set [OF x] by simp
    then have root: "out = Some root" "root = xrRoot (fst (xrLoop ?cfg 0 (BasePort ?cfg) eps ?acc))"
      by (simp_all add: out root_def)
    have ins: "items root ''inbounds'' = map (\<lambda>(i, p, e). xrInbound ?cfg i p) ?L"
      and outs: "items root ''outbounds'' = map xrTagged ?L @
            [JObj [(''tag'', JStr ''out-direct''), (''protocol'', JStr ''freedom'')]]"
      and route: "jget root ''routing'' = Some (JObj [(''domainStrategy'', JStr ''AsIs''),
          (''rules'', JArr (map (\<lambda>(i, p, e). xrRule i) ?L))])"
      by (simp_all add: root(2) xrRoot_def items_def xrLoop_lists)
    have "find (\<lambda>j. jget j ''port'' = Some (JNum port)) (items root ''inbounds'') = Some (xrInbound ?cfg i port)"
      using find_map_distinct [OF allocs_distinct(2) x, of "\<lambda>j. jget j ''port'' = Some (JNum port)"
          "\<lambda>(i, p, e). xrInbound ?cfg i p"]
      unfolding ins by (simp add: xrInbound_def case_prod_unfold)
    moreover have "find (\<lambda>r. JStr (epTag ''in-'' i) \<in> set (items r ''inboundTag'')) (map (\<lambda>(i, p, e). xrRule i) ?L)
        = Some (xrRule i)"
      using find_map_distinct [OF allocs_distinct(1) x, of "\<lambda>r. JStr (epTag ''in-'' i) \<in> set (items r ''inboundTag'')"
          "\<lambda>(i, p, e). xrRule i"]
      by (auto simp: xrRule_def items_def strings_def case_prod_unfold)
    moreover have "find (\<lambda>j. jget j ''tag'' = Some (JStr (epTag ''out-'' i))) (items root ''outbounds'')
        = Some (xrTagged ?x)"
      unfolding outs by (rule xr_tag_found [OF x])
    ultimately have "xrTarget root port = Some (xrTagged ?x)"
      by (simp add: xrTarget_def route Let_def xrInbound_def xrRule_def items_def [of "JObj _"])
    moreover have "us ! i = pin ''socks5_addr'' (DialHost ?cfg) port (eps ! i)"
      using us assms(2) True by (simp add: xr_alloc.run_nth port_def)
    ultimately show ?thesis using True us root(1) none by simp
  qed
qed

lemma exampleEps_xray:
  "xrClaims (exampleEps ! 0)"
  by code_simp

lemma xray_routes_witness:
  "\<exists>root us. xrGenerate exampleEps (exampleCfg ''xray'') = (Some root, us) \<and>
     cget (Config (us ! 0)) ''socks5_addr'' = ''xray:11800'' \<and>
     xrTarget root 11800 = Some (xrTagged (0, 11800, exampleEps ! 0))"
proof -
  let ?cfg = "genDefaults 11800 (exampleCfg ''xray'')"
  obtain out us where r: "xrGenerate exampleEps (exampleCfg ''xray'') = (out, us)" by fastforce
  have port: "xr_alloc.portAt ?cfg (BasePort ?cfg) exampleEps 0 = 11800"
    by (simp add: genDefaults_def exampleCfg_def)
  have "DialHost ?cfg = ''xray''"
    by (simp add: genDefaults_def exampleCfg_def)
  moreover have "joinHostPort ''xray'' (strconvItoa 11800) = ''xray:11800''"
    by (simp add: joinHostPort_def strconvItoa_def natDigits.simps)
  ultimately show ?thesis
    using xray_routes [OF r, of 0] exampleEps_xray exampleEps_claims(3) unfolding port
    by (auto simp: r pin_def)
qed

end
