(* ===== verification/Go_Url.thy ===== *)
theory Go_Url
  imports Go_IP
begin

text \<open>
  The parts of \<open>net/url\<close> the subscription parsers use: percent-escaping in the modes for
  query components, user info, hosts and fragments, \<open>QueryEscape\<close>, \<open>url.Parse\<close> of a URL with
  an authority, and its accessors.
\<close>

section \<open>Escaping\<close>

datatype esc_mode = QueryComponent | UserPassword | HostMode | PathMode | FragmentMode

definition isAlnum :: "char \<Rightarrow> bool" where
  "isAlnum c \<longleftrightarrow> c \<in> set ''ABCDEFGHIJKLMNOPQRSTUVWXYZabcdefghijklmnopqrstuvwxyz0123456789''"

definition isUnreserved :: "char \<Rightarrow> bool" where
  "isUnreserved c \<longleftrightarrow> isAlnum c \<or> c \<in> set ''-_.~''"

definition isASCII :: "char \<Rightarrow> bool" where
  "isASCII c \<longleftrightarrow> (of_char c :: nat) < 128"

text \<open>The characters \<open>parseHost\<close> accepts unescaped.\<close>

definition hostChar :: "char \<Rightarrow> bool" where
  "hostChar c \<longleftrightarrow> isUnreserved c \<or> \<not> isASCII c \<or>
     c \<in> {CHR ''!'', CHR ''$'', CHR ''&'', CHR 0x27, CHR ''('', CHR '')'', CHR ''*'', CHR ''+'', CHR '','',
          CHR '';'', CHR ''='', CHR '':'', CHR ''['', CHR '']'', CHR ''<'', CHR ''>'', CHR 0x22}"

definition hexPair :: "char \<Rightarrow> char \<Rightarrow> char option" where
  "hexPair a b = (case (hexVal a, hexVal b) of (Some x, Some y) \<Rightarrow> Some (char_of (16 * x + y)) | _ \<Rightarrow> None)"

text \<open>
  \<open>unescape\<close>: a percent sign needs two hex digits; in a host it may only hide a byte above
  127 or a percent sign, and other bytes must be host characters; \<open>+\<close> is a space in a query component.
\<close>

fun unescape :: "esc_mode \<Rightarrow> string \<Rightarrow> string option" where
  "unescape m [] = Some []"
| "unescape m (c # cs) =
     (if c = CHR ''%'' then
        (case cs of
           a # b # r \<Rightarrow>
             (case hexPair a b of
                None \<Rightarrow> None
              | Some d \<Rightarrow>
                  if m = HostMode \<and> isASCII d \<and> d \<noteq> CHR ''%'' then None else map_option (Cons d) (unescape m r))
         | _ \<Rightarrow> None)
      else if m = HostMode \<and> \<not> hostChar c then None
      else map_option (Cons (if m = QueryComponent \<and> c = CHR ''+'' then CHR '' '' else c)) (unescape m cs))"

definition hexUpper :: "nat \<Rightarrow> char" where
  "hexUpper n = ''0123456789ABCDEF'' ! n"

definition escByte :: "char \<Rightarrow> string" where
  "escByte c = (let n = of_char c :: nat in [CHR ''%'', hexUpper (n div 16), hexUpper (n mod 16)])"

definition queryEscape :: "string \<Rightarrow> string" where
  "queryEscape s =
     concat (map (\<lambda>c. if c = CHR '' '' then ''+'' else if isUnreserved c then [c] else escByte c) s)"

text \<open>\<open>escape\<close> in the user-info mode, which \<open>Userinfo.String\<close> applies.\<close>

definition userEscape :: "string \<Rightarrow> string" where
  "userEscape s =
     concat (map (\<lambda>c. if isUnreserved c \<or> c \<in> set ''$&+,;='' then [c] else escByte c) s)"

section \<open>Parsing\<close>

record userinfo =
  username :: string
  password :: "string option"

record url =
  scheme :: string
  user :: "userinfo option"
  host :: string
  rawQuery :: string
  fragment :: string

definition validUserinfo :: "string \<Rightarrow> bool" where
  "validUserinfo s \<longleftrightarrow>
     list_all (\<lambda>c. isAlnum c \<or>
       c \<in> {CHR ''-'', CHR ''.'', CHR ''_'', CHR '':'', CHR ''~'', CHR ''!'', CHR ''$'', CHR ''&'', CHR 0x27,
            CHR ''('', CHR '')'', CHR ''*'', CHR ''+'', CHR '','', CHR '';'', CHR ''='', CHR ''%'', CHR ''@''}) s"

definition validOptionalPort :: "string \<Rightarrow> bool" where
  "validOptionalPort p \<longleftrightarrow>
     p = [] \<or> hd p = CHR '':'' \<and> list_all (\<lambda>c. digitVal c \<noteq> None) (tl p)"

text \<open>\<open>parseHost\<close>; a bracketed host with a zone is refused here.\<close>

definition parseHost :: "string \<Rightarrow> string option" where
  "parseHost h =
     (if hasPrefix h ''['' then
        (case lastIndexByte h (CHR '']'') of
           None \<Rightarrow> None
         | Some i \<Rightarrow>
             if \<not> validOptionalPort (drop (Suc i) h) then None
             else if contains (take i h) ''%25'' then None
             else unescape HostMode h)
      else
        (case lastIndexByte h (CHR '':'') of
           Some i \<Rightarrow> if validOptionalPort (drop i h) then unescape HostMode h else None
         | None \<Rightarrow> unescape HostMode h))"

definition parseUser :: "string \<Rightarrow> userinfo option" where
  "parseUser ui =
     (if \<not> validUserinfo ui then None
      else case cutByte ui (CHR '':'') of
             None \<Rightarrow> map_option (\<lambda>u. \<lparr>username = u, password = None\<rparr>) (unescape UserPassword ui)
           | Some (un, pw) \<Rightarrow>
               (case (unescape UserPassword un, unescape UserPassword pw) of
                  (Some u, Some p) \<Rightarrow> Some \<lparr>username = u, password = Some p\<rparr>
                | _ \<Rightarrow> None))"

definition parseAuthority :: "string \<Rightarrow> (userinfo option \<times> string) option" where
  "parseAuthority a =
     (case lastIndexByte a (CHR ''@'') of
        None \<Rightarrow> map_option (\<lambda>h. (None, h)) (parseHost a)
      | Some i \<Rightarrow>
          (case (parseHost (drop (Suc i) a), parseUser (take i a)) of
             (Some h, Some u) \<Rightarrow> Some (Some u, h)
           | _ \<Rightarrow> None))"

definition isCTL :: "char \<Rightarrow> bool" where
  "isCTL c \<longleftrightarrow> (of_char c :: nat) < 32 \<or> (of_char c :: nat) = 127"

definition cutOr :: "string \<Rightarrow> char \<Rightarrow> string \<times> string" where
  "cutOr s c = (case cutByte s c of Some p \<Rightarrow> p | None \<Rightarrow> (s, []))"

text \<open>
  \<open>url.Parse\<close> of \<open>scheme://...\<close>; every caller has checked such a prefix, whose scheme is
  lower-case letters and digits. The path is parsed (a bad escape is an error) and dropped.
\<close>

definition urlParse :: "string \<Rightarrow> url option" where
  "urlParse raw =
     (let (u, frag) = cutOr raw (CHR ''#'')
      in if list_ex isCTL u then None
         else (case indexStr u ''://'' of
             None \<Rightarrow> None
           | Some i \<Rightarrow>
               (let (rest, q) = cutOr (drop (i + 3) u) (CHR ''?'');
                    (auth, path) = (case indexByte rest (CHR ''/'') of
                                      Some k \<Rightarrow> (take k rest, drop k rest) | None \<Rightarrow> (rest, []))
                in case (parseAuthority auth, unescape PathMode path, unescape FragmentMode frag) of
                     (Some (ui, h), Some _, Some f) \<Rightarrow>
                       Some \<lparr>scheme = take i u, user = ui, host = h, rawQuery = q, fragment = f\<rparr>
                   | _ \<Rightarrow> None)))"

definition urlUsername :: "url \<Rightarrow> string" where
  "urlUsername u = (case user u of Some ui \<Rightarrow> username ui | None \<Rightarrow> [])"

definition urlPassword :: "url \<Rightarrow> string option" where
  "urlPassword u = (case user u of Some ui \<Rightarrow> password ui | None \<Rightarrow> None)"

text \<open>\<open>Userinfo.String\<close>; called on a nil pointer it panics (\<open>None\<close>).\<close>

definition userString :: "url \<Rightarrow> string option" where
  "userString u =
     (case user u of
        None \<Rightarrow> None
      | Some ui \<Rightarrow>
          Some (if username ui = [] \<and> (password ui = None \<or> password ui = Some []) then []
                else userEscape (username ui) @
                     (case password ui of Some p \<Rightarrow> '':'' @ userEscape p | None \<Rightarrow> [])))"

definition splitURLHost :: "string \<Rightarrow> string \<times> string" where
  "splitURLHost hp =
     (let (h, p) = (case lastIndexByte hp (CHR '':'') of
                      Some i \<Rightarrow> if validOptionalPort (drop i hp) then (take i hp, drop (Suc i) hp) else (hp, [])
                    | None \<Rightarrow> (hp, []))
      in (if hasPrefix h ''['' \<and> hasSuffix h '']'' then butlast (tl h) else h, p))"

definition urlHostname :: "url \<Rightarrow> string" where "urlHostname u = fst (splitURLHost (host u))"
definition urlPort :: "url \<Rightarrow> string" where "urlPort u = snd (splitURLHost (host u))"

text \<open>
  \<open>Query\<close>: the pairs in order of appearance; malformed pieces are dropped. \<open>Values.Get\<close> is
  the first value of a key.
\<close>

type_synonym url_values = "(string \<times> string) list"

definition parsePair :: "string \<Rightarrow> url_values" where
  "parsePair piece =
     (if CHR '';'' \<in> set piece \<or> piece = [] then []
      else (let (k, v) = cutOr piece (CHR ''='')
            in case (unescape QueryComponent k, unescape QueryComponent v) of
                 (Some k', Some v') \<Rightarrow> [(k', v')]
               | _ \<Rightarrow> []))"

definition parseQuery :: "string \<Rightarrow> url_values" where
  "parseQuery q = concat (map parsePair (splitOn (CHR ''&'') q))"

definition query :: "url \<Rightarrow> url_values" where
  "query u = parseQuery (rawQuery u)"

definition getParam :: "url_values \<Rightarrow> string \<Rightarrow> string" where
  "getParam q k = (case map_of q k of Some v \<Rightarrow> v | None \<Rightarrow> [])"

section \<open>Escapes come back\<close>

lemma hexUpper_val: "list_all (\<lambda>n. hexVal (hexUpper n) = Some n) [0..<16]"
  by code_simp

lemma hexUpper_clean:
  "list_all (\<lambda>n. isAlnum (hexUpper n)) [0..<16]"
  by code_simp

lemma of_char_div: "(of_char c :: nat) div 16 < 16"
  using of_char_256 [of c] by (intro less_mult_imp_div_less) simp

lemma escByte_hex [simp]:
  "hexPair (hexUpper ((of_char c :: nat) div 16)) (hexUpper ((of_char c :: nat) mod 16)) = Some c"
  using hexUpper_val of_char_div [of c] by (simp add: hexPair_def list_all_iff)

lemma queryEscape_Nil [simp]: "queryEscape [] = []"
  by (simp add: queryEscape_def)

lemma queryEscape_Cons:
  "queryEscape (c # s) =
     (if c = CHR '' '' then ''+'' else if isUnreserved c then [c] else escByte c) @ queryEscape s"
  by (simp add: queryEscape_def)

lemma isUnreserved_not: "isUnreserved c \<Longrightarrow> c \<noteq> CHR ''%'' \<and> c \<noteq> CHR ''+''"
  by (auto simp: isUnreserved_def isAlnum_def)

text \<open>In a query the escaped text comes back; in user info a space comes back as a plus sign.\<close>

lemma unescape_queryEscape [simp]: "unescape QueryComponent (queryEscape s) = Some s"
  by (induction s) (auto simp: queryEscape_Cons escByte_def Let_def dest: isUnreserved_not)

lemma unescape_user_queryEscape:
  "unescape UserPassword (queryEscape s) = Some (replaceByte (CHR '' '') (CHR ''+'') s)"
  by (induction s) (auto simp: queryEscape_Cons escByte_def replaceByte_def Let_def dest: isUnreserved_not)

lemma unescape_plain: "m \<noteq> HostMode \<Longrightarrow> \<forall>c \<in> set s. c \<noteq> CHR ''%'' \<and> (m = QueryComponent \<longrightarrow> c \<noteq> CHR ''+'') \<Longrightarrow>
  unescape m s = Some s"
  by (induction s) auto

lemma unescape_host_plain: "\<forall>c \<in> set s. c \<noteq> CHR ''%'' \<and> hostChar c \<Longrightarrow> unescape HostMode s = Some s"
  by (induction s) auto

lemma queryEscape_chars:
  "c \<in> set (queryEscape s) \<Longrightarrow> isUnreserved c \<or> c = CHR ''%'' \<or> c = CHR ''+''"
proof (induction s)
  case (Cons x s)
  have "\<And>n. n < 16 \<Longrightarrow> isUnreserved (hexUpper n)"
    using hexUpper_clean by (simp add: list_all_iff isUnreserved_def)
  then have "c \<in> set (escByte x) \<Longrightarrow> isUnreserved c \<or> c = CHR ''%''"
    using of_char_div by (auto simp: escByte_def Let_def)
  with Cons show ?case by (auto simp: queryEscape_Cons split: if_splits)
qed simp

definition delimiters :: string where
  "delimiters = ''#?/@:&;=,[]''"

lemma delimiters_escaped: "list_all (\<lambda>c. \<not> isUnreserved c \<and> c \<noteq> CHR ''%'' \<and> c \<noteq> CHR ''+'') delimiters"
  by code_simp

lemma queryEscape_clean: "c \<in> set delimiters \<Longrightarrow> c \<notin> set (queryEscape s)"
  using delimiters_escaped queryEscape_chars by (auto simp: list_all_iff)

lemma unreserved_valid: "isUnreserved c \<Longrightarrow> validUserinfo [c] \<and> \<not> isCTL c"
proof -
  have "list_all (\<lambda>c. validUserinfo [c] \<and> \<not> isCTL c)
      (''ABCDEFGHIJKLMNOPQRSTUVWXYZabcdefghijklmnopqrstuvwxyz0123456789'' @ ''-_.~'')" by code_simp
  moreover assume "isUnreserved c"
  ultimately show ?thesis by (auto simp only: list_all_iff isUnreserved_def isAlnum_def set_append Un_iff)
qed

lemma validUserinfo_Cons: "validUserinfo (c # s) \<longleftrightarrow> validUserinfo [c] \<and> validUserinfo s"
  by (simp add: validUserinfo_def)

lemma validUserinfo_all: "validUserinfo s \<longleftrightarrow> (\<forall>c \<in> set s. validUserinfo [c])"
proof (induction s)
  case (Cons c s)
  then show ?case by (subst validUserinfo_Cons) auto
qed (simp add: validUserinfo_def)

lemma queryEscape_safe: "c \<in> set (queryEscape s) \<Longrightarrow> validUserinfo [c] \<and> \<not> isCTL c"
proof -
  assume "c \<in> set (queryEscape s)"
  then consider "isUnreserved c" | "c = CHR ''%''" | "c = CHR ''+''" using queryEscape_chars by blast
  then show ?thesis
  proof cases
    case 1
    then show ?thesis by (rule unreserved_valid)
  qed (simp_all add: validUserinfo_def isCTL_def)
qed

lemma queryEscape_validUserinfo: "validUserinfo (queryEscape s)"
  using queryEscape_safe by (subst validUserinfo_all) blast

lemma queryEscape_no_CTL: "\<not> list_ex isCTL (queryEscape s)"
  using queryEscape_safe by (auto simp: list_ex_iff)

section \<open>Parsing what was built\<close>

lemma indexStr_scheme: "CHR '':'' \<notin> set a \<Longrightarrow> indexStr (a @ ''://'' @ b) ''://'' = Some (length a)"
  by (induction a) (auto simp: hasPrefix_def)

lemma cutOr_append [simp]: "c \<notin> set a \<Longrightarrow> cutOr (a @ c # b) c = (a, b)"
  by (simp add: cutOr_def)

lemma cutOr_none [simp]: "c \<notin> set a \<Longrightarrow> cutOr a c = (a, [])"
  by (simp add: cutOr_def split: option.split) (metis cutByte_None option.distinct(1))

definition unreservedAll :: "string \<Rightarrow> bool" where
  "unreservedAll s \<longleftrightarrow> list_all isUnreserved s"

definition digitsOnly :: "string \<Rightarrow> bool" where
  "digitsOnly s \<longleftrightarrow> list_all (\<lambda>c. digitVal c \<noteq> None) s"

lemma digits_unreserved: "digitsOnly s \<Longrightarrow> unreservedAll s"
proof -
  have d: "digitVal c \<noteq> None \<Longrightarrow> isUnreserved c" for c
  proof -
    have all: "\<forall>n \<in> set [48..<58::nat]. isUnreserved (char_of n)" by code_simp
    assume "digitVal c \<noteq> None"
    then have "48 \<le> (of_char c :: nat) \<and> (of_char c :: nat) < 58"
      by (auto simp: digitVal_def Let_def split: if_splits)
    then have "(of_char c :: nat) \<in> set [48..<58]" by (simp only: set_upt atLeastLessThan_iff)
    from all [rule_format, OF this] show ?thesis by simp
  qed
  then show "digitsOnly s \<Longrightarrow> ?thesis" by (simp add: digitsOnly_def unreservedAll_def list_all_iff)
qed

lemma unreserved_delims: "unreservedAll s \<Longrightarrow> c \<in> set ''%+'' \<union> set delimiters \<Longrightarrow> c \<notin> set s"
  using delimiters_escaped isUnreserved_not by (auto simp: unreservedAll_def list_all_iff)

lemma unreserved_no_CTL: "unreservedAll s \<Longrightarrow> \<not> list_ex isCTL s"
  using unreserved_valid by (auto simp: unreservedAll_def list_all_iff list_ex_iff)

lemma unreserved_escape [simp]: "unreservedAll s \<Longrightarrow> queryEscape s = s"
proof (induction s)
  case (Cons c s)
  then have "isUnreserved c" by (simp add: unreservedAll_def)
  moreover have "\<not> isUnreserved (CHR '' '')" by code_simp
  ultimately have "c \<noteq> CHR '' ''" by auto
  with Cons show ?case by (simp add: queryEscape_Cons unreservedAll_def)
qed simp

lemma parseHost_plain:
  assumes "unreservedAll addr" "digitsOnly port"
  shows "parseHost (addr @ '':'' @ port) = Some (addr @ '':'' @ port)"
proof -
  have no: "CHR '':'' \<notin> set port" "CHR ''['' \<notin> set addr"
    using unreserved_delims [OF digits_unreserved [OF assms(2)]] unreserved_delims [OF assms(1)]
    by (simp_all add: delimiters_def)
  then have "\<not> hasPrefix (addr @ '':'' @ port) ''[''"
    by (cases addr) (auto simp: hasPrefix_def)
  moreover have "lastIndexByte (addr @ '':'' @ port) (CHR '':'') = Some (length addr)"
    using no by simp
  moreover have "validOptionalPort (CHR '':'' # port)"
    using assms(2) by (simp add: validOptionalPort_def digitsOnly_def)
  moreover have "unescape HostMode (addr @ '':'' @ port) = Some (addr @ '':'' @ port)"
  proof (rule unescape_host_plain)
    have "isUnreserved c \<Longrightarrow> c \<noteq> CHR ''%'' \<and> hostChar c" for c
      using isUnreserved_not by (auto simp: hostChar_def)
    then show "\<forall>c \<in> set (addr @ '':'' @ port). c \<noteq> CHR ''%'' \<and> hostChar c"
      using assms(1) digits_unreserved [OF assms(2)]
      by (auto simp: unreservedAll_def list_all_iff hostChar_def [of "CHR '':''"])
  qed
  ultimately show ?thesis by (simp add: parseHost_def)
qed

lemma urlParse_build:
  assumes "unreservedAll sch" "set ui \<inter> set ''#?/@'' = {}" "\<not> list_ex isCTL ui" "parseUser ui = Some u"
    and "unreservedAll addr" "digitsOnly port"
    and "qpart = [] \<and> q = [] \<or> qpart = CHR ''?'' # q" "CHR ''#'' \<notin> set q" "\<not> list_ex isCTL q"
    and "unescape FragmentMode frag = Some f"
  shows "urlParse (sch @ ''://'' @ ui @ ''@'' @ addr @ '':'' @ port @ qpart @ ''#'' @ frag) =
    Some \<lparr>scheme = sch, user = Some u, host = addr @ '':'' @ port, rawQuery = q, fragment = f\<rparr>"
proof -
  note pd = digits_unreserved [OF assms(6)]
  have sub: "set ''#?/@:'' \<subseteq> set ''%+'' \<union> set delimiters" by (simp add: delimiters_def)
  have no: "c \<notin> set sch" "c \<notin> set addr" "c \<notin> set port" if "c \<in> set ''#?/@:''" for c
    using that sub unreserved_delims [OF assms(1)] unreserved_delims [OF assms(5)] unreserved_delims [OF pd]
    by blast+
  have ui: "c \<notin> set ui" if "c \<in> set ''#?/@''" for c using assms(2) that by blast
  let ?auth = "ui @ ''@'' @ addr @ '':'' @ port"
  let ?u = "sch @ ''://'' @ ?auth @ qpart"
  have hash: "CHR ''#'' \<notin> set ?u"
    using no [of "CHR ''#''"] ui [of "CHR ''#''"] assms(7,8) by auto
  have ctl: "\<not> list_ex isCTL ?u"
  proof -
    have "\<not> isCTL (CHR '':'')" "\<not> isCTL (CHR ''/'')" "\<not> isCTL (CHR ''@'')" "\<not> isCTL (CHR ''?'')"
      by (simp_all add: isCTL_def)
    moreover have "\<not> list_ex isCTL qpart" using assms(7,9) \<open>\<not> isCTL (CHR ''?'')\<close> by auto
    ultimately show ?thesis
      using assms(3) unreserved_no_CTL [OF assms(1)] unreserved_no_CTL [OF assms(5)] unreserved_no_CTL [OF pd]
      by simp
  qed
  have sl: "CHR ''/'' \<notin> set ?auth" "CHR ''?'' \<notin> set ?auth"
    using no [of "CHR ''/''"] ui [of "CHR ''/''"] no [of "CHR ''?''"] ui [of "CHR ''?''"] by simp_all
  have i: "indexStr ?u ''://'' = Some (length sch)" using no(1) by (intro indexStr_scheme) simp
  have q: "cutOr (drop (length sch + 3) ?u) (CHR ''?'') = (?auth, q)"
    using assms(7) cutOr_append [OF sl(2), of q] cutOr_none [OF sl(2)] by auto
  have at: "lastIndexByte ?auth (CHR ''@'') = Some (length ui)"
    using no(2,3) [of "CHR ''@''"] by simp
  have pa: "parseAuthority ?auth = Some (Some u, addr @ '':'' @ port)"
    using at assms(4) parseHost_plain [OF assms(5,6)] by (simp add: parseAuthority_def)
  have ib: "indexByte ?auth (CHR ''/'') = None"
    using sl(1) by (simp only: indexByte_None not_False_eq_True)
  have c: "cutOr (?u @ ''#'' @ frag) (CHR ''#'') = (?u, frag)"
    unfolding append_Cons append_Nil by (rule cutOr_append [OF hash [unfolded append_Cons append_Nil]])
  have "urlParse (?u @ ''#'' @ frag) =
    Some \<lparr>scheme = sch, user = Some u, host = addr @ '':'' @ port, rawQuery = q, fragment = f\<rparr>"
    unfolding urlParse_def c Let_def prod.case i option.case q ib pa assms(10) unescape.simps
    using ctl by simp
  then show ?thesis by simp
qed

lemma parsePair_build:
  assumes "unreservedAll k" "k \<noteq> []"
  shows "parsePair (k @ ''='' @ queryEscape v) = [(k, v)]"
proof -
  have "CHR '';'' \<notin> set (k @ ''='' @ queryEscape v)" "CHR ''='' \<notin> set k"
    using unreserved_delims [OF assms(1)] queryEscape_clean by (simp_all add: delimiters_def)
  moreover have "unescape QueryComponent k = Some k"
    using unreserved_delims [OF assms(1)] by (intro unescape_plain) auto
  ultimately show ?thesis by (simp add: parsePair_def)
qed

definition paramStr :: "string \<times> string \<Rightarrow> string" where
  "paramStr kv = fst kv @ ''='' @ queryEscape (snd kv)"

lemma parseQuery_build:
  assumes "kvs \<noteq> []" "\<forall>(k, v) \<in> set kvs. unreservedAll k \<and> k \<noteq> []"
  shows "parseQuery (joinWith ''&'' (map paramStr kvs)) = kvs"
proof -
  have "CHR ''&'' \<notin> set (paramStr kv)" if "kv \<in> set kvs" for kv
    using that assms(2) unreserved_delims queryEscape_clean
    by (fastforce simp: paramStr_def delimiters_def)
  then have "splitOn (CHR ''&'') (joinWith ''&'' (map paramStr kvs)) = map paramStr kvs"
    using assms(1) by (intro splitOn_joinWith) auto
  moreover have "parsePair (paramStr kv) = [kv]" if "kv \<in> set kvs" for kv
    using that assms(2) parsePair_build by (cases kv) (auto simp: paramStr_def)
  then have "concat (map parsePair (map paramStr kvs)) = concat (map (\<lambda>kv. [kv]) kvs)"
    by (induction kvs) auto
  ultimately show ?thesis by (simp add: parseQuery_def)
qed

lemma joinWith_chars: "c \<in> set (joinWith sep xs) \<Longrightarrow> c \<in> set sep \<or> (\<exists>x \<in> set xs. c \<in> set x)"
  by (induction sep xs rule: joinWith.induct) auto

lemma params_clean:
  assumes "\<forall>(k, v) \<in> set kvs. unreservedAll k"
  shows "CHR ''#'' \<notin> set (joinWith ''&'' (map paramStr kvs))"
    "\<not> list_ex isCTL (joinWith ''&'' (map paramStr kvs))"
proof -
  have k: "CHR ''#'' \<notin> set (paramStr kv) \<and> \<not> list_ex isCTL (paramStr kv)" if "kv \<in> set kvs" for kv
    using that assms unreserved_delims [of "fst kv"] unreserved_no_CTL [of "fst kv"] queryEscape_clean queryEscape_no_CTL
    by (auto simp: paramStr_def delimiters_def isCTL_def)
  then show "CHR ''#'' \<notin> set (joinWith ''&'' (map paramStr kvs))"
    using joinWith_chars [of "CHR ''#''" "''&''" "map paramStr kvs"] by auto
  show "\<not> list_ex isCTL (joinWith ''&'' (map paramStr kvs))"
    using k joinWith_chars [of _ "''&''" "map paramStr kvs"] by (fastforce simp: list_ex_iff isCTL_def)
qed

end
