(* ===== verification/Go_Base64.thy ===== *)
theory Go_Base64
  imports Go_Strings
begin

text \<open>
  Base64: \<open>encoding/base64\<close>'s standard decoder, and the repository's own encoder and
  lenient decoder (\<open>base64URLEncode\<close> in \<open>subscription/moavbundle.go\<close>, \<open>base64Decode\<close> in
  \<open>subscription/parser.go\<close>).
\<close>

section \<open>The alphabet\<close>

definition b64Alpha :: string where
  "b64Alpha = ''ABCDEFGHIJKLMNOPQRSTUVWXYZabcdefghijklmnopqrstuvwxyz0123456789+/''"

definition b64Char :: "nat \<Rightarrow> char" where
  "b64Char n = b64Alpha ! n"

definition b64Val :: "char \<Rightarrow> nat option" where
  "b64Val c = indexByte b64Alpha c"

lemma b64_alphabet:
  "list_all (\<lambda>n. b64Val (b64Char n) = Some n \<and> b64Char n \<noteq> CHR ''='' \<and> b64Char n \<noteq> CHR ''-'' \<and>
     b64Char n \<noteq> CHR ''_'' \<and> \<not> isSpace (b64Char n) \<and> b64Char n \<noteq> CHR '':'') [0..<64]"
  by code_simp

lemma b64Char_facts:
  assumes "n < 64"
  shows "b64Val (b64Char n) = Some n" "b64Char n \<noteq> CHR ''=''" "b64Char n \<noteq> CHR ''-''" "b64Char n \<noteq> CHR ''_''"
    "\<not> isSpace (b64Char n)" "b64Char n \<noteq> CHR '':''"
  using assms b64_alphabet by (simp_all add: list_all_iff)

section \<open>Encoding\<close>

text \<open>
  Each group of up to three bytes is shifted into 24 bits and written as four characters,
  those beyond the data as padding.
\<close>

definition byteVal :: "char \<Rightarrow> nat" where
  "byteVal c = of_char c"

definition sextet :: "nat \<Rightarrow> nat \<Rightarrow> nat" where
  "sextet j n = n div 64 ^ (3 - j) mod 64"

fun base64URLEncode :: "string \<Rightarrow> string" where
  "base64URLEncode [] = []"
| "base64URLEncode [a] =
     (let n = byteVal a * 65536
      in [b64Char (sextet 0 n), b64Char (sextet 1 n), CHR ''='', CHR ''=''])"
| "base64URLEncode [a, b] =
     (let n = byteVal a * 65536 + byteVal b * 256
      in [b64Char (sextet 0 n), b64Char (sextet 1 n), b64Char (sextet 2 n), CHR ''=''])"
| "base64URLEncode (a # b # c # rest) =
     (let n = byteVal a * 65536 + byteVal b * 256 + byteVal c
      in [b64Char (sextet 0 n), b64Char (sextet 1 n), b64Char (sextet 2 n), b64Char (sextet 3 n)] @
         base64URLEncode rest)"

section \<open>Decoding\<close>

text \<open>\<open>StdEncoding.DecodeString\<close>: line ends are skipped, padding is mandatory, bits beyond
  the data are ignored.\<close>

fun b64Groups :: "string \<Rightarrow> string option" where
  "b64Groups [] = Some []"
| "b64Groups (a # b # c # d # rest) =
     (case (b64Val a, b64Val b) of
        (Some x, Some y) \<Rightarrow>
          if c = CHR ''='' then
            (if d = CHR ''='' \<and> rest = [] then Some [char_of (x * 4 + y div 16)] else None)
          else (case b64Val c of
              None \<Rightarrow> None
            | Some z \<Rightarrow>
                if d = CHR ''='' then
                  (if rest = [] then Some [char_of (x * 4 + y div 16), char_of (y mod 16 * 16 + z div 4)]
                   else None)
                else (case b64Val d of
                    None \<Rightarrow> None
                  | Some v \<Rightarrow>
                      map_option (\<lambda>r. char_of (x * 4 + y div 16) # char_of (y mod 16 * 16 + z div 4) #
                                      char_of (z mod 4 * 64 + v) # r)
                        (b64Groups rest)))
      | _ \<Rightarrow> None)"
| "b64Groups _ = None"

definition stdDecode :: "string \<Rightarrow> string option" where
  "stdDecode s = b64Groups (filter (\<lambda>c. c \<noteq> CHR 0x0A \<and> c \<noteq> CHR 0x0D) s)"

definition base64Decode :: "string \<Rightarrow> string option" where
  "base64Decode s0 =
     (let s1 = trimSpace s0;
          s2 = replaceByte (CHR ''-'') (CHR ''+'') s1;
          s3 = replaceByte (CHR ''_'') (CHR ''/'') s2;
          s4 = (if length s3 mod 4 = 2 then s3 @ ''=='' else if length s3 mod 4 = 3 then s3 @ ''='' else s3)
      in stdDecode s4)"

section \<open>Round trip\<close>

lemma byteVal_less [simp]: "byteVal c < 256"
  unfolding byteVal_def by (rule of_char_256)

lemma char_of_byteVal [simp]: "char_of (byteVal c) = c"
  by (simp add: byteVal_def)

lemma sextet_less [simp]: "sextet j n < 64"
  by (simp add: sextet_def)

lemma sextet_parts:
  assumes "a < 256" "b < 256" "c < 256"
  shows "sextet 0 (a * 65536 + b * 256 + c) * 4 + sextet 1 (a * 65536 + b * 256 + c) div 16 = a"
    "sextet 1 (a * 65536 + b * 256 + c) mod 16 * 16 + sextet 2 (a * 65536 + b * 256 + c) div 4 = b"
    "sextet 2 (a * 65536 + b * 256 + c) mod 4 * 64 + sextet 3 (a * 65536 + b * 256 + c) = c"
proof -
  define a1 a0 b1 b0 c1 c0 where "a1 = a div 4" "a0 = a mod 4" "b1 = b div 16" "b0 = b mod 16"
    "c1 = c div 64" "c0 = c mod 64"
  then have p: "a = 4 * a1 + a0" "b = 16 * b1 + b0" "c = 64 * c1 + c0"
    and l: "a0 < 4" "b0 < 16" "c0 < 64" "a1 < 64" "b1 < 16" "c1 < 4"
    using assms by simp_all
  let ?n = "a * 65536 + b * 256 + c"
  have n: "?n = 64 * (64 * (64 * a1 + (16 * a0 + b1)) + (4 * b0 + c1)) + c0"
    unfolding p by simp
  have d1: "?n div 64 = 64 * (64 * a1 + (16 * a0 + b1)) + (4 * b0 + c1)" unfolding n using l by simp
  then have d2: "?n div 64 div 64 = 64 * a1 + (16 * a0 + b1)" using l by simp
  then have d3: "?n div 64 div 64 div 64 = a1" using l by simp
  have m: "?n mod 64 = c0" unfolding n using l by (simp only: mod_mult_self4 mod_less)
  have e: "sextet 0 ?n = ?n div 64 div 64 div 64 mod 64" "sextet 1 ?n = ?n div 64 div 64 mod 64"
    "sextet 2 ?n = ?n div 64 mod 64" "sextet 3 ?n = ?n mod 64"
    by (simp_all add: sextet_def div_mult2_eq [symmetric])
  have lt: "16 * a0 + b1 < 64" "4 * b0 + c1 < 64" using l by linarith+
  have "sextet 0 ?n = a1" unfolding e(1) d3 using l by simp
  moreover have "sextet 1 ?n = 16 * a0 + b1"
    unfolding e(2) d2 using lt(1) by (simp only: mod_mult_self4 mod_less)
  moreover have "sextet 2 ?n = 4 * b0 + c1"
    unfolding e(3) d1 using lt(2) by (simp only: mod_mult_self4 mod_less)
  moreover have "sextet 3 ?n = c0" unfolding e(4) by (rule m)
  ultimately have s: "sextet 0 ?n = a1" "sextet 1 ?n = 16 * a0 + b1" "sextet 2 ?n = 4 * b0 + c1" "sextet 3 ?n = c0"
    by simp_all
  show "sextet 0 ?n * 4 + sextet 1 ?n div 16 = a" unfolding s using p l by simp
  show "sextet 1 ?n mod 16 * 16 + sextet 2 ?n div 4 = b" unfolding s using p l by simp
  show "sextet 2 ?n mod 4 * 64 + sextet 3 ?n = c" unfolding s using p l by simp
qed

lemma b64Groups_encode: "b64Groups (base64URLEncode s) = Some s"
proof (induction s rule: base64URLEncode.induct)
  case (2 a)
  show ?case using sextet_parts [of "byteVal a" 0 0]
    by (simp add: Let_def b64Char_facts(1,2))
next
  case (3 a b)
  show ?case using sextet_parts [of "byteVal a" "byteVal b" 0]
    by (simp add: Let_def b64Char_facts(1,2))
next
  case (4 a b c rest)
  then show ?case using sextet_parts [of "byteVal a" "byteVal b" "byteVal c"]
    by (simp add: Let_def b64Char_facts(1,2))
qed simp

lemma encode_set: "set (base64URLEncode s) \<subseteq> insert (CHR ''='') (b64Char ` {..<64})"
  by (induction s rule: base64URLEncode.induct) (simp_all add: Let_def)

lemma encode_chars: "ch \<in> set (base64URLEncode s) \<Longrightarrow> ch = CHR ''='' \<or> (\<exists>n < 64. ch = b64Char n)"
  using encode_set [of s] by auto

lemma encode_length: "length (base64URLEncode s) mod 4 = 0"
  by (induction s rule: base64URLEncode.induct) (auto simp: Let_def)

lemma encode_clean:
  assumes "c \<in> set (base64URLEncode s)"
  shows "\<not> isSpace c" "c \<noteq> CHR ''-''" "c \<noteq> CHR ''_''" "c \<noteq> CHR '':''"
proof -
  from encode_chars [OF assms] have "c = CHR ''='' \<or> (\<exists>n < 64. c = b64Char n)" .
  then show "\<not> isSpace c" "c \<noteq> CHR ''-''" "c \<noteq> CHR ''_''" "c \<noteq> CHR '':''"
    by (elim disjE exE conjE; simp add: b64Char_facts isSpace_def [of "CHR ''=''"])+
qed

theorem base64_roundtrip: "base64Decode (base64URLEncode s) = Some s"
proof -
  have t: "trimSpace (base64URLEncode s) = base64URLEncode s"
    using encode_clean(1) by (intro trimSpace_no_space) blast
  have r: "replaceByte (CHR ''-'') (CHR ''+'') (base64URLEncode s) = base64URLEncode s"
      "replaceByte (CHR ''_'') (CHR ''/'') (base64URLEncode s) = base64URLEncode s"
    using encode_clean(2,3) by (auto simp: replaceByte_def intro!: map_idI)
  have f: "filter (\<lambda>c. c \<noteq> CHR 0x0A \<and> c \<noteq> CHR 0x0D) (base64URLEncode s) = base64URLEncode s"
    using encode_clean(1) by (intro filter_True) (auto simp: isSpace_def)
  show ?thesis
    using encode_length [of s] by (simp add: base64Decode_def Let_def t r stdDecode_def f b64Groups_encode)
qed

text \<open>A text with a character outside the alphabet does not decode.\<close>

lemma b64Groups_chars: "b64Groups s = Some t \<Longrightarrow> c \<in> set s \<Longrightarrow> c = CHR ''='' \<or> b64Val c \<noteq> None"
  by (induction s arbitrary: t rule: b64Groups.induct) (auto split: option.splits if_splits)

lemma base64Decode_colon:
  assumes "CHR '':'' \<in> set s" shows "base64Decode s = None"
proof (rule ccontr)
  assume "base64Decode s \<noteq> None"
  moreover obtain pad where pad: "base64Decode s = stdDecode (replaceByte (CHR ''_'') (CHR ''/'')
      (replaceByte (CHR ''-'') (CHR ''+'') (trimSpace s)) @ pad)"
  proof (rule that)
    let ?s3 = "replaceByte (CHR ''_'') (CHR ''/'') (replaceByte (CHR ''-'') (CHR ''+'') (trimSpace s))"
    show "base64Decode s = stdDecode (?s3 @ (if length ?s3 mod 4 = 2 then ''=='' else if length ?s3 mod 4 = 3 then ''='' else []))"
      by (simp add: base64Decode_def Let_def)
  qed
  ultimately obtain t where t: "b64Groups (filter (\<lambda>c. c \<noteq> CHR 0x0A \<and> c \<noteq> CHR 0x0D)
      (replaceByte (CHR ''_'') (CHR ''/'') (replaceByte (CHR ''-'') (CHR ''+'') (trimSpace s)) @ pad)) = Some t"
    by (auto simp: stdDecode_def)
  have "CHR '':'' \<in> set (trimSpace s)" using assms trimSpace_keeps by (auto simp: isSpace_def)
  then have "CHR '':'' \<in> set (filter (\<lambda>c. c \<noteq> CHR 0x0A \<and> c \<noteq> CHR 0x0D)
      (replaceByte (CHR ''_'') (CHR ''/'') (replaceByte (CHR ''-'') (CHR ''+'') (trimSpace s)) @ pad))"
    by (auto simp: replaceByte_def image_iff)
  from b64Groups_chars [OF t this] show False by (simp add: b64Val_def b64Alpha_def)
qed

end
