(* ===== verification/Subscription.thy ===== *)
theory Subscription
  imports Go_Url Go_Base64 Endpoint
begin

text \<open>
  Package \<open>subscription\<close>: the scheme parsers and the feed parser (\<open>parser.go\<close>,
  \<open>mtproxy.go\<close>, \<open>fetcher.go\<close>) and WireGuard configuration files (\<open>wgconf.go\<close>). A parser
  returns an endpoint, an error (of which the model keeps the source), or panics.
\<close>

datatype 'a parse_result = Parsed 'a | Failed string | Panics

section \<open>One URI\<close>

definition parseVLESS :: "string \<Rightarrow> endpoint parse_result" where
  "parseVLESS uri =
     (case urlParse uri of
        None \<Rightarrow> Failed ''vless''
      | Some u \<Rightarrow>
          (let q = query u
           in Parsed (fresh_endpoint ''vless'' (host u) (fragment u) uri
                (map_of
                  [(''uuid'', urlUsername u), (''net'', getParam q ''type''),
                   (''security'', getParam q ''security''), (''flow'', getParam q ''flow''),
                   (''pbk'', getParam q ''pbk''), (''sid'', getParam q ''sid''),
                   (''sni'', getParam q ''sni''), (''fp'', getParam q ''fp''),
                   (''path'', getParam q ''path''), (''host'', getParam q ''host''),
                   (''alpn'', getParam q ''alpn''), (''encryption'', getParam q ''encryption'')]))))"

text \<open>
  The JSON payload of a \<open>vmess\<close> URI, as \<open>encoding/json\<close> fills the struct: the port and the
  alter id in the form \<open>%v\<close> prints. The decoder is an argument.
\<close>

record vmess_fields =
  vAdd :: string
  vPort :: string
  vID :: string
  vAid :: string
  vNet :: string
  vType :: string
  vHost :: string
  vPath :: string
  vTLS :: string
  vPS :: string

type_synonym vmess_decoder = "string \<Rightarrow> vmess_fields option"

definition parseVMess :: "vmess_decoder \<Rightarrow> string \<Rightarrow> endpoint parse_result" where
  "parseVMess js uri =
     (let b0 = trimPrefix uri ''vmess://'';
          b64 = (case indexByte b0 (CHR ''#'') of Some i \<Rightarrow> take i b0 | None \<Rightarrow> b0)
      in case base64Decode b64 of
           None \<Rightarrow> Failed ''vmess base64''
         | Some data \<Rightarrow>
             (case js data of
                None \<Rightarrow> Failed ''vmess json''
              | Some v \<Rightarrow>
                  (let addr = joinHostPort (vAdd v) (vPort v)
                   in Parsed (fresh_endpoint ''vmess'' addr (vPS v) uri
                        (map_of
                          [(''uuid'', vID v), (''aid'', vAid v), (''net'', vNet v), (''type'', vType v),
                           (''host'', vHost v), (''path'', vPath v), (''tls'', vTLS v)])))))"

definition parseTrojan :: "string \<Rightarrow> endpoint parse_result" where
  "parseTrojan uri =
     (case urlParse uri of
        None \<Rightarrow> Failed ''trojan''
      | Some u \<Rightarrow>
          (let q = query u
           in Parsed (fresh_endpoint ''trojan'' (host u) (fragment u) uri
                (map_of
                  [(''password'', urlUsername u), (''sni'', getParam q ''sni''),
                   (''security'', getParam q ''security''), (''type'', getParam q ''type''),
                   (''path'', getParam q ''path''), (''host'', getParam q ''host''),
                   (''alpn'', getParam q ''alpn''), (''fp'', getParam q ''fp'')]))))"

definition parseAnyTLS :: "string \<Rightarrow> endpoint parse_result" where
  "parseAnyTLS uri =
     (case urlParse uri of
        None \<Rightarrow> Failed ''anytls''
      | Some u \<Rightarrow>
          (let q = query u;
               insecure = (if getParam q ''insecure'' = [] then getParam q ''allowInsecure''
                           else getParam q ''insecure'')
           in Parsed (fresh_endpoint ''anytls'' (host u) (fragment u) uri
                (map_of
                  [(''password'', urlUsername u), (''sni'', getParam q ''sni''), (''insecure'', insecure),
                   (''alpn'', getParam q ''alpn''), (''fp'', getParam q ''fp'')]))))"

text \<open>
  Shadowsocks: base64 user info, else plain \<open>method:password\<close>, else the text before the
  last \<open>@\<close> decoded and the host parsed again. A URI without user info makes
  \<open>Userinfo.String\<close> dereference nil.
\<close>

definition parseSS :: "string \<Rightarrow> endpoint parse_result" where
  "parseSS uri =
     (case urlParse uri of
        None \<Rightarrow> Failed ''ss''
      | Some u \<Rightarrow>
          (case userString u of
             None \<Rightarrow> Panics
           | Some ui \<Rightarrow>
               (let plain = (u, [], []);
                    (u', method, pw) =
                      (case Option.bind (base64Decode ui) (\<lambda>d. cutByte d (CHR '':'')) of
                         Some (me, p) \<Rightarrow> (u, me, p)
                       | None \<Rightarrow>
                           (case urlPassword u of
                              Some p \<Rightarrow> (u, urlUsername u, p)
                            | None \<Rightarrow>
                                (let raw = trimPrefix uri ''ss://''
                                 in case lastIndexByte raw (CHR ''@'') of
                                      None \<Rightarrow> plain
                                    | Some at \<Rightarrow>
                                        (case Option.bind (base64Decode (take at raw)) (\<lambda>d. cutByte d (CHR '':'')) of
                                           None \<Rightarrow> plain
                                         | Some (me, p) \<Rightarrow>
                                             ((case urlParse (''ss://x'' @ drop at raw) of
                                                 Some u2 \<Rightarrow> u\<lparr>host := host u2, fragment := fragment u2\<rparr>
                                               | None \<Rightarrow> u), me, p)))))
                in Parsed (fresh_endpoint ''ss'' (host u') (fragment u') uri
                     (map_of [(''method'', method), (''password'', pw),
                              (''plugin'', getParam (query u') ''plugin'')])))))"

definition parseHysteria2 :: "string \<Rightarrow> endpoint parse_result" where
  "parseHysteria2 uri =
     (case urlParse uri of
        None \<Rightarrow> Failed ''hysteria2''
      | Some u \<Rightarrow>
          (let q = query u
           in Parsed (fresh_endpoint ''hysteria2'' (host u) (fragment u) uri
                (map_of
                  [(''auth'', urlUsername u), (''sni'', getParam q ''sni''),
                   (''insecure'', getParam q ''insecure''), (''obfs'', getParam q ''obfs''),
                   (''obfs_password'', getParam q ''obfs-password'')]))))"

definition parseWireGuard :: "string \<Rightarrow> endpoint parse_result" where
  "parseWireGuard uri =
     (case urlParse uri of
        None \<Rightarrow> Failed ''wireguard''
      | Some u \<Rightarrow>
          (let q = query u
           in Parsed (fresh_endpoint ''wireguard'' (host u) (fragment u) uri
                (map_of
                  [(''private_key'', urlUsername u), (''public_key'', getParam q ''pub''),
                   (''psk'', getParam q ''psk''), (''dns'', getParam q ''dns''),
                   (''allowed_ips'', getParam q ''allowed_ips''), (''mtu'', getParam q ''mtu'')]))))"

definition parseTUIC :: "string \<Rightarrow> endpoint parse_result" where
  "parseTUIC uri =
     (case urlParse uri of
        None \<Rightarrow> Failed ''tuic''
      | Some u \<Rightarrow>
          (let q = query u; pw = (case urlPassword u of Some p \<Rightarrow> p | None \<Rightarrow> [])
           in Parsed (fresh_endpoint ''tuic'' (host u) (fragment u) uri
                (map_of
                  [(''uuid'', urlUsername u), (''password'', pw), (''sni'', getParam q ''sni''),
                   (''congestion'', getParam q ''congestion_control''), (''alpn'', getParam q ''alpn''),
                   (''udp_relay_mode'', getParam q ''udp_relay_mode''),
                   (''reduce_rtt'', getParam q ''reduce_rtt'')]))))"

definition parseMTProxy :: "string \<Rightarrow> endpoint parse_result" where
  "parseMTProxy uri =
     (case urlParse uri of
        None \<Rightarrow> Failed ''mtproxy: parse''
      | Some u \<Rightarrow>
          (let q = query u;
               (server, port, secret) =
                 (if hasPrefix uri ''mtproxy://'' then (urlHostname u, urlPort u, urlUsername u)
                  else (getParam q ''server'', getParam q ''port'', getParam q ''secret''))
           in if server = [] \<or> port = [] \<or> secret = [] then Failed ''mtproxy: need server, port, secret''
              else Parsed (fresh_endpoint ''mtproxy'' (joinHostPort server port) (fragment u) uri
                     (map_of [(''secret'', secret)]))))"

definition parseURI :: "vmess_decoder \<Rightarrow> string \<Rightarrow> endpoint parse_result" where
  "parseURI js uri =
     (if hasPrefix uri ''vless://'' then parseVLESS uri
      else if hasPrefix uri ''vmess://'' then parseVMess js uri
      else if hasPrefix uri ''trojan://'' then parseTrojan uri
      else if hasPrefix uri ''anytls://'' then parseAnyTLS uri
      else if hasPrefix uri ''ss://'' then parseSS uri
      else if hasPrefix uri ''hysteria2://'' then parseHysteria2 uri
      else if hasPrefix uri ''wireguard://'' \<or> hasPrefix uri ''wg://'' then parseWireGuard uri
      else if hasPrefix uri ''tuic://'' then parseTUIC uri
      else if hasPrefix uri ''tg://'' \<or> hasPrefix uri ''mtproxy://'' \<or> hasPrefix uri ''https://t.me/proxy'' then
        parseMTProxy uri
      else Failed (''unsupported scheme: '' @ uri))"

end
