(* ===== verification/Bundle.thy ===== *)
theory Bundle
  imports Subscription
begin

text \<open>
  \<open>moav://\<close> bundles (\<open>subscription/moavbundle.go\<close>): one URL that carries many endpoints,
  each rebuilt as the URI of its protocol and parsed again; and the feed parser
  \<open>ParseSubscription\<close>, which expands them.
\<close>

section \<open>Helpers\<close>

definition defaultStr :: "string \<Rightarrow> string \<Rightarrow> string" where
  "defaultStr v fallback = (if v = [] then fallback else v)"

fun queryKeys :: "config \<Rightarrow> string list \<Rightarrow> string" where
  "queryKeys c [] = []"
| "queryKeys c (k # ks) = (if cget c k \<noteq> [] then cget c k else queryKeys c ks)"

definition hasParam :: "string list \<Rightarrow> string \<Rightarrow> bool" where
  "hasParam params k = list_ex (\<lambda>p. hasPrefix p (k @ ''='')) params"

definition mergeFlat :: "config \<Rightarrow> config \<Rightarrow> config" where
  "mergeFlat a b = a ++ b"

text \<open>\<open>flatten\<close> of the query without its \<open>p\<close> entries: the first value of each key.\<close>

definition flattenShared :: "url_values \<Rightarrow> config" where
  "flattenShared q = map_of (filter (\<lambda>(k, v). k \<noteq> ''p'') q)"

section \<open>Rebuilding a URI\<close>

definition optParam :: "config \<Rightarrow> string \<Rightarrow> string list" where
  "optParam m k = (if cget m k \<noteq> [] then [k @ ''='' @ queryEscape (cget m k)] else [])"

definition vlessParams :: "string \<Rightarrow> config \<Rightarrow> string \<Rightarrow> string \<Rightarrow> string list" where
  "vlessParams addr m transport security =
     (let p1 = [''type='' @ transport, ''encryption=none''];
          p2 = (if security \<noteq> [] then p1 @ [''security='' @ security] else p1);
          p3 = p2 @ concat (map (optParam m) [''flow'', ''sni'', ''fp'', ''pbk'', ''sid'', ''alpn'', ''path'']);
          p4 = (if \<not> hasParam p3 ''sni'' \<and> cget m ''sni_default'' \<noteq> [] then
                  p3 @ [''sni='' @ queryEscape (cget m ''sni_default'')] else p3);
          p5 = p4 @ optParam m ''host''
      in if (transport = ''ws'' \<or> transport = ''httpupgrade'') \<and> \<not> hasParam p5 ''host'' then
           p5 @ [''host='' @ queryEscape addr]
         else p5)"

definition buildVLESSURI ::
  "string \<Rightarrow> string \<Rightarrow> string \<Rightarrow> string \<Rightarrow> config \<Rightarrow> string \<Rightarrow> string \<Rightarrow> string" where
  "buildVLESSURI usr addr port lbl m transport security =
     (let uuid = (if usr \<noteq> [] then usr else cget m ''uuid'')
      in ''vless://'' @ uuid @ ''@'' @ addr @ '':'' @ port @ ''?'' @
         joinWith ''&'' (vlessParams addr m transport security) @ ''#'' @ lbl @ ''-'' @ transport)"

definition trojanURI :: "string \<Rightarrow> string \<Rightarrow> string \<Rightarrow> string \<Rightarrow> string \<Rightarrow> string" where
  "trojanURI pw addr port sni lbl =
     ''trojan://'' @ queryEscape pw @ ''@'' @ addr @ '':'' @ port @ ''?security=tls&sni='' @ queryEscape sni @
     ''&type=tcp#'' @ lbl @ ''-trojan''"

definition anytlsURI :: "string \<Rightarrow> string \<Rightarrow> string \<Rightarrow> string \<Rightarrow> string \<Rightarrow> string" where
  "anytlsURI pw addr port sni lbl =
     ''anytls://'' @ queryEscape pw @ ''@'' @ addr @ '':'' @ port @ ''?sni='' @ queryEscape sni @
     ''&insecure=0#'' @ lbl @ ''-anytls''"

definition ssURI :: "string \<Rightarrow> string \<Rightarrow> string \<Rightarrow> string \<Rightarrow> string \<Rightarrow> string" where
  "ssURI method pw addr port lbl =
     ''ss://'' @ base64URLEncode (method @ '':'' @ pw) @ ''@'' @ addr @ '':'' @ port @ ''#'' @ lbl @ ''-ss''"

definition hy2URI :: "config \<Rightarrow> string \<Rightarrow> string \<Rightarrow> string \<Rightarrow> string \<Rightarrow> string \<Rightarrow> string" where
  "hy2URI m auth addr port sni lbl =
     (let params = [''sni='' @ queryEscape sni] @
            (if cget m ''obfs'' \<noteq> [] then
               [''obfs='' @ queryEscape (cget m ''obfs'')] @
               (if cget m ''obfs_pw'' \<noteq> [] then [''obfs-password='' @ queryEscape (cget m ''obfs_pw'')] else [])
             else [])
      in ''hysteria2://'' @ queryEscape auth @ ''@'' @ addr @ '':'' @ port @ ''?'' @ joinWith ''&'' params @
         ''#'' @ lbl @ ''-hy2'')"

definition tuicURI :: "string \<Rightarrow> string \<Rightarrow> string \<Rightarrow> string \<Rightarrow> string \<Rightarrow> string \<Rightarrow> string" where
  "tuicURI uuid pw addr port sni lbl =
     ''tuic://'' @ uuid @ '':'' @ queryEscape pw @ ''@'' @ addr @ '':'' @ port @ ''?sni='' @ queryEscape sni @
     ''#'' @ lbl @ ''-tuic''"

section \<open>Expanding a record\<close>

definition parseOverrides :: "string list \<Rightarrow> config" where
  "parseOverrides kvs =
     foldl (\<lambda>m kv0. let kv = trimSpace kv0
                    in case indexByte kv (CHR ''='') of
                         Some eq \<Rightarrow> if 0 < eq then m(take eq kv \<mapsto> drop (Suc eq) kv) else m
                       | None \<Rightarrow> m) Map.empty kvs"

definition expandProto ::
  "vmess_decoder \<Rightarrow> string \<Rightarrow> string \<Rightarrow> string \<Rightarrow> string \<Rightarrow> config \<Rightarrow> endpoint parse_result" where
  "expandProto js rec defaultHost userTag lbl shared =
     (case splitOn (CHR '','') rec of
        p0 # p1 # rest \<Rightarrow>
          (let nm = trimSpace p0;
               port = trimSpace p1;
               ov = parseOverrides rest;
               addr = (if cget ov ''host'' \<noteq> [] then cget ov ''host'' else defaultHost);
               ov' = (if cget ov ''host'' \<noteq> [] then ov(''host'' := None) else ov);
               m = mergeFlat shared ov';
               pw = defaultStr (cget m ''pw'') (cget m ''password'');
               sni = queryKeys m [''sni'', ''sni_default'']
           in if nm = ''reality'' then
                parseURI js (buildVLESSURI userTag addr port lbl m ''tcp'' ''reality'')
              else if nm = ''vless-ws'' then
                parseURI js (buildVLESSURI userTag addr port lbl m ''ws'' (cget m ''security''))
              else if nm = ''vless-httpupgrade'' then
                parseURI js (buildVLESSURI userTag addr port lbl m ''httpupgrade'' (cget m ''security''))
              else if nm = ''vless-xhttp'' then
                parseURI js (buildVLESSURI userTag addr port lbl m ''xhttp'' ''reality'')
              else if nm = ''vmess'' then
                Parsed (fresh_endpoint ''vmess'' (addr @ '':'' @ port) (lbl @ ''-vmess'')
                  (''moav-vmess://'' @ addr @ '':'' @ port @ ''#'' @ lbl) m)
              else if nm = ''trojan'' then parseURI js (trojanURI pw addr port sni lbl)
              else if nm = ''anytls'' then parseURI js (anytlsURI pw addr port sni lbl)
              else if nm = ''ss'' then
                parseURI js (ssURI (defaultStr (cget m ''ss_method'') ''aes-256-gcm'')
                  (defaultStr (cget m ''ss_pw'') (cget m ''password'')) addr port lbl)
              else if nm = ''hy2'' then parseURI js (hy2URI m pw addr port sni lbl)
              else if nm = ''tuic'' then parseURI js (tuicURI (cget m ''uuid'') pw addr port sni lbl)
              else Failed (''unknown protocol '' @ nm))
      | _ \<Rightarrow> Failed ''need at least name,port'')"

text \<open>The first record that fails fails the whole bundle.\<close>

fun expandAll :: "(string \<Rightarrow> endpoint parse_result) \<Rightarrow> string list \<Rightarrow> endpoint list parse_result" where
  "expandAll f [] = Parsed []"
| "expandAll f (r # rs) =
     (case f r of
        Failed e \<Rightarrow> Failed (''moav: '' @ e)
      | Panics \<Rightarrow> Panics
      | Parsed ep \<Rightarrow>
          (case expandAll f rs of
             Failed e \<Rightarrow> Failed e
           | Panics \<Rightarrow> Panics
           | Parsed eps \<Rightarrow> Parsed (ep # eps)))"

definition parseMoaVBundle :: "vmess_decoder \<Rightarrow> string \<Rightarrow> endpoint list parse_result" where
  "parseMoaVBundle js uri =
     (if \<not> hasPrefix uri ''moav://'' then Failed ''not a moav:// uri''
      else case urlParse uri of
             None \<Rightarrow> Failed ''moav: parse url''
           | Some u \<Rightarrow>
               if urlHostname u = [] then Failed ''moav: missing defaultHost''
               else (let q = query u; recs = map snd (filter (\<lambda>(k, v). k = ''p'') q)
                     in if recs = [] then Failed ''moav: no p= entries''
                        else expandAll (\<lambda>r. expandProto js r (urlHostname u) (urlUsername u) (fragment u)
                                              (flattenShared q)) recs))"

section \<open>Feeds\<close>

text \<open>One line of a feed: its endpoints; \<open>None\<close> is a panic.\<close>

definition parseLine :: "vmess_decoder \<Rightarrow> string \<Rightarrow> endpoint list option" where
  "parseLine js raw =
     (let line = trimSpace raw
      in if line = [] \<or> hasPrefix line ''#'' then Some []
         else if hasPrefix line ''moav://'' then
           (case parseMoaVBundle js line of Parsed eps \<Rightarrow> Some eps | Failed _ \<Rightarrow> Some [] | Panics \<Rightarrow> None)
         else
           (case parseURI js line of Parsed ep \<Rightarrow> Some [ep] | Failed _ \<Rightarrow> Some [] | Panics \<Rightarrow> None))"

fun parseLines :: "vmess_decoder \<Rightarrow> string list \<Rightarrow> endpoint list option" where
  "parseLines js [] = Some []"
| "parseLines js (l # ls) =
     (case parseLine js l of
        None \<Rightarrow> None
      | Some eps \<Rightarrow> map_option (\<lambda>r. eps @ r) (parseLines js ls))"

definition parseSubscription :: "vmess_decoder \<Rightarrow> string \<Rightarrow> endpoint list option" where
  "parseSubscription js raw =
     (let decoded = (case base64Decode (trimSpace raw) of Some d \<Rightarrow> d | None \<Rightarrow> raw)
      in parseLines js (splitOn (CHR 0x0A) decoded))"

text \<open>
  \<open>FetchSubscription\<close>: an HTTP answer is a status and a body, or a transport error.
\<close>

definition fetchSubscription ::
  "vmess_decoder \<Rightarrow> (string \<Rightarrow> (int \<times> string) option) \<Rightarrow> string \<Rightarrow> endpoint list parse_result" where
  "fetchSubscription js httpGet urlStr =
     (case httpGet urlStr of
        None \<Rightarrow> Failed ''fetcher: GET''
      | Some (status, body) \<Rightarrow>
          if status < 200 \<or> 300 \<le> status then Failed ''fetcher: HTTP''
          else (case parseSubscription js (trimSpace body) of Some eps \<Rightarrow> Parsed eps | None \<Rightarrow> Panics))"

section \<open>What every feed yields\<close>

text \<open>An endpoint as the parsers make it, for the URI it came from.\<close>

definition parsed_from :: "string \<Rightarrow> endpoint \<Rightarrow> bool" where
  "parsed_from uri e \<longleftrightarrow> (\<exists>p a n c. e = fresh_endpoint p a n uri c)"

lemma parsed_fromI: "parsed_from uri (fresh_endpoint p a n uri c)"
  by (auto simp: parsed_from_def)

lemma parseURI_parsed_from: "parseURI js uri = Parsed e \<Longrightarrow> parsed_from uri e"
  unfolding parseURI_def parseVLESS_def parseVMess_def parseTrojan_def parseAnyTLS_def parseSS_def
    parseHysteria2_def parseWireGuard_def parseTUIC_def parseMTProxy_def Let_def
  by (auto split: if_splits option.splits prod.splits intro: parsed_fromI)

lemma parseURI_ex: "parseURI js uri = Parsed e \<Longrightarrow> \<exists>uri. parsed_from uri e"
  using parseURI_parsed_from by blast

lemma expandProto_parsed: "expandProto js r h t l sh = Parsed e \<Longrightarrow> \<exists>uri. parsed_from uri e"
  unfolding expandProto_def Let_def
  by (auto split: if_splits list.splits dest: parseURI_parsed_from intro: parsed_fromI)

lemma expandAll_Parsed:
  "expandAll f rs = Parsed eps \<Longrightarrow> length eps = length rs \<and> (\<forall>i < length rs. f (rs ! i) = Parsed (eps ! i))"
proof (induction rs arbitrary: eps)
  case (Cons r rs)
  then obtain e es where "f r = Parsed e" "expandAll f rs = Parsed es" "eps = e # es"
    by (auto split: parse_result.splits)
  with Cons.IH [of es] show ?case by (auto simp: nth_Cons split: nat.split)
qed auto

lemma parseMoaVBundle_parsed:
  assumes "parseMoaVBundle js uri = Parsed eps" "e \<in> set eps"
  shows "\<exists>uri. parsed_from uri e"
proof -
  obtain f rs where "expandAll f rs = Parsed eps" "\<And>r e. f r = Parsed e \<Longrightarrow> \<exists>uri. parsed_from uri e"
    using assms(1) expandProto_parsed
    by (fastforce simp: parseMoaVBundle_def Let_def split: if_splits option.splits)
  with expandAll_Parsed [of f rs eps] assms(2) show ?thesis by (metis in_set_conv_nth)
qed

lemma parseLine_parsed: "parseLine js l = Some eps \<Longrightarrow> e \<in> set eps \<Longrightarrow> \<exists>uri. parsed_from uri e"
  unfolding parseLine_def Let_def
  by (auto split: if_splits parse_result.splits dest: parseMoaVBundle_parsed parseURI_ex)

lemma parseLines_concat:
  "parseLines js ls = Some eps \<longleftrightarrow>
     (\<forall>l \<in> set ls. parseLine js l \<noteq> None) \<and> eps = concat (map (\<lambda>l. the (parseLine js l)) ls)"
  by (induction ls arbitrary: eps) (auto split: option.splits)

text \<open>
  C30. Every endpoint of a feed, whatever the feed holds, is enabled, unprobed (latency -1,
  status \<open>unknown\<close>), of priority 0 and without a source, and its identifier is its
  protocol and address; the endpoints come line by line, in the order of the lines, so a
  line that does not parse takes nothing else with it.
\<close>

theorem subscription_endpoints:
  assumes "parseSubscription js raw = Some eps"
  shows "(\<forall>e \<in> set eps. Enabled e \<and> LatencyMs e = -1 \<and> Status e = ''unknown'' \<and> Priority e = 0 \<and>
            Source e = [] \<and> ID e = genID (Protocol e) (Address e)) \<and>
    eps = concat (map (\<lambda>l. the (parseLine js l))
      (splitOn (CHR 0x0A) (case base64Decode (trimSpace raw) of Some d \<Rightarrow> d | None \<Rightarrow> raw)))"
proof -
  let ?ls = "splitOn (CHR 0x0A) (case base64Decode (trimSpace raw) of Some d \<Rightarrow> d | None \<Rightarrow> raw)"
  have ls: "\<forall>l \<in> set ?ls. parseLine js l \<noteq> None" "eps = concat (map (\<lambda>l. the (parseLine js l)) ?ls)"
    using assms unfolding parseSubscription_def Let_def parseLines_concat by blast+
  have "\<exists>uri. parsed_from uri e" if "e \<in> set eps" for e
  proof -
    from that ls(2) obtain l where "l \<in> set ?ls" "e \<in> set (the (parseLine js l))" by auto
    with ls(1) show ?thesis using parseLine_parsed [of js l "the (parseLine js l)" e] by auto
  qed
  then have "\<forall>e \<in> set eps. Enabled e \<and> LatencyMs e = -1 \<and> Status e = ''unknown'' \<and> Priority e = 0 \<and>
      Source e = [] \<and> ID e = genID (Protocol e) (Address e)"
    by (fastforce simp: parsed_from_def)
  with ls(2) show ?thesis by blast
qed

text \<open>
  A feed means the same plain or base64-encoded, as long as it holds a URI (its colon
  keeps the plain text from decoding).
\<close>

theorem subscription_encoding:
  assumes "CHR '':'' \<in> set feed"
  shows "parseSubscription js (base64URLEncode feed) = parseSubscription js feed"
proof -
  have "base64URLEncode feed = trimSpace (base64URLEncode feed)"
    using encode_clean(1) by (intro trimSpace_no_space [symmetric]) blast
  then have "base64Decode (trimSpace (base64URLEncode feed)) = Some feed"
    using base64_roundtrip by metis
  moreover have "CHR '':'' \<in> set (trimSpace feed)" using assms trimSpace_keeps by (auto simp: isSpace_def)
  then have "base64Decode (trimSpace feed) = None" by (rule base64Decode_colon)
  ultimately show ?thesis by (simp add: parseSubscription_def)
qed

section \<open>Credentials survive the rebuild\<close>

lemma parseUser_plain:
  assumes "validUserinfo ui" "CHR '':'' \<notin> set ui" "unescape UserPassword ui = Some un"
  shows "parseUser ui = Some \<lparr>username = un, password = None\<rparr>"
  using assms by (simp add: parseUser_def split: option.split) (metis cutByte_None option.distinct(1))

lemma escaped_user:
  "parseUser (queryEscape pw) = Some \<lparr>username = replaceByte (CHR '' '') (CHR ''+'') pw, password = None\<rparr>"
  using queryEscape_clean [of "CHR '':''" pw]
  by (intro parseUser_plain queryEscape_validUserinfo unescape_user_queryEscape) (simp add: delimiters_def)

lemma escaped_user_clean:
  "set (queryEscape pw) \<inter> set ''#?/@'' = {}"
  using queryEscape_clean [of _ pw] by (auto simp: delimiters_def)

lemma fragment_plain: "CHR ''%'' \<notin> set l \<Longrightarrow> unescape FragmentMode l = Some l"
  by (rule unescape_plain) auto

lemma urlParse_escaped:
  assumes "unreservedAll sch" "unreservedAll addr" "digitsOnly port" "kvs \<noteq> []"
    and "\<forall>(k, v) \<in> set kvs. unreservedAll k \<and> k \<noteq> []" "CHR ''%'' \<notin> set frag"
  shows "\<exists>u. urlParse (sch @ ''://'' @ queryEscape pw @ ''@'' @ addr @ '':'' @ port @ ''?'' @
        joinWith ''&'' (map paramStr kvs) @ ''#'' @ frag) = Some u \<and>
    host u = addr @ '':'' @ port \<and> fragment u = frag \<and> query u = kvs \<and>
    urlUsername u = replaceByte (CHR '' '') (CHR ''+'') pw"
proof -
  let ?q = "joinWith ''&'' (map paramStr kvs)"
  have "urlParse (sch @ ''://'' @ queryEscape pw @ ''@'' @ addr @ '':'' @ port @ (CHR ''?'' # ?q) @ ''#'' @ frag) =
    Some \<lparr>scheme = sch, user = Some \<lparr>username = replaceByte (CHR '' '') (CHR ''+'') pw, password = None\<rparr>,
          host = addr @ '':'' @ port, rawQuery = ?q, fragment = frag\<rparr>"
    using assms escaped_user_clean queryEscape_no_CTL escaped_user params_clean [of kvs] fragment_plain
    by (intro urlParse_build) auto
  with assms(4,5) show ?thesis by (simp add: query_def parseQuery_build urlUsername_def)
qed

lemma paramStr_unreserved: "unreservedAll v \<Longrightarrow> paramStr (k, v) = k @ ''='' @ v"
  by (simp add: paramStr_def)

lemma unreserved_not_space: "isUnreserved c \<Longrightarrow> \<not> isSpace c"
proof -
  have "\<not> isUnreserved (CHR '' '')" "\<not> isUnreserved (CHR 0x09)" "\<not> isUnreserved (CHR 0x0A)"
    "\<not> isUnreserved (CHR 0x0B)" "\<not> isUnreserved (CHR 0x0C)" "\<not> isUnreserved (CHR 0x0D)"
    by code_simp+
  then show "isUnreserved c \<Longrightarrow> ?thesis" by (auto simp: isSpace_def)
qed

lemma codes_unreserved [simp]:
  "unreservedAll ''trojan''" "unreservedAll ''anytls''" "unreservedAll ''vless''" "unreservedAll ''tls''"
  "unreservedAll ''sni''" "unreservedAll ''security''" "unreservedAll ''type''" "unreservedAll ''tcp''"
  "unreservedAll ''insecure''" "unreservedAll ''0''" "unreservedAll ''encryption''" "unreservedAll ''none''"
  "unreservedAll ''flow''" "unreservedAll ''fp''" "unreservedAll ''pbk''" "unreservedAll ''sid''"
  "unreservedAll ''alpn''" "unreservedAll ''path''" "unreservedAll ''host''" "unreservedAll ''reality''"
  "unreservedAll ''ws''" "unreservedAll ''httpupgrade''" "unreservedAll ''xhttp''" "unreservedAll ''ss''"
  by code_simp+

text \<open>
  A \<open>trojan\<close> or \<open>anytls\<close> record of a bundle yields an endpoint at the right address
  with the bundle's server name and password, except that a space in the password comes
  back as a plus sign.
\<close>

theorem bundle_password:
  assumes "unreservedAll addr" "digitsOnly port" "CHR ''%'' \<notin> set lbl"
  shows "\<exists>e f. parseURI js (trojanURI pw addr port sni lbl) = Parsed e \<and>
      parseURI js (anytlsURI pw addr port sni lbl) = Parsed f \<and>
      Address e = addr @ '':'' @ port \<and> Address f = addr @ '':'' @ port \<and>
      Name e = lbl @ ''-trojan'' \<and> Name f = lbl @ ''-anytls'' \<and>
      cget (Config e) ''password'' = replaceByte (CHR '' '') (CHR ''+'') pw \<and>
      cget (Config f) ''password'' = replaceByte (CHR '' '') (CHR ''+'') pw \<and>
      cget (Config e) ''sni'' = sni \<and> cget (Config f) ''sni'' = sni \<and> cget (Config e) ''security'' = ''tls''"
proof -
  let ?t = "[(''security'', ''tls''), (''sni'', sni), (''type'', ''tcp'')]"
    and ?a = "[(''sni'', sni), (''insecure'', ''0'')]"
  have t: "trojanURI pw addr port sni lbl = ''trojan'' @ ''://'' @ queryEscape pw @ ''@'' @ addr @ '':'' @ port @ ''?'' @
      joinWith ''&'' (map paramStr ?t) @ ''#'' @ (lbl @ ''-trojan'')"
    by (simp add: trojanURI_def paramStr_def)
  have a: "anytlsURI pw addr port sni lbl = ''anytls'' @ ''://'' @ queryEscape pw @ ''@'' @ addr @ '':'' @ port @ ''?'' @
      joinWith ''&'' (map paramStr ?a) @ ''#'' @ (lbl @ ''-anytls'')"
    by (simp add: anytlsURI_def paramStr_def)
  obtain u where u: "urlParse (trojanURI pw addr port sni lbl) = Some u" "host u = addr @ '':'' @ port"
      "fragment u = lbl @ ''-trojan''" "query u = ?t" "urlUsername u = replaceByte (CHR '' '') (CHR ''+'') pw"
    using urlParse_escaped [of "''trojan''" addr port ?t "lbl @ ''-trojan''" pw] assms unfolding t by auto
  obtain v where v: "urlParse (anytlsURI pw addr port sni lbl) = Some v" "host v = addr @ '':'' @ port"
      "fragment v = lbl @ ''-anytls''" "query v = ?a" "urlUsername v = replaceByte (CHR '' '') (CHR ''+'') pw"
    using urlParse_escaped [of "''anytls''" addr port ?a "lbl @ ''-anytls''" pw] assms unfolding a by auto
  have "parseURI js (trojanURI pw addr port sni lbl) = parseTrojan (trojanURI pw addr port sni lbl)"
    "parseURI js (anytlsURI pw addr port sni lbl) = parseAnyTLS (anytlsURI pw addr port sni lbl)"
    by (simp_all add: parseURI_def trojanURI_def anytlsURI_def hasPrefix_def)
  then show ?thesis
    using u v by (simp add: parseTrojan_def parseAnyTLS_def Let_def getParam_def cget_def)
qed

definition vlessKvs :: "string \<Rightarrow> config \<Rightarrow> string \<Rightarrow> (string \<times> string) list" where
  "vlessKvs addr m security =
     (let opt = (\<lambda>k. if cget m k \<noteq> [] then [(k, cget m k)] else [])
      in [(''type'', ''tcp''), (''encryption'', ''none'')] @ [(''security'', ''reality'')] @
         opt ''flow'' @ opt ''sni'' @ opt ''fp'' @ opt ''pbk'' @ opt ''sid'' @ opt ''alpn'' @ opt ''path'' @
         (if cget m ''sni'' = [] \<and> cget m ''sni_default'' \<noteq> [] then [(''sni'', cget m ''sni_default'')] else []) @
         opt ''host'')"

lemma getParam_Cons: "getParam ((k, v) # xs) k' = (if k' = k then v else getParam xs k')"
  by (simp add: getParam_def)

lemma getParam_opt: "getParam ((if b then [(k, v)] else []) @ xs) k' = (if b \<and> k' = k then v else getParam xs k')"
  by (simp add: getParam_def)

lemma getParam_opt_last: "getParam (if b then [(k, v)] else []) k' = (if b \<and> k' = k then v else [])"
  by (simp add: getParam_def)

lemma optParam_str: "unreservedAll k \<Longrightarrow> optParam m k = map paramStr (if cget m k \<noteq> [] then [(k, cget m k)] else [])"
  by (simp add: optParam_def paramStr_def)

lemma hasParam_opt:
  "hasParam (xs @ ys) k \<longleftrightarrow> hasParam xs k \<or> hasParam ys k" "hasParam [] k \<longleftrightarrow> False"
  "hasParam (x # xs) k \<longleftrightarrow> hasPrefix x (k @ ''='') \<or> hasParam xs k"
  by (auto simp: hasParam_def)

lemma hasParam_optParam:
  "CHR ''='' \<notin> set k \<Longrightarrow> CHR ''='' \<notin> set k' \<Longrightarrow>
   hasParam (optParam m k') k \<longleftrightarrow> k' = k \<and> cget m k \<noteq> []"
proof -
  assume k: "CHR ''='' \<notin> set k" "CHR ''='' \<notin> set k'"
  have "hasPrefix (k' @ ''='' @ v) (k @ ''='') \<longleftrightarrow> k' = k" for v
  proof
    assume "hasPrefix (k' @ ''='' @ v) (k @ ''='')"
    then obtain r where "k' @ CHR ''='' # v = k @ CHR ''='' # r" by (auto simp: hasPrefix_append)
    then have "cutByte (k' @ CHR ''='' # v) (CHR ''='') = cutByte (k @ CHR ''='' # r) (CHR ''='')" by simp
    with k show "k' = k" by simp
  qed (auto simp: hasPrefix_append)
  then show ?thesis by (auto simp: optParam_def hasParam_def)
qed

lemma append_if: "(if c then xs @ ys else xs) = xs @ (if c then ys else [])"
  by simp

lemma map_if_Nil: "map f (if c then xs else []) = (if c then map f xs else [])"
  by simp

lemma vlessParams_reality:
  "vlessParams addr m ''tcp'' ''reality'' = map paramStr (vlessKvs addr m ''reality'')"
proof -
  let ?ks = "[''flow'', ''sni'', ''fp'', ''pbk'', ''sid'', ''alpn'', ''path'']"
  let ?p3 = "[''type=tcp'', ''encryption=none'', ''security=reality''] @ concat (map (optParam m) ?ks)"
  have h: "hasParam ?p3 ''sni'' \<longleftrightarrow> cget m ''sni'' \<noteq> []"
    by (simp add: hasParam_opt hasParam_optParam hasPrefix_def)
  have "vlessParams addr m ''tcp'' ''reality'' =
      (if \<not> hasParam ?p3 ''sni'' \<and> cget m ''sni_default'' \<noteq> [] then
         ?p3 @ [''sni='' @ queryEscape (cget m ''sni_default'')] else ?p3) @ optParam m ''host''"
    by (simp add: vlessParams_def Let_def)
  also have "\<dots> = ?p3 @ (if cget m ''sni'' = [] \<and> cget m ''sni_default'' \<noteq> [] then
         [''sni='' @ queryEscape (cget m ''sni_default'')] else []) @ optParam m ''host''"
    unfolding h append_if by simp
  also have "\<dots> = map paramStr (vlessKvs addr m ''reality'')"
    by (simp add: vlessKvs_def Let_def optParam_def map_if_Nil paramStr_def split del: if_split cong: if_cong)
  finally show ?thesis .
qed

text \<open>The rebuilt URI of a \<open>reality\<close> record, parsed.\<close>

lemma reality_uri:
  assumes "unreservedAll addr" "digitsOnly port" "CHR ''%'' \<notin> set lbl"
    and "unreservedAll (if tag \<noteq> [] then tag else cget m ''uuid'')"
  shows "\<exists>e. parseURI js (buildVLESSURI tag addr port lbl m ''tcp'' ''reality'') = Parsed e \<and>
      Protocol e = ''vless'' \<and> Address e = addr @ '':'' @ port \<and> Name e = lbl @ ''-tcp'' \<and>
      cget (Config e) ''uuid'' = (if tag \<noteq> [] then tag else cget m ''uuid'') \<and>
      cget (Config e) ''security'' = ''reality'' \<and> cget (Config e) ''net'' = ''tcp'' \<and>
      (\<forall>k \<in> set [''pbk'', ''sid'', ''fp'', ''flow'', ''alpn'', ''path'', ''host'']. cget (Config e) k = cget m k) \<and>
      cget (Config e) ''sni'' = queryKeys m [''sni'', ''sni_default'']"
proof -
  let ?uuid = "if tag \<noteq> [] then tag else cget m ''uuid''" and ?kvs = "vlessKvs addr m ''reality''"
  have b: "buildVLESSURI tag addr port lbl m ''tcp'' ''reality'' = ''vless'' @ ''://'' @ queryEscape ?uuid @ ''@'' @ addr @
      '':'' @ port @ ''?'' @ joinWith ''&'' (map paramStr ?kvs) @ ''#'' @ (lbl @ ''-tcp'')"
    using assms(4) by (simp add: buildVLESSURI_def vlessParams_reality Let_def)
  have kv: "?kvs \<noteq> []" "\<forall>(k, v) \<in> set ?kvs. unreservedAll k \<and> k \<noteq> []"
    by (auto simp: vlessKvs_def Let_def)
  have sp: "CHR '' '' \<notin> set ?uuid"
  proof -
    have "\<not> isUnreserved (CHR '' '')" by code_simp
    then show ?thesis using assms(4) by (auto simp: unreservedAll_def list_all_iff)
  qed
  then have rep: "replaceByte (CHR '' '') (CHR ''+'') ?uuid = ?uuid"
    by (auto simp: replaceByte_def intro!: map_idI)
  have "CHR ''%'' \<notin> set (lbl @ ''-tcp'')" using assms(3) by simp
  from urlParse_escaped [OF codes_unreserved(3) assms(1,2) kv this, of ?uuid] obtain u
    where u: "urlParse (buildVLESSURI tag addr port lbl m ''tcp'' ''reality'') = Some u" "host u = addr @ '':'' @ port"
      "fragment u = lbl @ ''-tcp''" "query u = ?kvs" "urlUsername u = ?uuid"
    unfolding b rep by blast
  have g: "getParam ?kvs ''type'' = ''tcp''" "getParam ?kvs ''security'' = ''reality''"
      "getParam ?kvs ''flow'' = cget m ''flow''" "getParam ?kvs ''fp'' = cget m ''fp''"
      "getParam ?kvs ''pbk'' = cget m ''pbk''" "getParam ?kvs ''sid'' = cget m ''sid''"
      "getParam ?kvs ''alpn'' = cget m ''alpn''" "getParam ?kvs ''path'' = cget m ''path''"
      "getParam ?kvs ''host'' = cget m ''host''" "getParam ?kvs ''sni'' = queryKeys m [''sni'', ''sni_default'']"
    unfolding vlessKvs_def Let_def append_Cons append_Nil
    by (simp_all add: getParam_Cons getParam_opt getParam_opt_last)
  have p: "parseURI js (buildVLESSURI tag addr port lbl m ''tcp'' ''reality'') =
      parseVLESS (buildVLESSURI tag addr port lbl m ''tcp'' ''reality'')"
    by (simp add: parseURI_def buildVLESSURI_def hasPrefix_def Let_def)
  show ?thesis unfolding p using u g by (simp add: parseVLESS_def Let_def cget_def [of "map_of _"])
qed

text \<open>The overrides of a record are its pairs; the last one of a key counts.\<close>

definition recordText :: "string \<Rightarrow> string \<Rightarrow> (string \<times> string) list \<Rightarrow> string" where
  "recordText nm port ovs = joinWith '','' (nm # port # map (\<lambda>(k, v). k @ ''='' @ v) ovs)"

definition override_ok :: "string \<times> string \<Rightarrow> bool" where
  "override_ok kv \<longleftrightarrow>
     (case kv of (k, v) \<Rightarrow> k \<noteq> [] \<and> CHR ''='' \<notin> set k \<and> CHR '','' \<notin> set k \<and> CHR '','' \<notin> set v \<and>
        trimSpace (k @ ''='' @ v) = k @ ''='' @ v)"

lemma parseOverrides_pairs:
  assumes "\<forall>kv \<in> set ovs. override_ok kv"
  shows "parseOverrides (map (\<lambda>(k, v). k @ ''='' @ v) ovs) = map_of (rev ovs)"
  using assms
proof (induction ovs rule: rev_induct)
  case (snoc kv ovs)
  obtain k v where kv: "kv = (k, v)" by (cases kv)
  with snoc.prems have ok: "k \<noteq> []" "CHR ''='' \<notin> set k" "trimSpace (k @ ''='' @ v) = k @ ''='' @ v"
    by (auto simp: override_ok_def)
  have ix: "indexByte (k @ CHR ''='' # v) (CHR ''='') = Some (length k)" using ok(2) by simp
  have "parseOverrides (map (\<lambda>(k, v). k @ ''='' @ v) (ovs @ [kv])) =
      (parseOverrides (map (\<lambda>(k, v). k @ ''='' @ v) ovs))(k \<mapsto> v)"
    unfolding parseOverrides_def using ok ix by (simp add: kv Let_def)
  then show ?case using snoc by (simp add: kv)
qed (simp add: parseOverrides_def)

lemma splitOn_record:
  assumes "CHR '','' \<notin> set nm" "CHR '','' \<notin> set port" "\<forall>kv \<in> set ovs. override_ok kv"
  shows "splitOn (CHR '','') (recordText nm port ovs) = nm # port # map (\<lambda>(k, v). k @ ''='' @ v) ovs"
  unfolding recordText_def
  by (rule splitOn_joinWith) (use assms in \<open>auto simp: override_ok_def\<close>)

text \<open>
  C31. A \<open>reality\<close> record of a bundle becomes a VLESS endpoint with what the bundle holds: key,
  short id, fingerprint, flow and path, whatever bytes they hold, are those of the record, or the
  shared ones where the record has none; the server name falls back to the shared default; the
  user is the bundle's tag or its \<open>uuid\<close>; the server is the bundle's, or the record's \<open>host\<close>,
  which is then not passed on as a header. The name is the label with the suffix \<open>-tcp\<close>, the
  transport, where \<open>docs/MOAV_BUNDLE.md\<close> has \<open>-reality\<close>. Overrides cannot hold a comma, which
  separates them.
\<close>

theorem bundle_reality:
  fixes ovs shared defaultHost
  defines "given \<equiv> (\<lambda>k. case map_of (rev ovs) k of Some v \<Rightarrow> v | None \<Rightarrow> cget shared k)"
  defines "addr \<equiv> (if cget (map_of (rev ovs)) ''host'' \<noteq> [] then cget (map_of (rev ovs)) ''host'' else defaultHost)"
  assumes "\<forall>kv \<in> set ovs. override_ok kv" "digitsOnly port" "unreservedAll addr" "CHR ''%'' \<notin> set lbl"
    and "unreservedAll (if tag \<noteq> [] then tag else given ''uuid'')"
  shows "\<exists>e. expandProto js (recordText ''reality'' port ovs) defaultHost tag lbl shared = Parsed e \<and>
      Protocol e = ''vless'' \<and> Address e = addr @ '':'' @ port \<and> Name e = lbl @ ''-tcp'' \<and>
      cget (Config e) ''uuid'' = (if tag \<noteq> [] then tag else given ''uuid'') \<and>
      cget (Config e) ''security'' = ''reality'' \<and> cget (Config e) ''net'' = ''tcp'' \<and>
      (\<forall>k \<in> set [''pbk'', ''sid'', ''fp'', ''flow'', ''alpn'', ''path'']. cget (Config e) k = given k) \<and>
      cget (Config e) ''sni'' = (if given ''sni'' \<noteq> [] then given ''sni'' else given ''sni_default'') \<and>
      cget (Config e) ''host'' = (if cget (map_of (rev ovs)) ''host'' \<noteq> [] then cget shared ''host'' else given ''host'')"
proof -
  let ?ov = "map_of (rev ovs)"
  define m0 where "m0 = mergeFlat shared (if cget ?ov ''host'' \<noteq> [] then ?ov(''host'' := None) else ?ov)"
  have m: "cget m0 k = given k" if "k \<noteq> ''host''" for k
    using that by (auto simp: m0_def mergeFlat_def given_def cget_def map_add_def split: option.split)
  have mh: "cget m0 ''host'' = (if cget ?ov ''host'' \<noteq> [] then cget shared ''host'' else given ''host'')"
    by (auto simp: m0_def mergeFlat_def given_def cget_def map_add_def split: option.split)
  have un: "\<forall>c \<in> set port. isUnreserved c"
    using digits_unreserved [OF assms(4)] by (simp add: unreservedAll_def list_all_iff)
  moreover have "\<not> isUnreserved (CHR '','')" by code_simp
  ultimately have port: "CHR '','' \<notin> set port" "trimSpace port = port"
    using unreserved_not_space by (blast, intro trimSpace_no_space) blast
  have nm: "trimSpace ''reality'' = ''reality''" by code_simp
  have sp: "splitOn (CHR '','') (recordText ''reality'' port ovs) = ''reality'' # port # map (\<lambda>(k, v). k @ ''='' @ v) ovs"
    by (rule splitOn_record) (use port assms(3) in simp_all)
  have ex: "expandProto js (recordText ''reality'' port ovs) defaultHost tag lbl shared =
      parseURI js (buildVLESSURI tag addr port lbl m0 ''tcp'' ''reality'')"
    unfolding expandProto_def sp list.case parseOverrides_pairs [OF assms(3)] by (simp add: port nm addr_def m0_def Let_def)
  have "unreservedAll (if tag \<noteq> [] then tag else cget m0 ''uuid'')" using assms(7) m [of "''uuid''"] by (simp split: if_splits)
  from reality_uri [OF assms(5,4,6) this, of js] show ?thesis
    unfolding ex by (elim ex_forward) (simp add: m mh)
qed





text \<open>
  C40. A Shadowsocks URI without user info panics the parser, and with it the parse of the
  whole feed, whatever the other lines are.
\<close>

theorem ss_without_user_panics:
  assumes "unreservedAll addr" "digitsOnly port" "CHR '':'' \<in> set feed"
    and "(''ss://'' @ addr @ '':'' @ port) \<in> set (splitOn (CHR 0x0A) feed)"
  shows "parseSubscription js feed = None"
proof -
  let ?auth = "addr @ '':'' @ port"
  let ?uri = "''ss://'' @ ?auth"
  note pd = digits_unreserved [OF assms(2)]
  have no: "CHR ''#'' \<notin> set ?uri"
    using unreserved_delims [OF assms(1)] unreserved_delims [OF pd] by (simp add: delimiters_def)
  have noa: "CHR ''/'' \<notin> set ?auth" "CHR ''?'' \<notin> set ?auth" "CHR ''@'' \<notin> set ?auth"
    using unreserved_delims [OF assms(1)] unreserved_delims [OF pd] by (simp_all add: delimiters_def)
  have ctl: "\<not> list_ex isCTL ?uri"
    using unreserved_no_CTL [OF assms(1)] unreserved_no_CTL [OF pd] by (simp add: isCTL_def)
  have c: "cutOr ?uri (CHR ''#'') = (?uri, [])" by (rule cutOr_none [OF no])
  have i: "indexStr ?uri ''://'' = Some 2" by (simp add: hasPrefix_def)
  have q: "cutOr (drop (2 + 3) ?uri) (CHR ''?'') = (?auth, [])"
    using cutOr_none [OF noa(2)] by simp
  have ib: "indexByte ?auth (CHR ''/'') = None" using noa(1) by (simp only: indexByte_None not_False_eq_True)
  have lb: "lastIndexByte ?auth (CHR ''@'') = None" using noa(3) by (simp only: lastIndexByte_None not_False_eq_True)
  have pa: "parseAuthority ?auth = Some (None, ?auth)"
    unfolding parseAuthority_def lb option.case using parseHost_plain [OF assms(1,2)] by simp
  have u: "urlParse ?uri = Some \<lparr>scheme = ''ss'', user = None, host = ?auth, rawQuery = [], fragment = []\<rparr>"
    unfolding urlParse_def c Let_def prod.case i option.case q ib pa unescape.simps using ctl by simp
  have "parseURI js ?uri = Panics"
    using u by (simp add: parseURI_def hasPrefix_def parseSS_def userString_def)
  moreover have "trimSpace ?uri = ?uri"
  proof (rule trimSpace_no_space, rule ballI)
    fix x assume "x \<in> set ?uri"
    then have "isUnreserved x \<or> x = CHR '':'' \<or> x = CHR ''/'' \<or> x = CHR ''s''"
      using assms(1) pd by (auto simp: unreservedAll_def list_all_iff)
    then show "\<not> isSpace x"
      using unreserved_not_space by (elim disjE) (simp_all add: isSpace_def)
  qed
  ultimately have "parseLine js ?uri = None"
    by (simp add: parseLine_def Let_def hasPrefix_def)
  then have "parseLines js (splitOn (CHR 0x0A) feed) = None"
    using assms(4) parseLines_concat by (metis option.exhaust)
  moreover have "CHR '':'' \<in> set (trimSpace feed)"
    by (rule trimSpace_keeps [OF assms(3)]) (simp add: isSpace_def)
  ultimately show ?thesis by (simp add: parseSubscription_def base64Decode_colon)
qed

section \<open>Concrete feeds\<close>

definition no_vmess :: vmess_decoder where
  "no_vmess = (\<lambda>_. None)"

definition feed2 :: string where
  "feed2 = ''# my servers'' @ [CHR 0x0A] @ ''trojan://p%40ss@h.example:443?sni=s#N'' @ [CHR 0x0A] @ ''bogus'' @
     [CHR 0x0A] @ ''anytls://q@h.example:8443#M''"

lemma feed2_parses:
  "map_option (map ID) (parseSubscription no_vmess feed2) = Some [''trojan:h.example:443'', ''anytls:h.example:8443'']"
  by code_simp

theorem subscription_endpoints_witness:
  "\<exists>eps. parseSubscription no_vmess feed2 = Some eps \<and> length eps = 2 \<and>
     (\<forall>e \<in> set eps. Enabled e \<and> Status e = ''unknown'')"
proof -
  obtain eps where eps: "parseSubscription no_vmess feed2 = Some eps"
      "map ID eps = [''trojan:h.example:443'', ''anytls:h.example:8443'']"
    using feed2_parses by (cases "parseSubscription no_vmess feed2") auto
  from eps(2) have "length (map ID eps) = 2" by simp
  then have "length eps = 2" by (simp only: length_map)
  with subscription_endpoints [OF eps(1)] eps(1) show ?thesis by blast
qed

theorem subscription_encoding_witness:
  "parseSubscription no_vmess (base64URLEncode feed2) \<noteq> None"
proof -
  have "CHR '':'' \<in> set feed2" by code_simp
  from subscription_encoding [OF this, of no_vmess] feed2_parses show ?thesis
    by (metis option.simps(3,8))
qed

lemma plain_codes: "unreservedAll ''cdn.example''" "digitsOnly ''443''" "unreservedAll ''alice''"
  by code_simp+

theorem bundle_password_witness:
  "\<exists>e. parseURI no_vmess (trojanURI ''p@ss word'' ''cdn.example'' ''443'' ''s.example'' ''home'') = Parsed e \<and>
     cget (Config e) ''password'' = ''p@ss+word''"
  using bundle_password [OF plain_codes(1,2), of "''home''" no_vmess "''p@ss word''" "''s.example''"]
  by (auto simp: replaceByte_def)

theorem bundle_reality_witness:
  "\<exists>e. expandProto no_vmess ''reality,443,pbk=a+b/c=,path=/x'' ''cdn.example'' ''alice'' ''home''
          [''pbk'' \<mapsto> ''old'', ''sni_default'' \<mapsto> ''s.example''] = Parsed e \<and> Name e = ''home-tcp'' \<and>
     cget (Config e) ''pbk'' = ''a+b/c='' \<and> cget (Config e) ''sni'' = ''s.example'' \<and> cget (Config e) ''uuid'' = ''alice''"
proof -
  let ?ovs = "[(''pbk'', ''a+b/c=''), (''path'', ''/x'')]"
  have ok: "\<forall>kv \<in> set ?ovs. override_ok kv" by code_simp
  have r: "recordText ''reality'' ''443'' ?ovs = ''reality,443,pbk=a+b/c=,path=/x''" by code_simp
  show ?thesis
    using bundle_reality [OF ok plain_codes(2), of "''cdn.example''" "''home''" "''alice''"
        "[''pbk'' \<mapsto> ''old'', ''sni_default'' \<mapsto> ''s.example'']" no_vmess] plain_codes(1,3)
    by (auto simp: r cget_def)
qed


theorem ss_without_user_panics_witness:
  "parseSubscription no_vmess (''trojan://p@h:443'' @ CHR 0x0A # ''ss://cdn.example:443'') = None"
proof -
  let ?feed = "''trojan://p@h:443'' @ CHR 0x0A # ''ss://cdn.example:443''"
  have "splitOn (CHR 0x0A) ?feed = [''trojan://p@h:443'', ''ss://cdn.example:443'']" by code_simp
  then have "(''ss://'' @ ''cdn.example'' @ '':'' @ ''443'') \<in> set (splitOn (CHR 0x0A) ?feed)"
    by (simp only: append_Cons append_Nil list.set insert_iff) simp
  moreover have "CHR '':'' \<in> set ?feed" by (rule UnI1 [THEN set_append [THEN equalityD2, THEN subsetD]]) simp
  ultimately show ?thesis by (intro ss_without_user_panics [OF plain_codes(1,2)])
qed

end
