(* ===== verification/WG_Conf.thy ===== *)
theory WG_Conf
  imports Subscription
begin

text \<open>
  WireGuard and AmneziaWG configuration files (\<open>subscription/wgconf.go\<close>).
\<close>

section \<open>Reading the file\<close>

record wg_state =
  wSection :: string
  wCfg :: config
  wAddress :: "string list"
  wAllowed :: "string list"
  wEndpoint :: string

definition splitCSV :: "string \<Rightarrow> string list" where
  "splitCSV s = filter (\<lambda>p. p \<noteq> []) (map trimSpace (splitOn (CHR '','') s))"

definition obfuscationKeys :: "string list" where
  "obfuscationKeys = [''Jc'', ''Jmin'', ''Jmax'', ''S1'', ''S2'', ''H1'', ''H2'', ''H3'', ''H4'']"

definition setKey :: "string \<Rightarrow> string \<Rightarrow> wg_state \<Rightarrow> wg_state" where
  "setKey k v w = w\<lparr>wCfg := (wCfg w)(k \<mapsto> v)\<rparr>"

definition wgKey :: "string \<Rightarrow> string \<Rightarrow> wg_state \<Rightarrow> wg_state" where
  "wgKey key val w =
     (if wSection w = ''interface'' then
        (if key = ''PrivateKey'' then setKey ''private_key'' val w
         else if key = ''Address'' then w\<lparr>wAddress := wAddress w @ splitCSV val\<rparr>
         else if key = ''DNS'' then setKey ''dns'' val w
         else if key = ''MTU'' then setKey ''mtu'' val w
         else if key \<in> set obfuscationKeys then setKey (toLower key) val w
         else w)
      else if wSection w = ''peer'' then
        (if key = ''PublicKey'' then setKey ''public_key'' val w
         else if key = ''PresharedKey'' then setKey ''psk'' val w
         else if key = ''AllowedIPs'' then w\<lparr>wAllowed := wAllowed w @ splitCSV val\<rparr>
         else if key = ''Endpoint'' then w\<lparr>wEndpoint := val\<rparr>
         else if key = ''PersistentKeepalive'' then setKey ''persistent_keepalive'' val w
         else w)
      else w)"

definition wgLine :: "wg_state \<Rightarrow> string \<Rightarrow> wg_state" where
  "wgLine w raw =
     (let line = trimSpace raw
      in if line = [] \<or> hasPrefix line ''#'' then w
         else if hasPrefix line ''['' \<and> hasSuffix line '']'' then
           w\<lparr>wSection := toLower (trimChars line ''[]'')\<rparr>
         else case indexByte line (CHR ''='') of
                None \<Rightarrow> w
              | Some eq \<Rightarrow> wgKey (trimSpace (take eq line)) (trimSpace (drop (Suc eq) line)) w)"

definition wgInit :: wg_state where
  "wgInit = \<lparr>wSection = [], wCfg = Map.empty, wAddress = [], wAllowed = [], wEndpoint = []\<rparr>"

section \<open>Building the endpoint\<close>

definition wgConfig :: "wg_state \<Rightarrow> config" where
  "wgConfig w =
     (let c1 = (if wAddress w \<noteq> [] then (wCfg w)(''address'' \<mapsto> joinWith '','' (wAddress w)) else wCfg w)
      in if wAllowed w \<noteq> [] then c1(''allowed_ips'' \<mapsto> joinWith '','' (wAllowed w)) else c1)"

definition wgFinish :: "string \<Rightarrow> wg_state \<Rightarrow> endpoint parse_result" where
  "wgFinish nameHint w =
     (if wEndpoint w = [] then Failed ''wg conf: missing Peer.Endpoint''
      else if cget (wCfg w) ''private_key'' = [] \<or> cget (wCfg w) ''public_key'' = [] then
        Failed ''wg conf: missing PrivateKey or PublicKey''
      else
        (let c = wgConfig w;
             protocol = (if c ''jc'' \<noteq> None then ''amneziawg'' else ''wireguard'')
         in case splitHostPort (wEndpoint w) of
              Inl _ \<Rightarrow> Failed ''wg conf endpoint''
            | Inr (h, port) \<Rightarrow>
                (case strconvAtoi port of
                   None \<Rightarrow> Failed ''wg conf endpoint port''
                 | Some _ \<Rightarrow>
                     Parsed ((fresh_endpoint protocol (joinHostPort h port) nameHint (''wgconf://'' @ nameHint) c)
                               \<lparr>ID := genID protocol (wEndpoint w)\<rparr>))))"

definition parseWireGuardConf :: "string \<Rightarrow> string \<Rightarrow> endpoint parse_result" where
  "parseWireGuardConf rawText nameHint =
     (let (ls, ok) = scanLines rawText; w = foldl wgLine wgInit ls
      in if \<not> ok then Failed ''wg conf scan'' else wgFinish nameHint w)"

section \<open>What a parsed file guarantees\<close>

text \<open>
  An accepted file has both keys, and an endpoint whose address splits into a host and a
  numeric port; its protocol is \<open>amneziawg\<close> exactly when the \<open>Jc\<close> parameter was given, and
  the endpoint starts enabled and unprobed under the given name.
\<close>

theorem wgconf_accepts:
  assumes "parseWireGuardConf txt nm = Parsed e"
  shows "Enabled e \<and> LatencyMs e = -1 \<and> Status e = ''unknown'' \<and> Name e = nm \<and> RawURI e = ''wgconf://'' @ nm \<and>
    cget (Config e) ''private_key'' \<noteq> [] \<and> cget (Config e) ''public_key'' \<noteq> [] \<and>
    (Protocol e = ''amneziawg'') = (Config e ''jc'' \<noteq> None) \<and> Protocol e \<in> {''amneziawg'', ''wireguard''} \<and>
    (\<exists>h p i. Address e = joinHostPort h p \<and> strconvAtoi p = Some i)"
proof -
  obtain w where w: "wgFinish nm w = Parsed e"
    using assms by (auto simp: parseWireGuardConf_def Let_def split: prod.splits if_splits)
  then obtain h p i where hp: "splitHostPort (wEndpoint w) = Inr (h, p)" "strconvAtoi p = Some i"
    by (auto simp: wgFinish_def Let_def split: if_splits sum.splits option.splits)
  let ?c = "wgConfig w"
  let ?p = "if ?c ''jc'' \<noteq> None then ''amneziawg'' else ''wireguard''"
  have keys: "cget (wCfg w) ''private_key'' \<noteq> []" "cget (wCfg w) ''public_key'' \<noteq> []"
    using w by (auto simp: wgFinish_def split: if_splits)
  have e: "e = (fresh_endpoint ?p (joinHostPort h p) nm (''wgconf://'' @ nm) ?c)\<lparr>ID := genID ?p (wEndpoint w)\<rparr>"
    using w hp keys by (simp add: wgFinish_def Let_def split del: if_split split: if_split_asm)
  have c: "cget ?c ''private_key'' \<noteq> []" "cget ?c ''public_key'' \<noteq> []"
    using keys by (simp_all add: wgConfig_def Let_def)
  have "Address e = joinHostPort h p" by (simp add: e)
  then have "\<exists>h p i. Address e = joinHostPort h p \<and> strconvAtoi p = Some i"
    using hp(2) by (intro exI conjI)
  then show ?thesis using c by (simp add: e)
qed

definition conf_file :: string where
  "conf_file = joinWith [CHR 0x0A]
    [''[Interface]'', ''PrivateKey = cHJpdg=='', ''Address = 10.0.0.2/32, fd00::2/128'', ''Jc = 4'', ''# note'',
     ''[Peer]'', ''PublicKey = cHVi'', ''AllowedIPs = 0.0.0.0/0'', ''Endpoint = [2001:db8::1]:443'', []]"

lemma conf_file_parses:
  "(case parseWireGuardConf conf_file ''home'' of
      Parsed e \<Rightarrow> Protocol e = ''amneziawg'' \<and> Address e = ''[2001:db8::1]:443'' \<and>
        cget (Config e) ''address'' = ''10.0.0.2/32,fd00::2/128''
    | _ \<Rightarrow> False)"
  by code_simp

theorem wgconf_accepts_witness:
  "\<exists>e. parseWireGuardConf conf_file ''home'' = Parsed e \<and> Config e ''jc'' \<noteq> None \<and> RawURI e = ''wgconf://home''"
proof -
  obtain e where e: "parseWireGuardConf conf_file ''home'' = Parsed e" "Protocol e = ''amneziawg''"
    using conf_file_parses by (cases "parseWireGuardConf conf_file ''home''") auto
  from wgconf_accepts [OF e(1)] e(2) have "Config e ''jc'' \<noteq> None" "RawURI e = ''wgconf://home''" by simp_all
  with e(1) show ?thesis by (intro exI conjI)
qed

end
