(* ===== verification/Proxy_Server.thy ===== *)
theory Proxy_Server
  imports Plugins Dial
begin

text \<open>
  Package \<open>proxy\<close>: the SOCKS5 and HTTP CONNECT listeners (\<open>server.go\<close>, \<open>handler.go\<close>),
  where the rule engine's verdict meets the balancer. The SOCKS5 protocol itself is a
  third-party library that calls the server's dial function; the HTTP server calls
  \<open>ServeHTTP\<close>.
\<close>

record server =
  socks5Port :: int
  httpPort :: int
  srvEngine :: "engine option"
  srvTorrent :: "bool option"
  authUsername :: string
  authPassword :: string

definition newServer :: "int \<Rightarrow> int \<Rightarrow> engine option \<Rightarrow> bool option \<Rightarrow> server" where
  "newServer sp hp eng tb =
     \<lparr>socks5Port = sp, httpPort = hp, srvEngine = eng, srvTorrent = tb, authUsername = [], authPassword = []\<rparr>"

definition withAuth :: "string \<Rightarrow> string \<Rightarrow> server \<Rightarrow> server" where
  "withAuth username password s = s\<lparr>authUsername := username, authPassword := password\<rparr>"

text \<open>
  The credentials handed to the SOCKS5 library: \<open>None\<close> leaves it without authentication.
\<close>

definition socks5Credentials :: "server \<Rightarrow> (string \<times> string) option" where
  "socks5Credentials s = (if authPassword s \<noteq> [] then Some (authUsername s, authPassword s) else None)"

text \<open>
  The surroundings of a request: the list files, the system's service database behind
  \<open>net.LookupPort\<close>, the balancer's random numbers and sorts, and the network.
\<close>

record proxy_env =
  files :: file_sys
  lookupPort :: "string \<Rightarrow> int option"
  picks :: "nat \<Rightarrow> pick_env"
  net :: net_env

text \<open>\<open>pluginDecide\<close>, and the HTTP handler's \<open>decide\<close>: the torrent blocker, then the engine.\<close>

definition pluginDecide ::
  "file_sys \<Rightarrow> server \<Rightarrow> request \<Rightarrow> list_cache \<Rightarrow> decision \<times> list_cache" where
  "pluginDecide fs s q cache =
     (if (case srvTorrent s of Some en \<Rightarrow> torrentMatch en q | None \<Rightarrow> False) then (DecisionBlock, cache)
      else case srvEngine s of Some e \<Rightarrow> evaluate fs cache e q | None \<Rightarrow> (DecisionProxy, cache))"

definition decide ::
  "file_sys \<Rightarrow> engine option \<Rightarrow> bool option \<Rightarrow> request \<Rightarrow> list_cache \<Rightarrow> decision \<times> list_cache" where
  "decide fs eng torrent q cache =
     (if (case torrent of Some en \<Rightarrow> torrentMatch en q | None \<Rightarrow> False) then (DecisionBlock, cache)
      else case eng of Some e \<Rightarrow> evaluate fs cache e q | None \<Rightarrow> (DecisionProxy, cache))"

lemma decide_pluginDecide: "decide fs (srvEngine s) (srvTorrent s) q cache = pluginDecide fs s q cache"
  by (simp add: decide_def pluginDecide_def)

section \<open>SOCKS5\<close>

datatype socks_result =
    BlockedByEngine
  | DirectDial "string + nat"
  | Pooled dial_result

definition socks5Request :: "proxy_env \<Rightarrow> string \<Rightarrow> string \<Rightarrow> request" where
  "socks5Request env network addr =
     (let (host, portStr) = (case splitHostPort addr of Inr hp \<Rightarrow> hp | Inl _ \<Rightarrow> (addr, ''0''));
          port = (case lookupPort env portStr of Some p \<Rightarrow> p | None \<Rightarrow> 0)
      in (host, port, network))"

definition socks5Dial ::
  "proxy_env \<Rightarrow> server \<Rightarrow> string \<Rightarrow> string \<Rightarrow> balancer \<times> list_cache \<Rightarrow>
   (balancer \<times> list_cache) \<times> socks_result" where
  "socks5Dial env s network addr st =
     (case st of (b, cache) \<Rightarrow>
        case pluginDecide (files env) s (socks5Request env network addr) cache of
          (DecisionBlock, cache') \<Rightarrow> ((b, cache'), BlockedByEngine)
        | (DecisionDirect, cache') \<Rightarrow> ((b, cache'), DirectDial (directDial (net env) network addr))
        | (DecisionProxy, cache') \<Rightarrow>
            (case dialContext (picks env) (net env) network addr b of
               (b', r) \<Rightarrow> ((b', cache'), Pooled r)))"

section \<open>HTTP CONNECT\<close>

text \<open>
  What taking over the client's connection can answer, and what the client sees. The tunnel
  copies bytes both ways until one side ends; \<open>transfers\<close> are the reads (\<open>True\<close>) and writes
  on the pooled connection with their byte counts.
\<close>

datatype hijack = NoHijacker | HijackError | Hijacked

datatype http_result =
    MethodNotAllowed
  | ClosedUnanswered
  | EmptyReply
  | BadGateway
  | HijackUnsupported
  | NoClientConn
  | TunnelDirect nat
  | TunnelPooled counting_conn
  | HandlerPanic

definition httpRequest :: "proxy_env \<Rightarrow> string \<Rightarrow> request" where
  "httpRequest env rHost =
     (let (host, portStr) = (case splitHostPort rHost of Inr hp \<Rightarrow> hp | Inl _ \<Rightarrow> (rHost, ''443''));
          port = (case lookupPort env portStr of Some p \<Rightarrow> p | None \<Rightarrow> 443)
      in (host, port, ''tcp''))"

definition tunnel :: "(bool \<times> int) list \<Rightarrow> counting_conn \<Rightarrow> balancer \<Rightarrow> balancer" where
  "tunnel transfers cc b =
     foldl (\<lambda>b (isRead, n). if isRead then connRead cc n b else connWrite cc n b) b transfers"

text \<open>After the dial: the 200 reply, the take-over, the tunnel, the deferred close.\<close>

definition servePooled ::
  "hijack \<Rightarrow> (bool \<times> int) list \<Rightarrow> int \<Rightarrow> counting_conn \<Rightarrow> balancer \<Rightarrow> balancer \<times> http_result" where
  "servePooled hj transfers now cc b =
     (case hj of
        NoHijacker \<Rightarrow> (connClose now cc b, HijackUnsupported)
      | HijackError \<Rightarrow> (connClose now cc b, NoClientConn)
      | Hijacked \<Rightarrow> (connClose now cc (tunnel transfers cc b), TunnelPooled cc))"

definition handleConnect ::
  "proxy_env \<Rightarrow> server \<Rightarrow> hijack \<Rightarrow> (bool \<times> int) list \<Rightarrow> int \<Rightarrow> string \<Rightarrow> balancer \<times> list_cache \<Rightarrow>
   (balancer \<times> list_cache) \<times> http_result" where
  "handleConnect env s hj transfers now rHost st =
     (case st of (b, cache) \<Rightarrow>
        case decide (files env) (srvEngine s) (srvTorrent s) (httpRequest env rHost) cache of
          (DecisionBlock, cache') \<Rightarrow>
            ((b, cache'), if hj = Hijacked then ClosedUnanswered else EmptyReply)
        | (DecisionDirect, cache') \<Rightarrow>
            ((b, cache'),
             (case directDial (net env) ''tcp'' rHost of
                Inl _ \<Rightarrow> BadGateway
              | Inr c \<Rightarrow>
                  (case hj of
                     NoHijacker \<Rightarrow> HijackUnsupported
                   | HijackError \<Rightarrow> NoClientConn
                   | Hijacked \<Rightarrow> TunnelDirect c)))
        | (DecisionProxy, cache') \<Rightarrow>
            (case dialContext (picks env) (net env) ''tcp'' rHost b of
               (b', Refused _) \<Rightarrow> ((b', cache'), BadGateway)
             | (b', DialPanic) \<Rightarrow> ((b', cache'), HandlerPanic)
             | (b', Connected cc) \<Rightarrow>
                 (case servePooled hj transfers now cc b' of (b2, r) \<Rightarrow> ((b2, cache'), r))))"

definition serveHTTP ::
  "proxy_env \<Rightarrow> server \<Rightarrow> hijack \<Rightarrow> (bool \<times> int) list \<Rightarrow> int \<Rightarrow> string \<Rightarrow> string \<Rightarrow> balancer \<times> list_cache \<Rightarrow>
   (balancer \<times> list_cache) \<times> http_result" where
  "serveHTTP env s hj transfers now rMethod rHost st =
     (if rMethod = ''CONNECT'' then handleConnect env s hj transfers now rHost st
      else (st, MethodNotAllowed))"

section \<open>Nothing leaves unproxied unless a rule says so\<close>

lemma dialContext_directDial:
  assumes "\<And>n. pick_env_ok (v n)" "weights_fit (endpoints b)" "blockDirect b"
  shows "dialContext v (w\<lparr>directDial := d\<rparr>) network addr b = dialContext v w network addr b"
proof -
  obtain b1 tried r1 where run: "dialAttempts v w network addr 0 maxDialAttempts [] b = (b1, tried, r1)"
    by (metis prod_cases3)
  have fit: "weights_fit (candidates [] b)" using assms(2) by (simp add: weights_fit_filter)
  have "blockDirect b1" using dialAttempts_inv [OF assms(1) fit run] assms(3) by simp
  then show ?thesis
    using run by (simp add: dialContext_def dialAttempts_directDial directFallback_def split: option.splits)
qed

lemma pluginDecide_direct:
  assumes "cache_ok fs cache" "fst (pluginDecide fs s q cache) = DecisionDirect"
  shows "\<exists>e r. srvEngine s = Some e \<and> r \<in> set (rules e) \<and> ruleApplies fs r q \<and> rAction r = DecisionDirect"
proof -
  obtain e where e: "srvEngine s = Some e" "fst (evaluateRules fs cache (rules e) q) = DecisionDirect"
    using assms(2) by (auto simp: pluginDecide_def evaluate_def split: if_splits option.splits)
  with engine_fm.verdict_cases [OF assms(1), of "rules e" q] show ?thesis by auto
qed

lemma listener_no_direct:
  assumes "\<And>n. pick_env_ok (picks env n)" "weights_fit (endpoints b)" "blockDirect b"
    and "cache_ok (files env) cache"
    and "\<And>e r. srvEngine s = Some e \<Longrightarrow> r \<in> set (rules e) \<Longrightarrow> rAction r = DecisionDirect \<Longrightarrow>
           \<not> ruleApplies (files env) r (socks5Request env network addr) \<and>
           \<not> ruleApplies (files env) r (httpRequest env addr)"
  shows "socks5Dial (env\<lparr>net := (net env)\<lparr>directDial := d\<rparr>\<rparr>) s network addr (b, cache) =
           socks5Dial env s network addr (b, cache) \<and>
         serveHTTP (env\<lparr>net := (net env)\<lparr>directDial := d\<rparr>\<rparr>) s hj transfers now rMethod addr (b, cache) =
           serveHTTP env s hj transfers now rMethod addr (b, cache)"
proof -
  let ?env = "env\<lparr>net := (net env)\<lparr>directDial := d\<rparr>\<rparr>"
  have req: "socks5Request ?env network addr = socks5Request env network addr"
      "httpRequest ?env addr = httpRequest env addr"
    by (simp_all add: socks5Request_def httpRequest_def)
  have nd: "fst (pluginDecide (files env) s (socks5Request env network addr) cache) \<noteq> DecisionDirect"
      "fst (pluginDecide (files env) s (httpRequest env addr) cache) \<noteq> DecisionDirect"
    using pluginDecide_direct [OF assms(4)] assms(5) by blast+
  note dc = dialContext_directDial [OF assms(1-3)]
  have "socks5Dial ?env s network addr (b, cache) = socks5Dial env s network addr (b, cache)"
    using nd(1) by (auto simp: socks5Dial_def req dc split: prod.split decision.split)
  moreover have "handleConnect ?env s hj transfers now addr (b, cache) =
      handleConnect env s hj transfers now addr (b, cache)"
    using nd(2) by (auto simp: handleConnect_def req dc decide_pluginDecide split: prod.split decision.split)
  ultimately show ?thesis by (simp add: serveHTTP_def)
qed

text \<open>
  C33. With the kill-switch on, no listener ever opens a direct connection unless an enabled
  \<open>direct\<close> rule matches the request: what a SOCKS5 or CONNECT client gets, and the
  balancer's state after it, is the same whatever a direct dial would have answered.
\<close>

theorem no_direct_without_rule:
  assumes "\<And>n. pick_env_ok (picks env n)" "weights_fit (endpoints b)" "blockDirect b"
    and "cache_ok (files env) cache"
    and "\<And>e r. srvEngine s = Some e \<Longrightarrow> r \<in> set (rules e) \<Longrightarrow> rAction r = DecisionDirect \<Longrightarrow>
           \<not> ruleApplies (files env) r (socks5Request env network addr) \<and>
           \<not> ruleApplies (files env) r (httpRequest env addr)"
  shows "socks5Dial (env\<lparr>net := (net env)\<lparr>directDial := d\<rparr>\<rparr>) s network addr (b, cache) =
           socks5Dial env s network addr (b, cache) \<and>
         serveHTTP (env\<lparr>net := (net env)\<lparr>directDial := d\<rparr>\<rparr>) s hj transfers now rMethod addr (b, cache) =
           serveHTTP env s hj transfers now rMethod addr (b, cache)"
  using assms by (rule listener_no_direct)

text \<open>
  The torrent blocker comes first: with it enabled, a request to a BitTorrent port is
  dropped on both listeners whatever the rules say, nothing is dialled and the balancer's
  state does not move.
\<close>

theorem torrent_port_blocked:
  assumes "srvTorrent s = Some True" "port \<in> set torrentPorts"
    and "plain_host host" "lookupPort env (strconvItoa port) = Some port"
  shows "socks5Dial env s network (joinHostPort host (strconvItoa port)) st = (st, BlockedByEngine) \<and>
    handleConnect env s Hijacked transfers now (joinHostPort host (strconvItoa port)) st = (st, ClosedUnanswered)"
  using assms
  by (cases st) (auto simp: socks5Dial_def handleConnect_def pluginDecide_def decide_def torrentMatch_def
      socks5Request_def httpRequest_def splitHostPort_joinHostPort Let_def split: if_splits)

section \<open>A tunnel is accounted for\<close>

text \<open>The bytes a sequence of reads and writes moves, in each direction.\<close>

definition bytesDown :: "(bool \<times> int) list \<Rightarrow> int" where
  "bytesDown ts = (\<Sum>(isRead, n)\<leftarrow>ts. if isRead then n else 0)"

definition bytesUp :: "(bool \<times> int) list \<Rightarrow> int" where
  "bytesUp ts = (\<Sum>(isRead, n)\<leftarrow>ts. if isRead then 0 else n)"

lemma bytes_nonneg:
  "\<forall>(r, n) \<in> set ts. 0 \<le> n \<Longrightarrow> 0 \<le> bytesDown ts \<and> 0 \<le> bytesUp ts"
  by (induction ts) (auto simp: bytesDown_def bytesUp_def)

lemma wrap64_add: "0 \<le> m \<Longrightarrow> 0 \<le> n \<Longrightarrow> m + n \<le> int64_max \<Longrightarrow> wrap64 (m + n) = m + n"
  by (rule wrap64_id) (simp add: in_int64_def int64_min_def)

lemma connRead_heap:
  "heap (bflows b) (cc_flow cc) = Some fl \<Longrightarrow> 0 \<le> n \<Longrightarrow> 0 \<le> fBytesDown fl \<Longrightarrow> fBytesDown fl + n \<le> int64_max \<Longrightarrow>
   heap (bflows (connRead cc n b)) (cc_flow cc) = Some (fl\<lparr>fBytesDown := fBytesDown fl + n\<rparr>)"
  by (auto simp: connRead_def flowAdd_def updFlow_def wrap64_add)

lemma connWrite_heap:
  "heap (bflows b) (cc_flow cc) = Some fl \<Longrightarrow> 0 \<le> n \<Longrightarrow> 0 \<le> fBytesUp fl \<Longrightarrow> fBytesUp fl + n \<le> int64_max \<Longrightarrow>
   heap (bflows (connWrite cc n b)) (cc_flow cc) = Some (fl\<lparr>fBytesUp := fBytesUp fl + n\<rparr>)"
  by (auto simp: connWrite_def flowAdd_def updFlow_def wrap64_add)

lemma tunnel_heap:
  assumes "heap (bflows b) (cc_flow cc) = Some fl" "\<forall>(r, n) \<in> set ts. 0 \<le> n"
    and "0 \<le> fBytesDown fl" "0 \<le> fBytesUp fl"
    and "fBytesDown fl + bytesDown ts \<le> int64_max" "fBytesUp fl + bytesUp ts \<le> int64_max"
  shows "heap (bflows (tunnel ts cc b)) (cc_flow cc) =
    Some (fl\<lparr>fBytesUp := fBytesUp fl + bytesUp ts, fBytesDown := fBytesDown fl + bytesDown ts\<rparr>)"
  using assms
proof (induction ts arbitrary: b fl)
  case Nil
  then show ?case by (simp add: tunnel_def bytesDown_def bytesUp_def)
next
  case (Cons t ts)
  obtain isRead n where t: "t = (isRead, n)" by fastforce
  have n: "0 \<le> n" "0 \<le> bytesDown ts" "0 \<le> bytesUp ts"
    using Cons.prems(2) bytes_nonneg [of ts] by (auto simp: t)
  show ?case
  proof (cases isRead)
    case True
    then have le: "fBytesDown fl + n + bytesDown ts \<le> int64_max" "fBytesUp fl + bytesUp ts \<le> int64_max"
      using Cons.prems(5,6) by (simp_all add: t bytesDown_def bytesUp_def)
    with Cons.prems n have "heap (bflows (connRead cc n b)) (cc_flow cc) =
        Some (fl\<lparr>fBytesDown := fBytesDown fl + n\<rparr>)"
      by (intro connRead_heap) auto
    from Cons.IH [OF this] Cons.prems n le True show ?thesis
      by (simp add: t tunnel_def bytesDown_def bytesUp_def algebra_simps)
  next
    case False
    then have le: "fBytesDown fl + bytesDown ts \<le> int64_max" "fBytesUp fl + n + bytesUp ts \<le> int64_max"
      using Cons.prems(5,6) by (simp_all add: t bytesDown_def bytesUp_def)
    with Cons.prems n have "heap (bflows (connWrite cc n b)) (cc_flow cc) =
        Some (fl\<lparr>fBytesUp := fBytesUp fl + n\<rparr>)"
      by (intro connWrite_heap) auto
    from Cons.IH [OF this] Cons.prems n le False show ?thesis
      by (simp add: t tunnel_def bytesDown_def bytesUp_def algebra_simps)
  qed
qed

definition opened :: "string \<Rightarrow> counting_conn \<Rightarrow> balancer \<Rightarrow> bool" where
  "opened addr cc b \<longleftrightarrow> (\<exists>fl. heap (bflows b) (cc_flow cc) = Some fl \<and> Dest fl = addr \<and>
     fBytesUp fl = 0 \<and> fBytesDown fl = 0)"

lemma dialAttempts_opened:
  "dialAttempts v w network addr n left tried b = (b', tried', Some (Connected cc)) \<Longrightarrow> opened addr cc b'"
proof (induction left arbitrary: n tried b)
  case 0
  then show ?case by simp
next
  case (Suc left)
  then show ?case
    by (auto simp: dialSucceeded_def opened_def flowBegin_heap case_prod_unfold Let_def
        split: sum.splits pick_error.splits)
qed

lemma dialContext_opened:
  assumes "dialContext v w network addr b = (b', Connected cc)"
  shows "opened addr cc b'"
proof -
  obtain b1 tried r1 where run: "dialAttempts v w network addr 0 maxDialAttempts [] b = (b1, tried, r1)"
    by (metis prod_cases3)
  show ?thesis
  proof (cases r1)
    case None
    then have "directFallback w network addr b1 = (b', Connected cc)"
      using assms run by (simp add: dialContext_def)
    then show ?thesis
      by (auto simp: directFallback_def opened_def flowBegin_heap case_prod_unfold Let_def
          split: if_splits sum.splits)
  next
    case (Some x)
    then show ?thesis using assms run dialAttempts_opened by (auto simp: dialContext_def)
  qed
qed

text \<open>
  C34. A CONNECT tunnel is accounted for: when the handler has served a tunnel through the
  pool, the connection's flow names the requested destination, holds exactly the bytes that
  went up and down, and is closed.
\<close>

theorem tunnel_accounted:
  assumes "serveHTTP env s hj ts now rMethod rHost (b, cache) = ((b', cache'), TunnelPooled cc)"
    and "\<forall>(r, n) \<in> set ts. 0 \<le> n" "bytesDown ts \<le> int64_max" "bytesUp ts \<le> int64_max"
  shows "\<exists>fl. heap (bflows b') (cc_flow cc) = Some fl \<and> Dest fl = rHost \<and>
    fBytesUp fl = bytesUp ts \<and> fBytesDown fl = bytesDown ts \<and> ClosedUnix fl = now \<and> Result fl = ''ok''"
proof -
  obtain b1 where b1: "dialContext (picks env) (net env) ''tcp'' rHost b = (b1, Connected cc)"
    and b': "b' = connClose now cc (tunnel ts cc b1)"
    using assms(1)
    by (auto simp: serveHTTP_def handleConnect_def servePooled_def
        split: if_splits prod.splits decision.splits dial_result.splits hijack.splits sum.splits)
  from dialContext_opened [OF b1] obtain fl where fl: "heap (bflows b1) (cc_flow cc) = Some fl"
      "Dest fl = rHost" "fBytesUp fl = 0" "fBytesDown fl = 0"
    by (auto simp: opened_def)
  from tunnel_heap [OF fl(1) assms(2)] fl assms(3,4) show ?thesis
    by (simp add: b' connClose_def flowEnd_def updFlow_def)
qed

section \<open>Concrete requests\<close>

definition env_down :: proxy_env where
  "env_down = \<lparr>files = no_files, lookupPort = strconvAtoi,
     picks = \<lambda>_. det_env, net = net_down\<rparr>"

definition server_rules :: server where
  "server_rules = newServer 1080 8080
     (Some \<lparr>rules = [port_rule ''443'' DecisionDirect], engBlockDirect = True\<rparr>) (Some True)"

lemma request_x1:
  "socks5Request env_down ''tcp'' ''x:1'' = (''x'', 1, ''tcp'')" "httpRequest env_down ''x:1'' = (''x'', 1, ''tcp'')"
  by (simp_all add: socks5Request_def httpRequest_def env_down_def splitHostPort_def strconvAtoi_def digitVal_def
      in_int64_def int64_min_def int64_max_def)

lemma rule_443_x1: "\<not> ruleApplies fs (port_rule ''443'' d) (''x'', 1, ''tcp'')"
  by (simp add: ruleApplies_def exprMatches_def match_run_defs)

theorem no_direct_without_rule_witness:
  "\<forall>d. socks5Dial (env_down\<lparr>net := (net env_down)\<lparr>directDial := d\<rparr>\<rparr>) server_rules ''tcp'' ''x:1''
         (setBlockDirect True (pool2 ''latency''), Map.empty) =
       socks5Dial env_down server_rules ''tcp'' ''x:1'' (setBlockDirect True (pool2 ''latency''), Map.empty)"
proof
  fix d
  let ?b = "setBlockDirect True (pool2 ''latency'')"
  have p: "\<And>n. pick_env_ok (picks env_down n)" by (simp add: env_down_def)
  have b: "weights_fit (endpoints ?b)" "blockDirect ?b"
    using pool2_fits [of "''latency''"] by (simp_all add: setBlockDirect_def)
  have r: "\<not> ruleApplies (files env_down) r (socks5Request env_down ''tcp'' ''x:1'') \<and>
      \<not> ruleApplies (files env_down) r (httpRequest env_down ''x:1'')"
    if "srvEngine server_rules = Some e" "r \<in> set (rules e)" for e r
    using that by (auto simp: server_rules_def newServer_def request_x1 rule_443_x1)
  show "socks5Dial (env_down\<lparr>net := (net env_down)\<lparr>directDial := d\<rparr>\<rparr>) server_rules ''tcp'' ''x:1'' (?b, Map.empty) =
      socks5Dial env_down server_rules ''tcp'' ''x:1'' (?b, Map.empty)"
    using no_direct_without_rule [OF p b cache_ok_empty, of server_rules "''tcp''" "''x:1''" d] r by blast
qed

theorem torrent_port_blocked_witness:
  "socks5Dial env_down server_rules ''tcp'' (joinHostPort ''peer.example'' (strconvItoa 51413)) (pool2 ''latency'', Map.empty) =
     ((pool2 ''latency'', Map.empty), BlockedByEngine)"
  using torrent_port_blocked [of server_rules 51413 "''peer.example''" env_down "''tcp''" "(pool2 ''latency'', Map.empty)"]
  by (simp add: server_rules_def newServer_def torrentPorts_def plain_host_def env_down_def in_int64_def
      int64_min_def int64_max_def)

theorem tunnel_accounted_witness:
  "\<exists>b' fl. serveHTTP (env_down\<lparr>net := net_fast\<rparr>) server_rules Hijacked [(False, 100), (True, 5000), (False, 20)] 2000
       ''CONNECT'' ''x:1'' (pool2 ''latency'', Map.empty) =
       ((b', Map.empty), TunnelPooled \<lparr>under = 7, cc_id = ID ep_fast, cc_flow = 1\<rparr>) \<and>
     heap (bflows b') 1 = Some fl \<and> fBytesUp fl = 120 \<and> fBytesDown fl = 5000"
proof -
  let ?env = "env_down\<lparr>net := net_fast\<rparr>" and ?ts = "[(False, 100), (True, 5000), (False, 20)]"
  let ?cc = "\<lparr>under = 7, cc_id = ID ep_fast, cc_flow = 1\<rparr>"
  have dec: "decide (files ?env) (srvEngine server_rules) (srvTorrent server_rules) (httpRequest ?env ''x:1'')
      Map.empty = (DecisionProxy, Map.empty)"
    by (simp add: decide_def server_rules_def newServer_def httpRequest_def env_down_def splitHostPort_def
        torrentMatch_def torrentPorts_def trackerDomains_def suffixMatch_def evaluate_def match_run_defs)
  obtain b1 where b1: "dialContext (picks ?env) (net ?env) ''tcp'' ''x:1'' (pool2 ''latency'') = (b1, Connected ?cc)"
    by (simp add: env_down_def dial_run_defs newFlows_def)
  have "\<exists>b'. serveHTTP ?env server_rules Hijacked ?ts 2000 ''CONNECT'' ''x:1'' (pool2 ''latency'', Map.empty) =
      ((b', Map.empty), TunnelPooled ?cc)"
    unfolding serveHTTP_def handleConnect_def prod.case dec decision.case b1 dial_result.case
    by (simp add: servePooled_def)
  then obtain b' where b': "serveHTTP ?env server_rules Hijacked ?ts 2000 ''CONNECT'' ''x:1'' (pool2 ''latency'', Map.empty) =
      ((b', Map.empty), TunnelPooled ?cc)" ..
  from tunnel_accounted [OF this] obtain fl where "heap (bflows b') 1 = Some fl" "fBytesUp fl = 120" "fBytesDown fl = 5000"
    by (auto simp: bytesUp_def bytesDown_def int64_max_def)
  with b' show ?thesis by blast
qed

end
