(* ===== verification/Prober.thy ===== *)
theory Prober
  imports Endpoint Go_Net
begin

text \<open>
  \<open>prober/prober.go\<close>: one probe of an endpoint with its retry, and the concurrent pass over
  the pool as a step relation whose interleavings all end in the same result.
\<close>

section \<open>One attempt\<close>

text \<open>
  What the network answers: the elapsed milliseconds and success or an error text with its
  \<open>Timeout()\<close> flag. \<open>mkDialer\<close> and \<open>socksDial\<close> stand for the SOCKS5 package
  (\<open>golang.org/x/net/proxy\<close>), \<open>tlsHandshake\<close> for \<open>crypto/tls\<close>; the number is the
  attempt's.
\<close>

datatype net_answer = AnswerOk | AnswerErr bool string

datatype dialer_kind = DialerFails int string | PlainDialer | ContextDialer

record probe_env =
  tcpDial :: "nat \<Rightarrow> string \<Rightarrow> int \<times> net_answer"
  mkDialer :: "string \<Rightarrow> dialer_kind"
  socksDial :: "nat \<Rightarrow> string \<Rightarrow> string \<Rightarrow> int \<times> net_answer"
  tlsHandshake :: "nat \<Rightarrow> string \<Rightarrow> net_answer"

type_synonym probe_result = "int \<times> string \<times> string option"

definition errStatus :: "bool \<Rightarrow> string" where
  "errStatus isTimeout = (if isTimeout then ''timeout'' else ''error'')"

definition tcpConnect :: "probe_env \<Rightarrow> nat \<Rightarrow> string \<Rightarrow> probe_result" where
  "tcpConnect w k addr =
     (case tcpDial w k addr of
        (elapsed, AnswerOk) \<Rightarrow> (elapsed, ''ok'', None)
      | (elapsed, AnswerErr t e) \<Rightarrow> (elapsed, errStatus t, Some e))"

definition tlsPort :: "string \<Rightarrow> bool" where
  "tlsPort target = (case splitHostPort target of Inr (_, port) \<Rightarrow> port = ''443'' | Inl _ \<Rightarrow> False)"

definition socksConnect :: "probe_env \<Rightarrow> nat \<Rightarrow> string \<Rightarrow> string \<Rightarrow> probe_result" where
  "socksConnect w k proxyAddr target =
     (case mkDialer w proxyAddr of
        DialerFails elapsed e \<Rightarrow> (elapsed, ''error'', Some e)
      | PlainDialer \<Rightarrow>
          (case socksDial w k proxyAddr target of
             (elapsed, AnswerErr t e) \<Rightarrow> (elapsed, errStatus t, Some e)
           | (elapsed, AnswerOk) \<Rightarrow> (elapsed, ''ok'', None))
      | ContextDialer \<Rightarrow>
          (case socksDial w k proxyAddr target of
             (elapsed, AnswerErr t e) \<Rightarrow> (elapsed, errStatus t, Some e)
           | (elapsed, AnswerOk) \<Rightarrow>
               if tlsPort target then
                 (case tlsHandshake w k target of
                    AnswerErr t e \<Rightarrow> (elapsed, errStatus t, Some (''tunnel TLS handshake: '' @ e))
                  | AnswerOk \<Rightarrow> (elapsed, ''ok'', None))
               else (elapsed, ''ok'', None)))"

definition probeTarget :: "string \<Rightarrow> string" where
  "probeTarget target = (if target \<noteq> [] then target else ''1.1.1.1:443'')"

definition attempt :: "probe_env \<Rightarrow> string \<Rightarrow> endpoint \<Rightarrow> nat \<Rightarrow> probe_result" where
  "attempt w target ep k =
     (let socksAddr = cget (Config ep) ''socks5_addr''
      in if socksAddr \<noteq> [] then socksConnect w k socksAddr (probeTarget target)
         else if Protocol ep = ''sidecar'' then tcpConnect w k ''127.0.0.1:1080''
         else tcpConnect w k (Address ep))"

text \<open>The second attempt is made only after a failure.\<close>

definition probeOne :: "probe_env \<Rightarrow> string \<Rightarrow> endpoint \<Rightarrow> endpoint" where
  "probeOne w target ep =
     (let (lat, status, perr) = attempt w target ep 0;
          (lat, status, perr) = (if status \<noteq> ''ok'' then attempt w target ep 1 else (lat, status, perr))
      in ep\<lparr>LatencyMs := lat, Status := status\<rparr>)"

section \<open>The concurrent pass\<close>

text \<open>
  One goroutine per enabled endpoint; each takes one of \<open>maxParallel\<close> slots, probes, writes
  its own cell of the result slice and gives the slot back.
\<close>

definition maxParallel :: nat where "maxParallel = 10"

record probe_pass =
  waiting :: "nat set"
  running :: "nat set"
  results :: "endpoint list"

definition passInit :: "endpoint list \<Rightarrow> probe_pass" where
  "passInit eps =
     \<lparr>waiting = {i. i < length eps \<and> Enabled (eps ! i)}, running = {},
      results = map (\<lambda>e. if Enabled e then zero_endpoint else e) eps\<rparr>"

inductive pass_step ::
  "(nat \<Rightarrow> probe_env) \<Rightarrow> string \<Rightarrow> endpoint list \<Rightarrow> probe_pass \<Rightarrow> probe_pass \<Rightarrow> bool"
  for w target eps where
  acquire: "i \<in> waiting s \<Longrightarrow> card (running s) < maxParallel \<Longrightarrow>
    pass_step w target eps s (s\<lparr>waiting := waiting s - {i}, running := insert i (running s)\<rparr>)"
| release: "i \<in> running s \<Longrightarrow>
    pass_step w target eps s
      (s\<lparr>running := running s - {i}, results := (results s)[i := probeOne (w i) target (eps ! i)]\<rparr>)"

text \<open>What the caller waits for: every goroutine is done.\<close>

definition passDone :: "probe_pass \<Rightarrow> bool" where
  "passDone s \<longleftrightarrow> waiting s = {} \<and> running s = {}"

text \<open>\<open>ProbeAll\<close> run one endpoint after the other.\<close>

definition probeAll :: "(nat \<Rightarrow> probe_env) \<Rightarrow> string \<Rightarrow> endpoint list \<Rightarrow> endpoint list" where
  "probeAll w target eps =
     map (\<lambda>i. if Enabled (eps ! i) then probeOne (w i) target (eps ! i) else eps ! i) [0..<length eps]"

text \<open>The summary line of a pass; \<open>None\<close> when nothing was probed.\<close>

definition downNames :: "endpoint list \<Rightarrow> string list" where
  "downNames rs =
     map (\<lambda>e. if Name e = [] then ID e else Name e)
       (filter (\<lambda>e. Enabled e \<and> (Status e = ''error'' \<or> Status e = ''timeout'')) rs)"

definition cycleSummary :: "endpoint list \<Rightarrow> string option" where
  "cycleSummary rs =
     (let down = downNames rs;
          probed = int (length (filter Enabled rs));
          off = int (length (filter (\<lambda>e. \<not> Enabled e) rs));
          suf = (if 0 < off then '' ('' @ strconvItoa off @ '' disabled)'' else [])
      in if down \<noteq> [] then
           Some (''probe cycle: WARN '' @ strconvItoa (int (length down)) @ ''/'' @ strconvItoa probed @
                 '' endpoints unhealthy: '' @ joinWith '', '' down @ suf)
         else if 0 < probed then Some (''probe cycle: all '' @ strconvItoa probed @ '' endpoints ok'' @ suf)
         else None)"

section \<open>The loop of passes\<close>

text \<open>
  \<open>Run\<close>: a goroutine that at each tick fetches the pool, probes it, and offers the result on a
  channel of capacity 1, where it is dropped when the last one has not been taken. \<open>loPool\<close> is
  the pool that the pass under way was started on.
\<close>

record probe_loop =
  loRunning :: bool
  loPool :: "endpoint list option"
  loChan :: "endpoint list option"

definition loopIdle :: probe_loop where
  "loopIdle = \<lparr>loRunning = False, loPool = None, loChan = None\<rparr>"

definition loopStart :: "probe_loop \<Rightarrow> probe_loop" where
  "loopStart lo = lo\<lparr>loRunning := True\<rparr>"

definition loopFetch :: "endpoint list \<Rightarrow> probe_loop \<Rightarrow> probe_loop" where
  "loopFetch eps lo = (if loRunning lo \<and> loPool lo = None then lo\<lparr>loPool := Some eps\<rparr> else lo)"

definition loopSend :: "(nat \<Rightarrow> probe_env) \<Rightarrow> string \<Rightarrow> probe_loop \<Rightarrow> probe_loop" where
  "loopSend w target lo =
     (case loPool lo of
        None \<Rightarrow> lo
      | Some eps \<Rightarrow>
          lo\<lparr>loPool := None,
             loChan := (case loChan lo of None \<Rightarrow> Some (probeAll w target eps) | Some old \<Rightarrow> Some old)\<rparr>)"

definition loopRecv :: "probe_loop \<Rightarrow> probe_loop \<times> endpoint list option" where
  "loopRecv lo = (lo\<lparr>loChan := None\<rparr>, loChan lo)"

section \<open>What a probe changes\<close>

lemma probe_statuses:
  "fst (snd (attempt w target ep k)) \<in> {''ok'', ''timeout'', ''error''}"
  by (auto simp: attempt_def tcpConnect_def socksConnect_def errStatus_def Let_def
      split: prod.splits net_answer.splits dialer_kind.splits)

text \<open>
  A probe touches only latency and status: every other field is copied, the status is
  \<open>ok\<close>, \<open>timeout\<close> or \<open>error\<close>, and it is \<open>ok\<close> exactly when the first attempt or its one
  retry succeeded.
\<close>

theorem probeOne_spec:
  "probeOne w target ep = ep\<lparr>LatencyMs := LatencyMs (probeOne w target ep), Status := Status (probeOne w target ep)\<rparr> \<and>
   Status (probeOne w target ep) \<in> {''ok'', ''timeout'', ''error''} \<and>
   (Status (probeOne w target ep) = ''ok'') =
     (\<exists>k < 2. fst (snd (attempt w target ep k)) = ''ok'')"
proof -
  have two: "(\<exists>k < 2 :: nat. P k) \<longleftrightarrow> P 0 \<or> P 1" for P
    by (auto simp: less_2_cases_iff)
  show ?thesis
    using probe_statuses [of w target ep 0] probe_statuses [of w target ep 1] unfolding two
    by (cases ep) (auto simp: probeOne_def Let_def split: prod.splits)
qed

lemma probeOne_sel [simp]:
  "ID (probeOne w t e) = ID e" "Enabled (probeOne w t e) = Enabled e" "Priority (probeOne w t e) = Priority e"
  "Config (probeOne w t e) = Config e" "RawURI (probeOne w t e) = RawURI e" "Name (probeOne w t e) = Name e"
  by (auto simp: probeOne_def Let_def split: prod.splits)

lemma length_probeAll [simp]: "length (probeAll w t eps) = length eps"
  by (simp add: probeAll_def)

lemma probeAll_nth:
  "i < length eps \<Longrightarrow>
   probeAll w t eps ! i = (if Enabled (eps ! i) then probeOne (w i) t (eps ! i) else eps ! i)"
  by (simp add: probeAll_def)

section \<open>Every interleaving gives the same result\<close>

definition pass_inv :: "(nat \<Rightarrow> probe_env) \<Rightarrow> string \<Rightarrow> endpoint list \<Rightarrow> probe_pass \<Rightarrow> bool" where
  "pass_inv w target eps s \<longleftrightarrow>
     waiting s \<union> running s \<subseteq> {i. i < length eps \<and> Enabled (eps ! i)} \<and> waiting s \<inter> running s = {} \<and>
     card (running s) \<le> maxParallel \<and> length (results s) = length eps \<and>
     (\<forall>i < length eps. i \<notin> waiting s \<longrightarrow> i \<notin> running s \<longrightarrow> results s ! i = probeAll w target eps ! i)"

lemma pass_inv_init [inv_intros]: "pass_inv w target eps (passInit eps)"
  by (auto simp: pass_inv_def passInit_def probeAll_nth)

lemma pass_inv_finite:
  assumes "pass_inv w target eps s"
  shows "finite (waiting s) \<and> finite (running s)"
proof -
  have "finite {i. i < length eps \<and> Enabled (eps ! i)}" by simp
  moreover have "waiting s \<subseteq> {i. i < length eps \<and> Enabled (eps ! i)}"
    "running s \<subseteq> {i. i < length eps \<and> Enabled (eps ! i)}"
    using assms by (auto simp: pass_inv_def)
  ultimately show ?thesis by (meson finite_subset)
qed

lemma pass_inv_step [inv_intros]:
  assumes "pass_step w target eps s s'" "pass_inv w target eps s"
  shows "pass_inv w target eps s'"
  using assms(1)
proof cases
  case (acquire i)
  then have "i \<notin> running s" using assms(2) by (auto simp: pass_inv_def)
  with acquire assms(2) pass_inv_finite [OF assms(2)] show ?thesis
    by (auto simp: pass_inv_def)
next
  case (release i)
  have "card (running s - {i}) \<le> card (running s)"
    using pass_inv_finite [OF assms(2)] by (simp add: card_mono)
  with release assms(2) show ?thesis
    by (auto simp: pass_inv_def nth_list_update probeAll_nth)
qed

definition passMeasure :: "probe_pass \<Rightarrow> nat" where
  "passMeasure s = 2 * card (waiting s) + card (running s)"

lemma passMeasure_step:
  assumes "pass_step w target eps s s'" "pass_inv w target eps s"
  shows "passMeasure s' < passMeasure s"
  using assms(1)
proof cases
  case (acquire i)
  moreover have "i \<notin> running s" using acquire assms(2) by (auto simp: pass_inv_def)
  moreover have "0 < card (waiting s)"
    using acquire pass_inv_finite [OF assms(2)] by (auto simp: card_gt_0_iff)
  ultimately show ?thesis
    using pass_inv_finite [OF assms(2)] by (simp add: passMeasure_def)
next
  case (release i)
  moreover have "0 < card (running s)"
    using release pass_inv_finite [OF assms(2)] by (auto simp: card_gt_0_iff)
  ultimately show ?thesis
    using pass_inv_finite [OF assms(2)] by (simp add: passMeasure_def)
qed

lemma pass_inv_reach:
  assumes "(pass_step w target eps)\<^sup>*\<^sup>* (passInit eps) s"
  shows "pass_inv w target eps s"
  using assms by (induction rule: rtranclp_induct) (auto intro: inv_intros)

lemma pass_progress:
  assumes "pass_inv w target eps s" "\<not> passDone s"
  shows "\<exists>s'. pass_step w target eps s s'"
proof (cases "running s = {}")
  case True
  with assms(2) obtain i where "i \<in> waiting s" by (auto simp: passDone_def)
  moreover have "card (running s) < maxParallel" using True by (simp add: maxParallel_def)
  ultimately show ?thesis by (blast intro: acquire)
next
  case False
  then show ?thesis by (blast intro: release)
qed

lemma pass_completes:
  assumes "pass_inv w target eps s"
  shows "\<exists>s'. (pass_step w target eps)\<^sup>*\<^sup>* s s' \<and> passDone s'"
  using assms
proof (induction "passMeasure s" arbitrary: s rule: less_induct)
  case less
  show ?case
  proof (cases "passDone s")
    case False
    then obtain s1 where s1: "pass_step w target eps s s1" using pass_progress less.prems by blast
    from less.hyps [OF passMeasure_step [OF s1 less.prems] pass_inv_step [OF s1 less.prems]]
    show ?thesis using s1 by (meson converse_rtranclp_into_rtranclp)
  qed blast
qed

text \<open>
  C22. However the goroutines of a pass interleave, at most ten probes run at a time, the pass
  can always finish (no reachable state is stuck before the end), and when it ends the
  result slice is that of probing the endpoints one after the other, disabled ones copied
  through unchanged.
\<close>

theorem probe_pass_correct:
  assumes "(pass_step w target eps)\<^sup>*\<^sup>* (passInit eps) s"
  shows "card (running s) \<le> maxParallel \<and>
    (\<exists>s'. (pass_step w target eps)\<^sup>*\<^sup>* s s' \<and> passDone s') \<and>
    (passDone s \<longrightarrow> results s = probeAll w target eps)"
proof -
  note inv = pass_inv_reach [OF assms]
  have "passDone s \<longrightarrow> results s = probeAll w target eps"
    using inv by (auto simp: pass_inv_def passDone_def intro!: nth_equalityI)
  with inv pass_completes [OF inv] show ?thesis by (simp add: pass_inv_def)
qed

section \<open>A concrete pass\<close>

definition probe_net :: probe_env where
  "probe_net = \<lparr>tcpDial = \<lambda>k addr. if k = 0 then (5, AnswerErr True ''i/o timeout'') else (7, AnswerOk),
     mkDialer = \<lambda>_. ContextDialer, socksDial = \<lambda>_ _ _. (9, AnswerOk),
     tlsHandshake = \<lambda>_ _. AnswerErr False ''EOF''\<rparr>"

definition probe_eps :: "endpoint list" where
  "probe_eps = [fresh_endpoint ''trojan'' ''a:443'' ''A'' [] Map.empty,
     (fresh_endpoint ''trojan'' ''b:443'' ''B'' [] Map.empty)\<lparr>Enabled := False\<rparr>]"

theorem probe_pass_correct_witness:
  "\<exists>s. (pass_step (\<lambda>_. probe_net) [] probe_eps)\<^sup>*\<^sup>* (passInit probe_eps) s \<and> passDone s \<and>
     map Status (results s) = [''ok'', ''unknown'']"
proof -
  from probe_pass_correct [of "\<lambda>_. probe_net" "[]" probe_eps "passInit probe_eps"]
  obtain s where s: "(pass_step (\<lambda>_. probe_net) [] probe_eps)\<^sup>*\<^sup>* (passInit probe_eps) s" "passDone s" by auto
  with probe_pass_correct [OF s(1)] have "results s = probeAll (\<lambda>_. probe_net) [] probe_eps" by simp
  then have "map Status (results s) = [''ok'', ''unknown'']"
    by (simp add: probeAll_def probe_eps_def probeOne_def attempt_def tcpConnect_def probe_net_def errStatus_def Let_def)
  with s show ?thesis by (intro exI conjI)
qed

end
