(* ===== verification/Pool.thy ===== *)
theory Pool
  imports Sidecars Xray Bundle WG_Conf Proxy_Server Prober
begin

text \<open>
  Start-up (\<open>main.go\<close>, the sources of \<open>config/config.go\<close>): the endpoint pool is collected from
  the subscriptions, the WireGuard files and the sidecars, the dialer generators pin it, and the
  rules, ports and credentials are resolved; then the probe results are merged into the live pool.
\<close>

section \<open>Collecting the pool\<close>

text \<open>The persisted endpoints by their URI; of two with one URI the later counts.\<close>

definition stateByURI :: "endpoint list \<Rightarrow> string \<Rightarrow> endpoint option" where
  "stateByURI saved = map_of (map (\<lambda>e. (RawURI e, e)) (rev saved))"

text \<open>\<open>restore\<close> is the tail of the loop of \<open>addEndpoints\<close>: what an endpoint becomes in the pool.\<close>

definition namespaced :: "string \<Rightarrow> endpoint \<Rightarrow> endpoint" where
  "namespaced source ep0 =
     (let ep = (if Source ep0 = [] then ep0\<lparr>Source := source\<rparr> else ep0)
      in if source \<noteq> [] \<and> source \<noteq> ''default'' \<and> source \<noteq> ''sidecars'' then ep\<lparr>ID := source @ ''/'' @ ID ep\<rparr> else ep)"

definition restored :: "(string \<Rightarrow> endpoint option) \<Rightarrow> endpoint \<Rightarrow> endpoint" where
  "restored saved ep =
     (case saved (RawURI ep) of
        None \<Rightarrow> ep
      | Some s \<Rightarrow>
          (let ep' = ep\<lparr>LatencyMs := LatencyMs s, Status := Status s, Enabled := Enabled s\<rparr>
           in if Priority s \<noteq> 0 then ep'\<lparr>Priority := Priority s\<rparr> else ep'))"

definition canonKey :: "endpoint \<Rightarrow> string" where
  "canonKey ep = Protocol ep @ ''|'' @ Address ep"

text \<open>The URIs seen so far and the pool.\<close>

type_synonym pool_acc = "string list \<times> endpoint list"

fun addLoop ::
  "(string \<Rightarrow> endpoint option) \<Rightarrow> string \<Rightarrow> string list \<Rightarrow> endpoint list \<Rightarrow> pool_acc \<Rightarrow> pool_acc" where
  "addLoop saved source canon [] acc = acc"
| "addLoop saved source canon (ep # eps) (seen, pool) =
     (if RawURI ep \<in> set seen then addLoop saved source canon eps (seen, pool)
      else if canonKey ep \<in> set canon then addLoop saved source canon eps (seen, pool)
      else addLoop saved source (canonKey ep # canon) eps
             (RawURI ep # seen, pool @ [restored saved (namespaced source ep)]))"

definition addEndpoints :: "(string \<Rightarrow> endpoint option) \<Rightarrow> endpoint list \<Rightarrow> string \<Rightarrow> pool_acc \<Rightarrow> pool_acc" where
  "addEndpoints saved eps source acc = addLoop saved source [] eps acc"

record source_config =
  srcName :: string
  srcURL :: string
  srcFile :: string
  srcWireGuard :: "string list"

record subscription_config =
  subURL :: string
  subFile :: string
  subWireGuard :: "string list"
  subSources :: "source_config list"

definition effectiveSources :: "subscription_config \<Rightarrow> source_config list" where
  "effectiveSources s =
     (if subURL s \<noteq> [] \<or> subFile s \<noteq> [] \<or> subWireGuard s \<noteq> []
      then [\<lparr>srcName = ''default'', srcURL = subURL s, srcFile = subFile s, srcWireGuard = subWireGuard s\<rparr>] else []) @
     subSources s"

text \<open>
  What loading takes from outside: the files, the HTTP answers and the decoder of VMess
  payloads. \<open>None\<close> is a panic of a parser, which ends the process.
\<close>

record load_env =
  leFiles :: disk
  leGet :: "string \<Rightarrow> (int \<times> string) option"
  leVMess :: vmess_decoder

definition loadFile :: "load_env \<Rightarrow> (string \<Rightarrow> endpoint option) \<Rightarrow> source_config \<Rightarrow> pool_acc \<Rightarrow> pool_acc option" where
  "loadFile env saved src acc =
     (if srcFile src = [] then Some acc
      else case leFiles env (srcFile src) of
             None \<Rightarrow> Some acc
           | Some raw \<Rightarrow>
               (case parseSubscription (leVMess env) raw of
                  None \<Rightarrow> None
                | Some eps \<Rightarrow> Some (addEndpoints saved eps (srcName src) acc)))"

definition loadURL :: "load_env \<Rightarrow> (string \<Rightarrow> endpoint option) \<Rightarrow> source_config \<Rightarrow> pool_acc \<Rightarrow> pool_acc option" where
  "loadURL env saved src acc =
     (if srcURL src = [] then Some acc
      else case fetchSubscription (leVMess env) (leGet env) (srcURL src) of
             Panics \<Rightarrow> None
           | Failed _ \<Rightarrow> Some acc
           | Parsed eps \<Rightarrow> Some (addEndpoints saved eps (srcName src) acc))"

definition wgNameHint :: "source_config \<Rightarrow> string \<Rightarrow> string" where
  "wgNameHint src path =
     (let n = trimSuffix (pathBase path) (pathExt path)
      in if srcName src \<noteq> [] \<and> srcName src \<noteq> ''default'' then srcName src @ ''/'' @ n else n)"

definition loadWG ::
  "load_env \<Rightarrow> (string \<Rightarrow> endpoint option) \<Rightarrow> bool \<Rightarrow> source_config \<Rightarrow> string \<Rightarrow> pool_acc \<Rightarrow> pool_acc" where
  "loadWG env saved awgSidecar src path acc =
     (case leFiles env path of
        None \<Rightarrow> acc
      | Some raw \<Rightarrow>
          (case parseWireGuardConf raw (wgNameHint src path) of
             Parsed ep \<Rightarrow>
               if Protocol ep = ''amneziawg'' \<and> awgSidecar then acc
               else addEndpoints saved [ep] (srcName src) acc
           | _ \<Rightarrow> acc))"

definition loadSource ::
  "load_env \<Rightarrow> (string \<Rightarrow> endpoint option) \<Rightarrow> bool \<Rightarrow> source_config \<Rightarrow> pool_acc \<Rightarrow> pool_acc option" where
  "loadSource env saved awgSidecar src acc =
     (case loadFile env saved src acc of
        None \<Rightarrow> None
      | Some acc1 \<Rightarrow>
          (case loadURL env saved src acc1 of
             None \<Rightarrow> None
           | Some acc2 \<Rightarrow> Some (foldl (\<lambda>a path. loadWG env saved awgSidecar src path a) acc2 (srcWireGuard src))))"

fun loadSources ::
  "load_env \<Rightarrow> (string \<Rightarrow> endpoint option) \<Rightarrow> bool \<Rightarrow> source_config list \<Rightarrow> pool_acc \<Rightarrow> pool_acc option" where
  "loadSources env saved awg [] acc = Some acc"
| "loadSources env saved awg (s # ss) acc =
     (case loadSource env saved awg s acc of None \<Rightarrow> None | Some acc' \<Rightarrow> loadSources env saved awg ss acc')"

text \<open>The pool before the generators.\<close>

definition collectPool ::
  "load_env \<Rightarrow> endpoint list \<Rightarrow> subscription_config \<Rightarrow> sidecars_config \<Rightarrow> endpoint list option" where
  "collectPool env saved sub sc =
     (case loadSources env (stateByURI saved) (scEnabled (scAmneziaWG sc)) (effectiveSources sub) ([], []) of
        None \<Rightarrow> None
      | Some acc \<Rightarrow> Some (snd (addEndpoints (stateByURI saved) (enabledEndpoints sc) ''sidecars'' acc)))"

section \<open>The generators\<close>

definition endpointEligibleForSNISpoof :: "endpoint \<Rightarrow> bool" where
  "endpointEligibleForSNISpoof ep =
     (if Protocol ep = ''sidecar'' then False
      else if cget (Config ep) ''security'' = ''reality'' then False
      else if Protocol ep \<in> {''vless'', ''trojan'', ''vmess''} then cget (Config ep) ''security'' = ''tls''
      else False)"

record spoof_config =
  spEnabled :: bool
  spGen :: gen_config
  spDefaultSNI :: string
  spDefaultUTLS :: string

definition promote :: "spoof_config \<Rightarrow> endpoint \<Rightarrow> endpoint" where
  "promote sp ep =
     (if \<not> endpointEligibleForSNISpoof ep then ep
      else (let c1 = (if cget (Config ep) ''fake_sni'' = [] then (Config ep)(''fake_sni'' \<mapsto> spDefaultSNI sp) else Config ep);
                c2 = (if cget c1 ''utls'' = [] \<and> spDefaultUTLS sp \<noteq> [] then c1(''utls'' \<mapsto> spDefaultUTLS sp) else c1)
            in ep\<lparr>Config := c2\<rparr>))"

text \<open>
  A generator returns a copy of the slice, but the copies share their \<open>Config\<close> maps with the
  endpoints of the caller: the pins are in the pool even when the generated file cannot be
  written and the copy is dropped. So the pool after a generator is its result in every case.
\<close>

definition spoofStage :: "spoof_config \<Rightarrow> endpoint list \<Rightarrow> endpoint list" where
  "spoofStage sp eps =
     (if \<not> spEnabled sp \<or> eps = [] then eps
      else (let eps1 = (if spDefaultSNI sp \<noteq> [] then map (promote sp) eps else eps)
            in snd (ssGenerate eps1 (spGen sp))))"

definition singboxStage :: "bool \<Rightarrow> gen_config \<Rightarrow> endpoint list \<Rightarrow> endpoint list" where
  "singboxStage enabled cfg eps = (if \<not> enabled \<or> eps = [] then eps else snd (sbGenerate eps cfg))"

definition xrayStage :: "bool \<Rightarrow> gen_config \<Rightarrow> endpoint list \<Rightarrow> endpoint list" where
  "xrayStage enabled cfg eps = (if \<not> enabled \<or> eps = [] then eps else snd (xrGenerate eps cfg))"

definition pinPool ::
  "spoof_config \<Rightarrow> bool \<times> gen_config \<Rightarrow> bool \<times> gen_config \<Rightarrow> endpoint list \<Rightarrow> endpoint list" where
  "pinPool sp sb xr eps = xrayStage (fst xr) (snd xr) (singboxStage (fst sb) (snd sb) (spoofStage sp eps))"

section \<open>Rules, ports and credentials\<close>

record rule_config =
  rcMatch :: match_expr
  rcAction :: string
  rcEnabled :: "bool option"
  rcNote :: string

definition configRule :: "rule_config \<Rightarrow> rule" where
  "configRule rc =
     (let action = (if rcAction rc = ''direct'' then DecisionDirect
                    else if rcAction rc = ''block'' then DecisionBlock else DecisionProxy)
      in \<lparr>rID = [], rMatch = rcMatch rc, rAction = action,
          rEnabled = (case rcEnabled rc of None \<Rightarrow> True | Some v \<Rightarrow> v), rNote = rcNote rc,
          rActionName = decisionName action\<rparr>)"

text \<open>The engine and the balancer start with one kill-switch.\<close>

definition startEngine :: "rule_config list \<Rightarrow> bool \<Rightarrow> engine option" where
  "startEngine rcs block = map_option (setEngBlockDirect block) (newEngine (map configRule rcs))"

definition dotEnvLine :: "string \<Rightarrow> (string \<times> string) option" where
  "dotEnvLine line0 =
     (let line = trimSpace line0
      in if line = [] \<or> hasPrefix line ''#'' then None
         else (case cutByte line (CHR ''='') of
                 None \<Rightarrow> None
               | Some (k, v) \<Rightarrow> Some (trimSpace k, trimChars (trimSpace v) [CHR 0x22, CHR 0x27])))"

definition readDotEnv :: "string option \<Rightarrow> config" where
  "readDotEnv content =
     (case content of
        None \<Rightarrow> Map.empty
      | Some data \<Rightarrow> map_of (rev (List.map_filter dotEnvLine (splitOn (CHR 0x0A) data))))"

definition envPort :: "config \<Rightarrow> config \<Rightarrow> string \<Rightarrow> int \<Rightarrow> int" where
  "envPort osEnv envFile key fallback =
     foldl (\<lambda>p v. if v = [] then p
                  else case strconvAtoi (trimSpace v) of
                         Some n \<Rightarrow> if 0 < n \<and> n < 65536 then n else p
                       | None \<Rightarrow> p)
       fallback [cget osEnv key, cget envFile key]"

definition lastNonEmpty :: "string \<Rightarrow> string list \<Rightarrow> string" where
  "lastNonEmpty fallback vs = foldl (\<lambda>p v. if v \<noteq> [] then v else p) fallback vs"

record proxy_config =
  pcSocksPort :: int
  pcHttpPort :: int
  pcApiPort :: int
  pcUsername :: string
  pcPassword :: string

definition resolveAuth :: "config \<Rightarrow> config \<Rightarrow> proxy_config \<Rightarrow> string \<times> string" where
  "resolveAuth osEnv envFile pc =
     (lastNonEmpty (pcUsername pc) [cget osEnv ''SOCKS5_USERNAME'', cget envFile ''SOCKS5_USERNAME''],
      lastNonEmpty (pcPassword pc) [cget osEnv ''SOCKS5_PASSWORD'', cget envFile ''SOCKS5_PASSWORD''])"

definition startServer :: "config \<Rightarrow> config \<Rightarrow> proxy_config \<Rightarrow> engine \<Rightarrow> bool \<Rightarrow> server" where
  "startServer osEnv envFile pc eng torrent =
     (let s = newServer (envPort osEnv envFile ''SOCKS5_PORT'' (pcSocksPort pc))
                (envPort osEnv envFile ''HTTP_PORT'' (pcHttpPort pc)) (Some eng) (Some torrent);
          (u, p) = resolveAuth osEnv envFile pc
      in if p \<noteq> [] then withAuth (if u = [] then ''moav'' else u) p s else s)"

section \<open>Merging probe results\<close>

text \<open>
  One endpoint of the live pool with its result, and the status it had before; a transition is
  logged. The map of results keeps the last of those with one identifier.
\<close>

definition probedMap :: "endpoint list \<Rightarrow> string \<Rightarrow> endpoint option" where
  "probedMap eps = map_of (map (\<lambda>e. (ID e, e)) (rev eps))"

definition arrow :: string where
  "arrow = '' '' @ [CHR 0xE2, CHR 0x86, CHR 0x92] @ '' ''"

definition transition :: "endpoint \<Rightarrow> string \<Rightarrow> string \<Rightarrow> string list" where
  "transition cur prev new =
     (if prev \<noteq> [] \<and> prev \<noteq> new then
        (let nm = (if Name cur = [] then ID cur else Name cur)
         in [if new = ''ok'' then ''endpoint '' @ nm @ '' recovered: '' @ prev @ arrow @ ''ok''
             else ''endpoint '' @ nm @ '' went unhealthy: '' @ prev @ arrow @ new])
      else [])"

fun mergeProbe ::
  "(string \<Rightarrow> endpoint option) \<Rightarrow> endpoint list \<Rightarrow> config \<Rightarrow> endpoint list \<times> config \<times> string list" where
  "mergeProbe probed [] prev = ([], prev, [])"
| "mergeProbe probed (cur # rest) prev =
     (case probed (ID cur) of
        None \<Rightarrow> (case mergeProbe probed rest prev of (es, prev', ls) \<Rightarrow> (cur # es, prev', ls))
      | Some p2 \<Rightarrow>
          (case mergeProbe probed rest (prev(ID cur \<mapsto> Status p2)) of
             (es, prev', ls) \<Rightarrow>
               (cur\<lparr>Status := Status p2, LatencyMs := LatencyMs p2\<rparr> # es, prev',
                transition cur (cget prev (ID cur)) (Status p2) @ ls)))"

section \<open>The pool has one endpoint per URI\<close>

lemma restored_frame [simp]:
  "RawURI (restored saved ep) = RawURI ep" "ID (restored saved ep) = ID ep" "Source (restored saved ep) = Source ep"
  "Protocol (restored saved ep) = Protocol ep" "Address (restored saved ep) = Address ep" "Config (restored saved ep) = Config ep"
  by (auto simp: restored_def Let_def split: option.split)

lemma namespaced_frame [simp]:
  "RawURI (namespaced source ep) = RawURI ep" "Protocol (namespaced source ep) = Protocol ep"
  "Address (namespaced source ep) = Address ep" "Config (namespaced source ep) = Config ep"
  by (auto simp: namespaced_def Let_def)

text \<open>\<open>acc_ok\<close>: the pool has one endpoint for each URI seen, in the order they came.\<close>

definition acc_ok :: "pool_acc \<Rightarrow> bool" where
  "acc_ok acc \<longleftrightarrow> map RawURI (snd acc) = rev (fst acc) \<and> distinct (fst acc)"

lemma addLoop_ok: "acc_ok acc \<Longrightarrow> acc_ok (addLoop saved source canon eps acc)"
  by (induction saved source canon eps acc rule: addLoop.induct) (simp_all add: acc_ok_def)

text \<open>What a batch adds: an endpoint of the batch, namespaced and restored.\<close>

lemma addLoop_adds:
  "e \<in> set (snd (addLoop saved source canon eps acc)) \<Longrightarrow>
   e \<in> set (snd acc) \<or> (\<exists>ep \<in> set eps. e = restored saved (namespaced source ep))"
  by (induction saved source canon eps acc rule: addLoop.induct) (auto split: if_splits)

lemma addLoop_keeps: "set (snd acc) \<subseteq> set (snd (addLoop saved source canon eps acc))"
  by (induction saved source canon eps acc rule: addLoop.induct) auto

text \<open>Nothing of a batch is lost, except to an endpoint of the batch with the same address and protocol.\<close>

lemma addLoop_seen: "set (fst acc) \<subseteq> set (fst (addLoop saved source canon eps acc))"
  by (induction saved source canon eps acc rule: addLoop.induct) auto

lemma addLoop_covers:
  "ep \<in> set eps \<Longrightarrow>
   RawURI ep \<in> set (fst (addLoop saved source canon eps acc)) \<or> canonKey ep \<in> set canon \<or>
   (\<exists>e \<in> set eps. canonKey e = canonKey ep \<and> RawURI e \<in> set (fst (addLoop saved source canon eps acc)))"
proof (induction saved source canon eps acc rule: addLoop.induct)
  case (2 saved source canon x eps seen pool)
  have mono: "u \<in> set (fst acc) \<Longrightarrow> u \<in> set (fst (addLoop saved source c es acc))" for u acc c es
    using addLoop_seen by blast
  show ?case
    using 2 mono [of "RawURI x"] by (auto split: if_splits)
qed simp

text \<open>
  The pool's invariant: one endpoint per URI seen, and each carries what the user and the last
  run left for it.
\<close>

definition overrides_kept :: "(string \<Rightarrow> endpoint option) \<Rightarrow> endpoint \<Rightarrow> bool" where
  "overrides_kept saved e \<longleftrightarrow>
     (case saved (RawURI e) of
        None \<Rightarrow> True
      | Some s \<Rightarrow> Enabled e = Enabled s \<and> Status e = Status s \<and> LatencyMs e = LatencyMs s \<and>
                  (Priority s \<noteq> 0 \<longrightarrow> Priority e = Priority s))"

lemma overrides_kept_restored [inv_intros]: "overrides_kept saved (restored saved ep)"
  by (auto simp: overrides_kept_def restored_def Let_def split: option.split)

definition acc_inv :: "(string \<Rightarrow> endpoint option) \<Rightarrow> pool_acc \<Rightarrow> bool" where
  "acc_inv saved acc \<longleftrightarrow> acc_ok acc \<and> (\<forall>e \<in> set (snd acc). overrides_kept saved e)"

lemma addEndpoints_inv [inv_intros]: "acc_inv saved acc \<Longrightarrow> acc_inv saved (addEndpoints saved eps source acc)"
  unfolding acc_inv_def addEndpoints_def
  by (auto intro: addLoop_ok overrides_kept_restored dest!: addLoop_adds)

text \<open>
  What every step of start-up keeps: a property of the accumulator that adding a batch keeps.
\<close>

locale pool_inv =
  fixes inv :: "pool_acc \<Rightarrow> bool" and saved :: "string \<Rightarrow> endpoint option"
  assumes keeps: "inv acc \<Longrightarrow> inv (addEndpoints saved eps source acc)"
begin

lemma loadFile_inv: "loadFile env saved src acc = Some acc' \<Longrightarrow> inv acc \<Longrightarrow> inv acc'"
  by (auto simp: loadFile_def keeps split: if_splits option.splits)

lemma loadURL_inv: "loadURL env saved src acc = Some acc' \<Longrightarrow> inv acc \<Longrightarrow> inv acc'"
  by (auto simp: loadURL_def keeps split: if_splits parse_result.splits)

lemma loadWG_inv: "inv acc \<Longrightarrow> inv (loadWG env saved awg src path acc)"
  by (auto simp: loadWG_def keeps split: option.splits parse_result.splits)

lemma loadWGs_inv: "inv acc \<Longrightarrow> inv (foldl (\<lambda>a path. loadWG env saved awg src path a) acc paths)"
  by (induction paths arbitrary: acc) (auto simp: loadWG_inv)

lemma loadSource_inv: "loadSource env saved awg src acc = Some acc' \<Longrightarrow> inv acc \<Longrightarrow> inv acc'"
  unfolding loadSource_def
  by (auto split: option.splits dest: loadFile_inv loadURL_inv simp: loadWGs_inv)

lemma loadSources_inv: "loadSources env saved awg srcs acc = Some acc' \<Longrightarrow> inv acc \<Longrightarrow> inv acc'"
  by (induction srcs arbitrary: acc) (auto split: option.splits dest: loadSource_inv)

end

interpretation overrides: pool_inv "acc_inv saved" saved for saved
  by unfold_locales (rule addEndpoints_inv)

interpretation growing: pool_inv "\<lambda>acc. U \<subseteq> set (fst acc)" saved for U saved
  by unfold_locales (use addLoop_seen in \<open>force simp: addEndpoints_def\<close>)

lemma loadSources_file:
  assumes "loadSources env saved awg srcs acc = Some acc'" "src \<in> set srcs" "srcFile src \<noteq> []"
    and "leFiles env (srcFile src) = Some raw" "parseSubscription (leVMess env) raw = Some eps"
  shows "\<exists>acc0. set (fst (addEndpoints saved eps (srcName src) acc0)) \<subseteq> set (fst acc')"
  using assms(1,2)
proof (induction srcs arbitrary: acc)
  case (Cons s ss)
  from Cons.prems(1) obtain acc1 where step: "loadSource env saved awg s acc = Some acc1"
      and rest: "loadSources env saved awg ss acc1 = Some acc'"
    by (auto split: option.splits)
  show ?case
  proof (cases "src = s")
    case False
    with Cons rest show ?thesis by auto
  next
    case True
    let ?new = "addEndpoints saved eps (srcName src) acc"
    have "loadFile env saved s acc = Some ?new" using assms(3-5) True by (simp add: loadFile_def)
    with step obtain acc2 where url: "loadURL env saved s ?new = Some acc2"
        and wg: "acc1 = foldl (\<lambda>a path. loadWG env saved awg s path a) acc2 (srcWireGuard s)"
      by (auto simp: loadSource_def split: option.splits)
    from growing.loadURL_inv [OF url order_refl] have "set (fst ?new) \<subseteq> set (fst acc1)"
      unfolding wg by (rule growing.loadWGs_inv)
    then have "set (fst ?new) \<subseteq> set (fst acc')" by (rule growing.loadSources_inv [OF rest])
    then show ?thesis by blast
  qed
qed simp

lemma collectPool_inv:
  assumes "collectPool env saved sub sc = Some pool"
  obtains acc where "acc_inv (stateByURI saved) acc" "pool = snd acc"
    "\<exists>acc0. loadSources env (stateByURI saved) (scEnabled (scAmneziaWG sc)) (effectiveSources sub) ([], []) = Some acc0 \<and>
       acc = addEndpoints (stateByURI saved) (enabledEndpoints sc) ''sidecars'' acc0"
proof -
  from assms obtain acc0 where acc0:
      "loadSources env (stateByURI saved) (scEnabled (scAmneziaWG sc)) (effectiveSources sub) ([], []) = Some acc0"
      "pool = snd (addEndpoints (stateByURI saved) (enabledEndpoints sc) ''sidecars'' acc0)"
    by (auto simp: collectPool_def split: option.splits)
  have "acc_inv (stateByURI saved) ([], [])" by (simp add: acc_inv_def acc_ok_def)
  from overrides.loadSources_inv [OF acc0(1) this] acc0 that show thesis by (blast intro: inv_intros)
qed

text \<open>
  C9. The pool start-up collects has one endpoint per URI, and an endpoint the saved state knows
  comes back as it was left: enabled or not, with its status, latency and (unless it was 0)
  priority.
\<close>

theorem pool_collected:
  assumes "collectPool env saved sub sc = Some pool"
  shows "distinct (map RawURI pool) \<and> (\<forall>e \<in> set pool. overrides_kept (stateByURI saved) e)"
  using assms by (rule collectPool_inv) (auto simp: acc_inv_def acc_ok_def)

text \<open>
  No endpoint of a readable subscription file is lost: the pool has its URI, or that of
  another endpoint of the same feed with the same protocol and address.
\<close>

theorem pool_covers_feeds:
  assumes "collectPool env saved sub sc = Some pool"
    and "src \<in> set (effectiveSources sub)" "srcFile src \<noteq> []" "leFiles env (srcFile src) = Some raw"
    and "parseSubscription (leVMess env) raw = Some eps" "ep \<in> set eps"
  shows "\<exists>ep' \<in> set eps. canonKey ep' = canonKey ep \<and> RawURI ep' \<in> RawURI ` set pool"
proof -
  from assms(1) obtain acc acc0 where inv: "acc_inv (stateByURI saved) acc" "pool = snd acc"
    and acc0: "loadSources env (stateByURI saved) (scEnabled (scAmneziaWG sc)) (effectiveSources sub) ([], []) = Some acc0"
    and acc: "acc = addEndpoints (stateByURI saved) (enabledEndpoints sc) ''sidecars'' acc0"
    by (rule collectPool_inv) blast
  obtain acc1 where "set (fst (addEndpoints (stateByURI saved) eps (srcName src) acc1)) \<subseteq> set (fst acc0)"
    using loadSources_file [OF acc0 assms(2-5)] by blast
  also have "\<dots> \<subseteq> set (fst acc)" using addLoop_seen unfolding acc addEndpoints_def by blast
  also have "\<dots> = RawURI ` set pool" using inv by (metis acc_inv_def acc_ok_def set_map set_rev)
  finally show ?thesis
    using addLoop_covers [OF assms(6), of "stateByURI saved" "srcName src" "[]" acc1] assms(6)
    by (auto simp: addEndpoints_def)
qed

text \<open>
  One subscription with two endpoints, the first of which the user had disabled.
\<close>

definition exampleLoad :: load_env where
  "exampleLoad = \<lparr>leFiles = [''data/sub.txt'' \<mapsto> feed2], leGet = (\<lambda>_. None), leVMess = no_vmess\<rparr>"

definition exampleSub :: subscription_config where
  "exampleSub = \<lparr>subURL = [], subFile = ''data/sub.txt'', subWireGuard = [], subSources = []\<rparr>"

definition offSidecar :: sidecar_entry where
  "offSidecar = \<lparr>scEnabled = False, scPriority = 0, scConfig = Map.empty\<rparr>"

definition exampleSidecars :: sidecars_config where
  "exampleSidecars =
     \<lparr>scMasterDNS = offSidecar, scDNSTT = offSidecar, scPsiphon = offSidecar,
      scTor = offSidecar, scAmneziaWG = offSidecar, scTrustTunnel = offSidecar\<rparr>"

definition exampleSaved :: "endpoint list" where
  "exampleSaved = [zero_endpoint\<lparr>RawURI := ''trojan://p%40ss@h.example:443?sni=s#N'', Status := ''ok'', LatencyMs := 80\<rparr>]"

lemma example_pool:
  "map_option (map (\<lambda>e. (ID e, Enabled e, Status e))) (collectPool exampleLoad exampleSaved exampleSub exampleSidecars) =
     Some [(''trojan:h.example:443'', False, ''ok''), (''anytls:h.example:8443'', True, ''unknown'')]"
  by code_simp

lemma example_feed:
  "map_option (map RawURI) (parseSubscription no_vmess feed2) =
     Some [''trojan://p%40ss@h.example:443?sni=s#N'', ''anytls://q@h.example:8443#M'']"
  by code_simp

theorem pool_collected_witness:
  "\<exists>pool. collectPool exampleLoad exampleSaved exampleSub exampleSidecars = Some pool \<and> length pool = 2 \<and>
     distinct (map RawURI pool) \<and> (\<forall>e \<in> set pool. overrides_kept (stateByURI exampleSaved) e)"
proof -
  obtain pool where p: "collectPool exampleLoad exampleSaved exampleSub exampleSidecars = Some pool"
      "length (map (\<lambda>e. (ID e, Enabled e, Status e)) pool) = 2"
    using example_pool by (cases "collectPool exampleLoad exampleSaved exampleSub exampleSidecars") auto
  then show ?thesis using pool_collected [OF p(1)] by simp
qed

theorem pool_covers_feeds_witness:
  "\<exists>pool eps. collectPool exampleLoad exampleSaved exampleSub exampleSidecars = Some pool \<and>
     parseSubscription no_vmess feed2 = Some eps \<and>
     (\<exists>ep' \<in> set eps. canonKey ep' = canonKey (eps ! 1) \<and> RawURI ep' \<in> RawURI ` set pool)"
proof -
  obtain pool where p: "collectPool exampleLoad exampleSaved exampleSub exampleSidecars = Some pool"
    using example_pool by (cases "collectPool exampleLoad exampleSaved exampleSub exampleSidecars") auto
  obtain eps where e: "parseSubscription no_vmess feed2 = Some eps" "length (map RawURI eps) = 2"
    using example_feed by (cases "parseSubscription no_vmess feed2") auto
  from e have "eps ! 1 \<in> set eps" by (intro nth_mem) simp
  moreover have "\<lparr>srcName = ''default'', srcURL = [], srcFile = ''data/sub.txt'', srcWireGuard = []\<rparr> \<in> set (effectiveSources exampleSub)"
    by (simp add: effectiveSources_def exampleSub_def)
  ultimately show ?thesis
    using pool_covers_feeds [OF p, of _ feed2 eps "eps ! 1"] p e by (fastforce simp: exampleLoad_def)
qed

section \<open>Probe results and dashboard edits\<close>

text \<open>The initial probe ends: its copies replace the pool. A cycle of the background loop ends.\<close>

definition initialProbeEnds :: "endpoint list \<Rightarrow> balancer \<Rightarrow> balancer" where
  "initialProbeEnds updated b = setEndpoints updated b"

definition mergeWrite :: "endpoint list \<Rightarrow> config \<Rightarrow> endpoint list \<Rightarrow> balancer \<Rightarrow> balancer" where
  "mergeWrite eps prev current b = setEndpoints (fst (mergeProbe (probedMap eps) current prev)) b"

definition merged :: "(string \<Rightarrow> endpoint option) \<Rightarrow> endpoint \<Rightarrow> endpoint" where
  "merged probed cur =
     (case probed (ID cur) of None \<Rightarrow> cur | Some p2 \<Rightarrow> cur\<lparr>Status := Status p2, LatencyMs := LatencyMs p2\<rparr>)"

lemma mergeProbe_endpoints: "fst (mergeProbe probed cur prev) = map (merged probed) cur"
  by (induction probed cur prev rule: mergeProbe.induct)
    (auto simp: merged_def simp del: fun_upd_apply split: option.split prod.split)

lemma merged_frame [simp]:
  "ID (merged probed e) = ID e" "Enabled (merged probed e) = Enabled e" "Priority (merged probed e) = Priority e"
  "Config (merged probed e) = Config e" "RawURI (merged probed e) = RawURI e" "Address (merged probed e) = Address e"
  "Name (merged probed e) = Name e" "Source (merged probed e) = Source e" "Protocol (merged probed e) = Protocol e"
  by (simp_all add: merged_def split: option.split)

lemma applyPatch_frame [simp]: "ID (applyPatch p e) = ID e"
  by (auto simp: applyPatch_def Let_def split: option.split)

lemma merged_applyPatch: "merged probed (applyPatch p e) = applyPatch p (merged probed e)"
  by (auto simp: merged_def applyPatch_def Let_def split: option.split)

lemma map_update_first_commute:
  "(\<And>x. P (g x) = P x) \<Longrightarrow> (\<And>x. g (f x) = f (g x)) \<Longrightarrow> map g (update_first P f xs) = update_first P f (map g xs)"
  by (induction xs) auto

text \<open>
  C23. A probe cycle of the background loop changes nothing of an endpoint but its status and
  latency, which become those of the last result with its identifier, and it commutes with an
  edit from the dashboard: a PATCH made while the cycle was probing is kept. One that falls
  between reading the pool and writing it back is lost, and so is every one made while the
  initial probe runs, because its copies replace the pool.
\<close>

theorem probe_merge_and_patches:
  "endpoints (mergeWrite eps prev (endpoints b) b) = map (merged (probedMap eps)) (endpoints b) \<and>
   (let b' = fst (patchEndpoint i p b)
    in endpoints (mergeWrite eps prev (endpoints b') b') =
         endpoints (fst (patchEndpoint i p (mergeWrite eps prev (endpoints b) b))) \<and>
       mergeWrite eps prev (endpoints b) b' = mergeWrite eps prev (endpoints b) b \<and>
       initialProbeEnds eps b' = initialProbeEnds eps b)"
  by (simp add: mergeWrite_def mergeProbe_endpoints setEndpoints_def patchEndpoint_def initialProbeEnds_def Let_def
      map_update_first_commute merged_applyPatch)

text \<open>
  A password from any of the three places turns SOCKS5 authentication on, with the user name
  \<open>moav\<close> when none is given; the \<open>.env\<close> file counts before the process environment, and that
  before \<open>config.yaml\<close>. Without a password there is none, whatever the user name.
\<close>

theorem auth_precedence:
  "socks5Credentials (startServer osEnv envFile pc eng torrent) =
     (case filter (\<lambda>v. v \<noteq> []) [cget envFile ''SOCKS5_PASSWORD'', cget osEnv ''SOCKS5_PASSWORD'', pcPassword pc] of
        [] \<Rightarrow> None
      | pw # _ \<Rightarrow>
          Some (hd (filter (\<lambda>v. v \<noteq> [])
                  [cget envFile ''SOCKS5_USERNAME'', cget osEnv ''SOCKS5_USERNAME'', pcUsername pc, ''moav'']), pw))"
  by (auto simp: startServer_def resolveAuth_def lastNonEmpty_def socks5Credentials_def withAuth_def newServer_def Let_def)

end
