(* ===== verification/Pinning.thy ===== *)
theory Pinning
  imports Pool
begin

text \<open>
  How the three generators of start-up work together: which dialer an endpoint of the pool is
  pinned to, and the way from the dialer through the SNI spoofer to the server.
\<close>

section \<open>Which dialer\<close>

lemma xrClaims_iff:
  "xrClaims e \<longleftrightarrow> xrHandles e \<and> splitHostPortInt (Address e) \<noteq> None \<and> Protocol e \<in> {''vless'', ''mtproxy''}"
  by (auto simp: xrClaims_def xrClaim_def xrOutbound_def split: option.splits prod.splits)

lemma xrHandles_pin [simp]: "xrHandles (pin ''socks5_addr'' h p e) = xrHandles e"
  by (simp add: xrHandles_def pin_def Let_def)

lemma xrClaims_pin [simp]: "xrClaims (pin ''socks5_addr'' h p e) = xrClaims e"
  by (simp add: xrClaims_iff) (simp add: pin_def)

lemma claims_exclusive: "sbClaims e \<Longrightarrow> \<not> xrClaims e"
  by (auto simp: xrClaims_iff sbClaims_def sbClaim_def sbOutbound_def vlessOutbound_def withTransport_def Let_def
      transportFromConfig_def xrHandles_def split: option.splits prod.splits if_splits)

text \<open>The port is what follows the last colon, so addresses with different ports differ.\<close>

lemma joinHostPort_port:
  assumes "plain_port p" "plain_port q" "joinHostPort h p = joinHostPort g q"
  shows "p = q"
proof -
  have cut: "takeWhile (\<lambda>c. c \<noteq> CHR '':'') (rev (joinHostPort h p)) = rev p" if "plain_port p" for h p
    using that by (auto simp: joinHostPort_def plain_port_def takeWhile_append takeWhile_eq_all_conv)
  from cut [OF assms(1), of h] cut [OF assms(2), of g] assms(3) show ?thesis by simp
qed

definition sbPortOf :: "gen_config \<Rightarrow> endpoint list \<Rightarrow> nat \<Rightarrow> int" where
  "sbPortOf cfg eps i = (let c = genDefaults 10800 cfg in sb_alloc.portAt c (BasePort c) eps i)"

definition xrPortOf :: "gen_config \<Rightarrow> endpoint list \<Rightarrow> nat \<Rightarrow> int" where
  "xrPortOf cfg eps i = (let c = genDefaults 11800 cfg in xr_alloc.portAt c (BasePort c) eps i)"

lemma singboxStage_nth:
  "i < length eps \<Longrightarrow> singboxStage True cfg eps ! i =
     (if sbClaims (eps ! i) then pin ''socks5_addr'' (DialHost (genDefaults 10800 cfg)) (sbPortOf cfg eps i) (eps ! i)
      else eps ! i)"
  by (auto simp: singboxStage_def sbGenerate_def sbPortOf_def Let_def case_prod_unfold sbLoop_run sb_alloc.run_nth)

lemma length_singboxStage [simp]: "length (singboxStage on cfg eps) = length eps"
  by (auto simp: singboxStage_def sbGenerate_def Let_def case_prod_unfold sbLoop_run)

lemma xrayStage_nth:
  "i < length eps \<Longrightarrow> xrayStage True cfg eps ! i =
     (if xrClaims (eps ! i) then pin ''socks5_addr'' (DialHost (genDefaults 11800 cfg)) (xrPortOf cfg eps i) (eps ! i)
      else eps ! i)"
  by (auto simp: xrayStage_def xrGenerate_def xrPortOf_def Let_def case_prod_unfold xrRun_def [symmetric] xr_alloc.run_nth)

lemma length_filter_map: "length (filter P xs) = length (filter id (map P xs))"
  by (induction xs) auto

text \<open>sing-box's pins do not change what Xray claims, so Xray's ports are those of the pool before.\<close>

lemma xrPortOf_singboxStage [simp]: "xrPortOf xr (singboxStage True sb eps) i = xrPortOf xr eps i"
proof -
  have "map xrClaims (take i (singboxStage True sb eps)) = map xrClaims (take i eps)"
    by (rule nth_equalityI) (simp_all add: singboxStage_nth)
  then show ?thesis
    unfolding xrPortOf_def xr_alloc.portAt_def Let_def length_filter_map [of xrClaims] by simp
qed

text \<open>The address an endpoint of the pool is pinned to, \<open>None\<close> when no dialer takes it.\<close>

definition dialerOf :: "gen_config \<Rightarrow> gen_config \<Rightarrow> endpoint list \<Rightarrow> nat \<Rightarrow> (string \<times> int) option" where
  "dialerOf sb xr eps i =
     (if sbClaims (eps ! i) then Some (DialHost (genDefaults 10800 sb), sbPortOf sb eps i)
      else if xrClaims (eps ! i) then Some (DialHost (genDefaults 11800 xr), xrPortOf xr eps i)
      else None)"

lemma pinPool_nth:
  assumes "i < length (spoofStage sp eps)"
  shows "pinPool sp (True, sb) (True, xr) eps ! i =
    (case dialerOf sb xr (spoofStage sp eps) i of
       None \<Rightarrow> spoofStage sp eps ! i
     | Some (h, p) \<Rightarrow> pin ''socks5_addr'' h p (spoofStage sp eps ! i))"
  using assms claims_exclusive [of "spoofStage sp eps ! i"]
  by (auto simp: pinPool_def xrayStage_nth singboxStage_nth dialerOf_def)

lemma length_spoofStage [simp]: "length (spoofStage sp eps) = length eps"
  by (simp add: spoofStage_def ssGenerate_def Let_def case_prod_unfold)

definition portsFrom :: "int \<Rightarrow> nat \<Rightarrow> int set" where
  "portsFrom base n = {base .. base + int n}"

lemma sbPortOf_bounds: "sbPortOf cfg eps i \<in> portsFrom (BasePort (genDefaults 10800 cfg)) (length eps)"
  using sb_alloc.portAt_bounds by (simp add: sbPortOf_def portsFrom_def Let_def)

lemma xrPortOf_bounds: "xrPortOf cfg eps i \<in> portsFrom (BasePort (genDefaults 11800 cfg)) (length eps)"
  using xr_alloc.portAt_bounds by (simp add: xrPortOf_def portsFrom_def Let_def)

lemma dialer_ports_distinct:
  assumes "i < length eps" "j < length eps" "i \<noteq> j"
    and "dialerOf sb xr eps i = Some (h, p)" "dialerOf sb xr eps j = Some (g, q)"
    and "portsFrom (BasePort (genDefaults 10800 sb)) (length eps) \<inter>
         portsFrom (BasePort (genDefaults 11800 xr)) (length eps) = {}"
  shows "p \<noteq> q"
proof -
  have lt: "p < q" if "i < j" "j < length eps" "dialerOf sb xr eps i = Some (h, p)" "dialerOf sb xr eps j = Some (g, q)"
      "sbClaims (eps ! i) = sbClaims (eps ! j)" for i j h p g q
    using that sb_alloc.portAt_less [OF that(1,2)] xr_alloc.portAt_less [OF that(1,2)]
    by (auto simp: dialerOf_def sbPortOf_def xrPortOf_def Let_def split: if_splits)
  consider "sbClaims (eps ! i) = sbClaims (eps ! j)" | "sbClaims (eps ! i) \<noteq> sbClaims (eps ! j)" by blast
  then show ?thesis
  proof cases
    case 1
    then show ?thesis
      using lt [of i j h p g q] lt [of j i g q h p] assms(1-5) by (cases i j rule: linorder_cases) auto
  next
    case 2
    then show ?thesis
      using assms(4-6) sbPortOf_bounds [of sb eps i] sbPortOf_bounds [of sb eps j]
        xrPortOf_bounds [of xr eps i] xrPortOf_bounds [of xr eps j]
      by (auto simp: dialerOf_def disjoint_iff split: if_splits)
  qed
qed

text \<open>
  C18. No endpoint is claimed by both dialers: each endpoint of the pool is pinned to sing-box, or
  to Xray, or left as it was; and no two endpoints are pinned to one address, as long as the
  port ranges of the two dialers do not meet (with the default bases, for fewer than 1000
  endpoints).
\<close>

theorem pool_dialers:
  assumes "i < length eps"
  shows "\<not> (sbClaims e \<and> xrClaims e) \<and>
    pinPool sp (True, sb) (True, xr) eps ! i =
      (case dialerOf sb xr (spoofStage sp eps) i of
         None \<Rightarrow> spoofStage sp eps ! i
       | Some (h, p) \<Rightarrow> pin ''socks5_addr'' h p (spoofStage sp eps ! i)) \<and>
    (\<forall>j < length eps. \<forall>h p g q. j \<noteq> i \<longrightarrow>
       dialerOf sb xr (spoofStage sp eps) i = Some (h, p) \<longrightarrow> dialerOf sb xr (spoofStage sp eps) j = Some (g, q) \<longrightarrow>
       portsFrom (BasePort (genDefaults 10800 sb)) (length eps) \<inter>
         portsFrom (BasePort (genDefaults 11800 xr)) (length eps) = {} \<longrightarrow>
       in_int64 p \<longrightarrow> in_int64 q \<longrightarrow>
       joinHostPort h (strconvItoa p) \<noteq> joinHostPort g (strconvItoa q))"
  using assms claims_exclusive [of e] pinPool_nth [of i sp eps sb xr]
    dialer_ports_distinct [of i "spoofStage sp eps" _ sb xr]
  by (fastforce dest: joinHostPort_port [OF plain_port_Itoa plain_port_Itoa] simp: strconvItoa_inj)

section \<open>Through the SNI spoofer\<close>

lemma ssLoop_mappings: "fst (ssLoop cfg p es) = map (\<lambda>(i, p, e). ssMapping p e) (allocs ssHandles n p es)"
  by (induction es arbitrary: n p) (auto simp: case_prod_unfold)

text \<open>The spoofer's own keys are none the outbounds read.\<close>

definition spoofKeys :: "string list" where
  "spoofKeys = [''fake_sni'', ''utls'', ''spoof_via'']"

lemma outbounds_spoofKeys:
  assumes "k \<in> set spoofKeys"
  shows "vlessOutbound (c(k \<mapsto> v)) = vlessOutbound c" "trojanOutbound (c(k \<mapsto> v)) = trojanOutbound c"
    "vmessOutbound (c(k \<mapsto> v)) = vmessOutbound c"
proof -
  have ne: "''net'' \<noteq> k" "''type'' \<noteq> k" "''path'' \<noteq> k" "''host'' \<noteq> k" "''sni'' \<noteq> k" "''alpn'' \<noteq> k"
      "''fp'' \<noteq> k" "''security'' \<noteq> k" "''uuid'' \<noteq> k" "''flow'' \<noteq> k" "''pbk'' \<noteq> k" "''sid'' \<noteq> k"
      "''password'' \<noteq> k" "''tls'' \<noteq> k"
    using assms by (auto simp: spoofKeys_def)
  have t: "transportFromConfig (c(k \<mapsto> v)) = transportFromConfig c"
    by (simp only: transportFromConfig_def cget_upd ne if_False)
  have l: "tlsBase (c(k \<mapsto> v)) = tlsBase c"
    by (simp only: tlsBase_def cget_upd ne if_False)
  have w: "withTransport (c(k \<mapsto> v)) = withTransport c"
    by (intro ext) (simp only: withTransport_def t)
  show "vlessOutbound (c(k \<mapsto> v)) = vlessOutbound c"
    by (intro ext) (simp only: vlessOutbound_def optField_def cget_upd ne if_False l w)
  show "trojanOutbound (c(k \<mapsto> v)) = trojanOutbound c"
    by (intro ext) (simp only: trojanOutbound_def cget_upd ne if_False l w)
  show "vmessOutbound (c(k \<mapsto> v)) = vmessOutbound c"
    by (intro ext) (simp only: vmessOutbound_def cget_upd ne if_False l w)
qed

lemma promote_frame [simp]:
  "Protocol (promote sp e) = Protocol e" "Address (promote sp e) = Address e"
  "cget (Config (promote sp e)) ''security'' = cget (Config e) ''security''"
  "cget (Config (promote sp e)) ''spoof_via'' = cget (Config e) ''spoof_via''"
  by (auto simp: promote_def Let_def)

lemma outbounds_promote:
  "vlessOutbound (Config (promote sp e)) = vlessOutbound (Config e)"
  "trojanOutbound (Config (promote sp e)) = trojanOutbound (Config e)"
  "vmessOutbound (Config (promote sp e)) = vmessOutbound (Config e)"
  by (auto simp: promote_def Let_def outbounds_spoofKeys spoofKeys_def)

lemma sbOutbound_through:
  assumes "endpointEligibleForSNISpoof e" "cget (Config e) ''spoof_via'' = []" "sbOutbound e = Some ob"
    and "Protocol e' = Protocol e" "Address e' = Address e"
    and "vlessOutbound (Config e') = vlessOutbound (Config e)" "trojanOutbound (Config e') = trojanOutbound (Config e)"
    and "vmessOutbound (Config e') = vmessOutbound (Config e)"
    and "cget (Config e') ''security'' = cget (Config e) ''security''"
    and "plain_host h" "in_int64 p"
  shows "sbOutbound (pin ''spoof_via'' h p e') = Some (jset ''server_port'' (JNum p) (jset ''server'' (JStr h) ob))"
proof -
  let ?e = "pin ''spoof_via'' h p e'"
  have pr: "Protocol e = ''vless'' \<or> Protocol e = ''trojan'' \<or> Protocol e = ''vmess''"
    and sec: "cget (Config e) ''security'' = ''tls''"
    using assms(1) by (auto simp: endpointEligibleForSNISpoof_def split: if_splits)
  have ap: "sbApplySpoof ?e j = jset ''server_port'' (JNum p) (jset ''server'' (JStr h) j)" for j
    using assms(9-11) sec splitHostPortInt_join [OF assms(10,11)]
    by (simp add: sbApplySpoof_def pin_def Let_def) (simp add: joinHostPort_def)
  have id: "sbApplySpoof e j = j" for j using assms(2) by (simp add: sbApplySpoof_def Let_def)
  have cfg: "Config ?e = (Config e')(''spoof_via'' \<mapsto> joinHostPort h (strconvItoa p))"
    "Protocol ?e = Protocol e" "Address ?e = Address e"
    using assms(4,5) by (simp_all add: pin_def)
  show ?thesis
    using pr assms(3,6-8)
    by (auto simp: sbOutbound_def ap id cfg outbounds_spoofKeys spoofKeys_def Let_def split: option.splits)
qed

definition promoted :: "spoof_config \<Rightarrow> endpoint list \<Rightarrow> endpoint list" where
  "promoted sp eps = (if spDefaultSNI sp \<noteq> [] then map (promote sp) eps else eps)"

definition spoofPortOf :: "spoof_config \<Rightarrow> endpoint list \<Rightarrow> nat \<Rightarrow> int" where
  "spoofPortOf sp eps i =
     (let c = genDefaults 12800 (spGen sp) in ss_alloc.portAt c (BasePort c) (promoted sp eps) i)"

text \<open>
  C19. With SNI spoofing on, an endpoint that does a TLS handshake over TCP and has a fake server
  name (its own or the default) is dialled through the spoofer: its sing-box outbound is the
  one it had, except that it connects to the spoofer's host and a port of its own, and exactly
  one mapping listens on that port, which connects to the endpoint's address with that fake
  name.
\<close>

theorem spoof_chain:
  assumes "spEnabled sp" "i < length eps" "endpointEligibleForSNISpoof (eps ! i)"
    and "spDefaultSNI sp \<noteq> [] \<or> cget (Config (eps ! i)) ''fake_sni'' \<noteq> []"
    and "cget (Config (eps ! i)) ''spoof_via'' = []" "sbOutbound (eps ! i) = Some ob"
    and "plain_host (DialHost (genDefaults 12800 (spGen sp)))"
    and "in_int64 (BasePort (genDefaults 12800 (spGen sp)))"
    and "in_int64 (BasePort (genDefaults 12800 (spGen sp)) + int (length eps))"
  shows "\<exists>ms ob'. fst (ssGenerate (promoted sp eps) (spGen sp)) = Some ms \<and>
    (let port = spoofPortOf sp eps i
     in sbOutbound (spoofStage sp eps ! i) = Some ob' \<and>
        jget ob' ''server'' = Some (JStr (DialHost (genDefaults 12800 (spGen sp)))) \<and>
        jget ob' ''server_port'' = Some (JNum port) \<and>
        (\<forall>k. k \<noteq> ''server'' \<longrightarrow> k \<noteq> ''server_port'' \<longrightarrow> jget ob' k = jget ob k) \<and>
        find (\<lambda>m. mapListen m = '':'' @ strconvItoa port) ms = Some (ssMapping port (promoted sp eps ! i)) \<and>
        mapConnect (ssMapping port (promoted sp eps ! i)) = Address (eps ! i) \<and>
        mapFakeSNI (ssMapping port (promoted sp eps ! i)) =
          (if cget (Config (eps ! i)) ''fake_sni'' = [] then spDefaultSNI sp else cget (Config (eps ! i)) ''fake_sni''))"
proof -
  let ?c = "genDefaults 12800 (spGen sp)" and ?P = "promoted sp eps" and ?port = "spoofPortOf sp eps i"
  let ?e = "eps ! i" and ?L = "allocs ssHandles 0 (BasePort (genDefaults 12800 (spGen sp))) (promoted sp eps)"
  have len: "length ?P = length eps" by (simp add: promoted_def)
  have Pi: "?P ! i = (if spDefaultSNI sp \<noteq> [] then promote sp ?e else ?e)"
    using assms(2) by (simp add: promoted_def)
  have fake: "cget (Config (?P ! i)) ''fake_sni'' =
      (if cget (Config ?e) ''fake_sni'' = [] then spDefaultSNI sp else cget (Config ?e) ''fake_sni'')"
    using assms(3,4) by (auto simp: Pi promote_def Let_def)
  then have h: "ssHandles (?P ! i)" using assms(4) by (auto simp: ssHandles_def)
  have x: "(i, ?port, ?P ! i) \<in> set ?L"
    using allocs_nth [of i ?P ssHandles 0 "BasePort ?c"] assms(2) h len
    by (simp add: spoofPortOf_def ss_alloc.portAt_def Let_def)
  have st: "spoofStage sp eps = snd (ssLoop ?c (BasePort ?c) ?P)"
    and ms: "fst (ssGenerate ?P (spGen sp)) = Some (map (\<lambda>(i, p, e). ssMapping p e) ?L)"
    using assms(1,2) x ssLoop_mappings [of ?c "BasePort ?c" ?P 0]
    by (auto simp: spoofStage_def ssGenerate_def promoted_def Let_def case_prod_unfold)
  have us: "spoofStage sp eps ! i = pin ''spoof_via'' (DialHost ?c) ?port (?P ! i)"
    using ss_alloc.run_nth [of i ?P ?c "BasePort ?c"] assms(2) h len
    by (simp add: st spoofPortOf_def Let_def)
  have rng: "in_int64 p" if "(j, p, e) \<in> set ?L" for j p e
    using that allocs_upper [of j p e ssHandles 0 "BasePort ?c" ?P] allocs_bounds [of j p e ssHandles 0 "BasePort ?c" ?P]
      assms(8,9) len by (auto simp: in_int64_def)
  have "find (\<lambda>m. mapListen m = '':'' @ strconvItoa ?port) (map (\<lambda>(i, p, e). ssMapping p e) ?L) = Some (ssMapping ?port (?P ! i))"
    using find_map_distinct [OF allocs_distinct(2) x, of "\<lambda>m. mapListen m = '':'' @ strconvItoa ?port" "\<lambda>(i, p, e). ssMapping p e"]
      rng x by (auto simp: ssMapping_def case_prod_unfold strconvItoa_inj)
  moreover have "sbOutbound (spoofStage sp eps ! i) =
      Some (jset ''server_port'' (JNum ?port) (jset ''server'' (JStr (DialHost ?c)) ob))"
    unfolding us by (rule sbOutbound_through [OF assms(3,5,6)])
      (use assms(7) rng [OF x] in \<open>simp_all add: Pi outbounds_promote\<close>)
  moreover have "Address (?P ! i) = Address ?e" by (simp add: Pi)
  ultimately show ?thesis
    using ms fake sbOutbound_isObj [OF assms(6)] by (simp add: Let_def ssMapping_def)
qed

section \<open>Concrete pools\<close>

definition noSpoof :: spoof_config where
  "noSpoof = \<lparr>spEnabled = False, spGen = exampleCfg [], spDefaultSNI = [], spDefaultUTLS = []\<rparr>"

lemma example_dialers:
  "spoofStage noSpoof exampleEps = exampleEps"
  "dialerOf (exampleCfg ''singbox'') (exampleCfg ''xray'') exampleEps 0 = Some (''xray'', 11800)"
  "dialerOf (exampleCfg ''singbox'') (exampleCfg ''xray'') exampleEps 1 = Some (''singbox'', 10800)"
  using exampleEps_claims exampleEps_xray
  by (simp_all add: spoofStage_def noSpoof_def dialerOf_def sbPortOf_def xrPortOf_def genDefaults_def exampleCfg_def
      sb_alloc.portAt_def xr_alloc.portAt_def take_Suc_conv_app_nth Let_def)

theorem pool_dialers_witness:
  "pinPool noSpoof (True, exampleCfg ''singbox'') (True, exampleCfg ''xray'') exampleEps ! 0 =
     pin ''socks5_addr'' ''xray'' 11800 (exampleEps ! 0) \<and>
   joinHostPort ''xray'' (strconvItoa 11800) \<noteq> joinHostPort ''singbox'' (strconvItoa 10800)"
proof -
  have "portsFrom (BasePort (genDefaults 10800 (exampleCfg ''singbox''))) (length exampleEps) \<inter>
      portsFrom (BasePort (genDefaults 11800 (exampleCfg ''xray''))) (length exampleEps) = {}"
    using exampleEps_claims(3) by (simp add: portsFrom_def genDefaults_def exampleCfg_def)
  then show ?thesis
    using pool_dialers [of 0 exampleEps "exampleEps ! 0" noSpoof "exampleCfg ''singbox''" "exampleCfg ''xray''"]
      exampleEps_claims(3) example_dialers
    by (auto simp: in_int64_def int64_min_def int64_max_def dest!: spec [of _ "Suc 0"])
qed

definition tlsEndpoint :: endpoint where
  "tlsEndpoint = fresh_endpoint ''vless'' ''a.test:443'' ''a'' ''vless://a'' [''security'' \<mapsto> ''tls'', ''uuid'' \<mapsto> ''u'']"

definition spoofing :: spoof_config where
  "spoofing = \<lparr>spEnabled = True, spGen = exampleCfg ''spoofer'', spDefaultSNI = ''cover.test'', spDefaultUTLS = []\<rparr>"

lemma tlsEndpoint_facts:
  "endpointEligibleForSNISpoof tlsEndpoint" "cget (Config tlsEndpoint) ''spoof_via'' = []" "Address tlsEndpoint = ''a.test:443''"
  "cget (Config tlsEndpoint) ''fake_sni'' = []"
  "sbOutbound tlsEndpoint \<noteq> None" "plain_host ''spoofer''"
  by code_simp+

theorem spoof_chain_witness:
  "\<exists>ms ob port. fst (ssGenerate (promoted spoofing [tlsEndpoint]) (spGen spoofing)) = Some ms \<and>
     sbOutbound (spoofStage spoofing [tlsEndpoint] ! 0) = Some ob \<and>
     jget ob ''server'' = Some (JStr ''spoofer'') \<and> jget ob ''server_port'' = Some (JNum port) \<and>
     map_option mapConnect (find (\<lambda>m. mapListen m = '':'' @ strconvItoa port) ms) = Some ''a.test:443''"
proof -
  obtain ob where ob: "sbOutbound ([tlsEndpoint] ! 0) = Some ob" using tlsEndpoint_facts(5) by auto
  have c: "spEnabled spoofing" "spDefaultSNI spoofing \<noteq> []" "DialHost (genDefaults 12800 (spGen spoofing)) = ''spoofer''"
      "BasePort (genDefaults 12800 (spGen spoofing)) = 12800"
    by (simp_all add: spoofing_def genDefaults_def exampleCfg_def)
  have "0 < length [tlsEndpoint]" "in_int64 12800" "in_int64 (12800 + int (length [tlsEndpoint]))"
    by (simp_all add: in_int64_def int64_min_def int64_max_def)
  from spoof_chain [OF c(1) this(1) _ _ _ ob] this c(2-4) tlsEndpoint_facts
  show ?thesis by (fastforce simp: Let_def)
qed

end
