(* ===== verification/Startup.thy ===== *)
theory Startup
  imports Pinning
begin

text \<open>
  The persisted state (\<open>state/state.go\<close>), the configuration (\<open>config/config.go\<close>) and the start
  of \<open>serve\<close> in \<open>main.go\<close>, which puts the components together.
\<close>

section \<open>The state file\<close>

record saved_state =
  LastProbeAt :: int
  SavedEndpoints :: "endpoint list"

datatype file_read = NotExist | ReadError | Contents string

text \<open>The JSON codec is an argument; \<open>None\<close> is an error.\<close>

definition loadState :: "(string \<Rightarrow> saved_state option) \<Rightarrow> file_read \<Rightarrow> saved_state option" where
  "loadState decode r =
     (case r of
        NotExist \<Rightarrow> Some \<lparr>LastProbeAt = 0, SavedEndpoints = []\<rparr>
      | ReadError \<Rightarrow> None
      | Contents data \<Rightarrow> decode data)"

definition saveState ::
  "(saved_state \<Rightarrow> string option) \<Rightarrow> io_fault \<Rightarrow> string \<Rightarrow> saved_state \<Rightarrow> disk \<Rightarrow> disk \<times> bool" where
  "saveState encode f path s d =
     (if f = MkdirFails then (d, False)
      else case encode s of None \<Rightarrow> (d, False) | Some data \<Rightarrow> writeAtomic f path data d)"

text \<open>What a run finds: the state, or an empty one when it cannot be read.\<close>

definition savedAtStart :: "(string \<Rightarrow> saved_state option) \<Rightarrow> file_read \<Rightarrow> endpoint list" where
  "savedAtStart decode r =
     (case loadState decode r of None \<Rightarrow> [] | Some s \<Rightarrow> SavedEndpoints s)"

text \<open>
  \<open>writeConfigIfChanged\<close>: the generated file is replaced in one step; changed when its hash
  differs from the old file's, a missing file counting as the zero hash.
\<close>

definition writeConfigIfChanged ::
  "(string \<Rightarrow> string) \<Rightarrow> io_fault \<Rightarrow> string \<Rightarrow> string \<Rightarrow> disk \<Rightarrow> disk \<times> bool option" where
  "writeConfigIfChanged sha256 f path body d =
     (let newHash = sha256 body;
          oldHash = (case d path of Some old \<Rightarrow> sha256 old | None \<Rightarrow> replicate 32 (CHR 0x00))
      in case writeAtomic f path body d of (d', ok) \<Rightarrow> (d', if ok then Some (oldHash \<noteq> newHash) else None))"

definition fileRead :: "disk \<Rightarrow> string \<Rightarrow> file_read" where
  "fileRead d path = (case d path of None \<Rightarrow> NotExist | Some c \<Rightarrow> Contents c)"

text \<open>
  C24. Saving the state is crash safe: whatever step fails, the state file holds what it held or
  the whole new state, and no file but it and its temporary one changes; saving and loading
  gives the state back.
\<close>

theorem state_save_crash_safe:
  assumes "\<And>s data. encode s = Some data \<Longrightarrow> decode data = Some s" "saveState encode f path s d = (d', ok)"
  shows "(if ok then loadState decode (fileRead d' path) = Some s else d' path = d path) \<and>
    (ok \<longleftrightarrow> f = NoFault \<and> encode s \<noteq> None) \<and>
    (\<forall>p. p \<noteq> path \<longrightarrow> p \<noteq> path @ ''.tmp'' \<longrightarrow> d' p = d p)"
  using assms
  by (auto simp: saveState_def writeAtomic_def Let_def loadState_def fileRead_def split: if_splits option.splits io_fault.splits)

section \<open>The configuration\<close>

record lb_config =
  lbStrategy :: string
  lbProbeOnStart :: bool

record plugins_config =
  plTorrentBlock :: bool
  plBlockDirect :: bool
  plRoutingRules :: "rule_config list"

record dialer_config =
  dcEnabled :: bool
  dcGen :: gen_config
  dcOutputPath :: string

record app_config =
  acProxy :: proxy_config
  acSubscription :: subscription_config
  acLoadBalancing :: lb_config
  acPlugins :: plugins_config
  acSidecars :: sidecars_config
  acSingbox :: dialer_config
  acXray :: dialer_config
  acSNISpoof :: spoof_config
  acSpoofOutput :: string

definition noSidecar :: sidecar_entry where
  "noSidecar = \<lparr>scEnabled = False, scPriority = 0, scConfig = Map.empty\<rparr>"

definition configDefaults :: app_config where
  "configDefaults =
     \<lparr>acProxy = \<lparr>pcSocksPort = 1080, pcHttpPort = 8080, pcApiPort = 8088, pcUsername = [], pcPassword = []\<rparr>,
      acSubscription = \<lparr>subURL = [], subFile = [], subWireGuard = [], subSources = []\<rparr>,
      acLoadBalancing = \<lparr>lbStrategy = ''latency'', lbProbeOnStart = True\<rparr>,
      acPlugins = \<lparr>plTorrentBlock = False, plBlockDirect = False, plRoutingRules = []\<rparr>,
      acSidecars = \<lparr>scMasterDNS = noSidecar, scDNSTT = noSidecar, scPsiphon = noSidecar, scTor = noSidecar,
                    scAmneziaWG = noSidecar, scTrustTunnel = noSidecar\<rparr>,
      acSingbox = \<lparr>dcEnabled = True, dcGen = \<lparr>ListenHost = ''0.0.0.0'', DialHost = ''singbox'', BasePort = 10800\<rparr>,
                   dcOutputPath = ''data/singbox.json''\<rparr>,
      acXray = \<lparr>dcEnabled = True, dcGen = \<lparr>ListenHost = ''0.0.0.0'', DialHost = ''xray'', BasePort = 11800\<rparr>,
                dcOutputPath = ''data/xray.json''\<rparr>,
      acSNISpoof = \<lparr>spEnabled = False,
                    spGen = \<lparr>ListenHost = ''0.0.0.0'', DialHost = ''sni-spoof'', BasePort = 12800\<rparr>,
                    spDefaultSNI = [], spDefaultUTLS = ''chrome''\<rparr>,
      acSpoofOutput = ''data/sni-spoof.json''\<rparr>"

text \<open>The YAML decoder fills in a value that holds the defaults.\<close>

definition loadConfig :: "(string \<Rightarrow> app_config \<Rightarrow> app_config option) \<Rightarrow> file_read \<Rightarrow> app_config option" where
  "loadConfig unmarshal r =
     (case r of Contents data \<Rightarrow> unmarshal data configDefaults | _ \<Rightarrow> None)"

section \<open>Serving\<close>

text \<open>
  From the configuration to the balancer and the listeners; \<open>None\<close> is a panic (of a parser, or
  of the rule identifiers).
\<close>

definition startBalancer :: "app_config \<Rightarrow> endpoint list \<Rightarrow> balancer" where
  "startBalancer cfg eps =
     (let s = lbStrategy (acLoadBalancing cfg);
          b = newBalancer (if s = [] then ''latency'' else s)
      in setBlockDirect (plBlockDirect (acPlugins cfg)) (setEndpoints eps b))"

text \<open>
  What the generators write with: the encoders of \<open>encoding/json\<close>, SHA-256 and the faults of
  each write. The file of a generator has a default name.
\<close>

record serve_env =
  seLoad :: load_env
  seSidecars :: gen_env
  seMappings :: "mapping list \<Rightarrow> string"
  seJSON :: "json \<Rightarrow> string"
  seSHA256 :: "string \<Rightarrow> string"
  seFaults :: "string \<Rightarrow> io_fault"

definition spoofRun :: "serve_env \<Rightarrow> app_config \<Rightarrow> endpoint list \<times> disk \<Rightarrow> endpoint list \<times> disk" where
  "spoofRun se cfg st =
     (case st of (eps, d) \<Rightarrow>
        if \<not> spEnabled (acSNISpoof cfg) \<or> eps = [] then (eps, d)
        else (case ssGenerate (promoted (acSNISpoof cfg) eps) (spGen (acSNISpoof cfg)) of
                (None, us) \<Rightarrow> (us, d)
              | (Some ms, us) \<Rightarrow>
                  (let path = orElse (acSpoofOutput cfg) ''data/sni-spoof.json''
                   in (us, fst (writeAtomic (seFaults se path) path (seMappings se ms) d)))))"

definition singboxRun :: "serve_env \<Rightarrow> dialer_config \<Rightarrow> endpoint list \<times> disk \<Rightarrow> endpoint list \<times> disk" where
  "singboxRun se dc st =
     (case st of (eps, d) \<Rightarrow>
        if \<not> dcEnabled dc \<or> eps = [] then (eps, d)
        else (case sbGenerate eps (dcGen dc) of
                (root, us) \<Rightarrow>
                  (let path = orElse (dcOutputPath dc) ''data/singbox.json''
                   in (us, fst (writeConfigIfChanged (seSHA256 se) (seFaults se path) path (seJSON se root) d)))))"

definition xrayRun :: "serve_env \<Rightarrow> dialer_config \<Rightarrow> endpoint list \<times> disk \<Rightarrow> endpoint list \<times> disk" where
  "xrayRun se dc st =
     (case st of (eps, d) \<Rightarrow>
        if \<not> dcEnabled dc \<or> eps = [] then (eps, d)
        else (case xrGenerate eps (dcGen dc) of
                (None, us) \<Rightarrow> (us, d)
              | (Some root, us) \<Rightarrow>
                  (let path = orElse (dcOutputPath dc) ''data/xray.json''
                   in (us, fst (writeConfigIfChanged (seSHA256 se) (seFaults se path) path (seJSON se root) d)))))"

definition serve ::
  "serve_env \<Rightarrow> app_config \<Rightarrow> endpoint list \<Rightarrow> config \<Rightarrow> config \<Rightarrow> disk \<Rightarrow> (balancer \<times> server \<times> disk) option" where
  "serve se cfg saved osEnv envFile d =
     (case collectPool ((seLoad se)\<lparr>leFiles := d\<rparr>) saved (acSubscription cfg) (acSidecars cfg) of
        None \<Rightarrow> None
      | Some eps \<Rightarrow>
          (let d1 = fst (generateConfigs (seSidecars se) ''data/sidecar-configs'' (acSidecars cfg) d);
               (pool, d2) = xrayRun se (acXray cfg) (singboxRun se (acSingbox cfg) (spoofRun se cfg (eps, d1)))
           in case startEngine (plRoutingRules (acPlugins cfg)) (plBlockDirect (acPlugins cfg)) of
                None \<Rightarrow> None
              | Some eng \<Rightarrow>
                  Some (startBalancer cfg pool,
                        startServer osEnv envFile (acProxy cfg) eng (plTorrentBlock (acPlugins cfg)), d2)))"

text \<open>The pool that comes out is the one the generators pin, whatever happens to the files.\<close>

lemma generated_pool:
  "fst (xrayRun se (acXray cfg) (singboxRun se (acSingbox cfg) (spoofRun se cfg (eps, d)))) =
     pinPool (acSNISpoof cfg) (dcEnabled (acSingbox cfg), dcGen (acSingbox cfg)) (dcEnabled (acXray cfg), dcGen (acXray cfg)) eps"
proof -
  have sp: "fst (spoofRun se cfg (eps, d)) = spoofStage (acSNISpoof cfg) eps" for eps d
    by (auto simp: spoofRun_def spoofStage_def promoted_def Let_def split: prod.split option.split)
  have sb: "fst (singboxRun se dc (eps, d)) = singboxStage (dcEnabled dc) (dcGen dc) eps" for dc eps d
    by (auto simp: singboxRun_def singboxStage_def Let_def split: prod.split)
  have xr: "fst (xrayRun se dc (eps, d)) = xrayStage (dcEnabled dc) (dcGen dc) eps" for dc eps d
    by (auto simp: xrayRun_def xrayStage_def Let_def split: prod.split option.split)
  show ?thesis
    using sp sb xr by (metis (no_types) fst_conv pinPool_def prod.collapse snd_conv)
qed

lemma setRule_configRule:
  "setRule i (configRule rc) = Some r \<Longrightarrow>
   rAction r = rAction (configRule rc) \<and> rEnabled r = rEnabled (configRule rc) \<and> rMatch r = rcMatch rc"
  by (auto simp: setRule_def configRule_def Let_def decisionFromName_def split: if_splits)

lemma startEngine_rules:
  assumes "startEngine rcs block = Some eng"
  shows "engBlockDirect eng = block"
    and "r \<in> set (rules eng) \<Longrightarrow> \<exists>rc \<in> set rcs. rAction r = rAction (configRule rc) \<and>
       rEnabled r = rEnabled (configRule rc) \<and> rMatch r = rcMatch rc"
proof -
  obtain out where out: "optAll (map (\<lambda>(i, r). setRule i r) (enumerate 0 (map configRule rcs))) = Some out"
      "eng = \<lparr>rules = out, engBlockDirect = block\<rparr>"
    using assms by (auto simp: startEngine_def newEngine_def setRules_def setEngBlockDirect_def)
  then show "engBlockDirect eng = block" by simp
  have len: "length out = length rcs"
      "\<And>j. j < length rcs \<Longrightarrow> setRule j (configRule (rcs ! j)) = Some (out ! j)"
    using out(1) by (auto simp: optAll_map_Some list_all2_conv_all_nth nth_enumerate_eq)
  assume "r \<in> set (rules eng)"
  then obtain j where "j < length rcs" "r = out ! j" using out(2) len(1) by (auto simp: in_set_conv_nth)
  then show "\<exists>rc \<in> set rcs. rAction r = rAction (configRule rc) \<and>
       rEnabled r = rEnabled (configRule rc) \<and> rMatch r = rcMatch rc"
    using len(2) setRule_configRule nth_mem by blast
qed

text \<open>
  A configuration with \<open>block_direct\<close> and without an enabled \<open>direct\<close> rule starts a program
  that never leaves the pool: what a client of either listener gets, whatever it asks for, does
  not depend on what a direct dial would have answered.
\<close>

theorem started_kill_switch:
  assumes "serve se cfg saved osEnv envFile disk0 = Some (b, s, disk1)" "plBlockDirect (acPlugins cfg)"
    and "\<And>rc. rc \<in> set (plRoutingRules (acPlugins cfg)) \<Longrightarrow> rcAction rc = ''direct'' \<Longrightarrow> rcEnabled rc = Some False"
    and "\<And>n. pick_env_ok (picks penv n)" "weights_fit (endpoints b)"
  shows "socks5Dial (penv\<lparr>net := (net penv)\<lparr>directDial := d\<rparr>\<rparr>) s network addr (b, Map.empty) =
           socks5Dial penv s network addr (b, Map.empty) \<and>
         serveHTTP (penv\<lparr>net := (net penv)\<lparr>directDial := d\<rparr>\<rparr>) s hj transfers now rMethod addr (b, Map.empty) =
           serveHTTP penv s hj transfers now rMethod addr (b, Map.empty)"
proof -
  obtain eng where eng: "startEngine (plRoutingRules (acPlugins cfg)) (plBlockDirect (acPlugins cfg)) = Some eng"
      "s = startServer osEnv envFile (acProxy cfg) eng (plTorrentBlock (acPlugins cfg))"
      "blockDirect b"
    using assms(1,2) by (auto simp: serve_def startBalancer_def setBlockDirect_def Let_def split: option.splits prod.splits)
  have "srvEngine s = Some eng"
    by (simp add: eng(2) startServer_def withAuth_def newServer_def Let_def split: prod.split)
  moreover have "\<not> rEnabled r" if "r \<in> set (rules eng)" "rAction r = DecisionDirect" for r
    using startEngine_rules(2) [OF eng(1) that(1)] that(2) assms(3)
    by (force simp: configRule_def Let_def split: if_splits)
  ultimately show ?thesis
    using listener_no_direct [OF assms(4,5) eng(3) cache_ok_empty, of s network addr d hj transfers now rMethod]
    by (auto simp: ruleApplies_def)
qed

section \<open>A concrete start\<close>

definition oneState :: saved_state where
  "oneState = \<lparr>LastProbeAt = 1750000000, SavedEndpoints = exampleSaved\<rparr>"

definition oneEncode :: "saved_state \<Rightarrow> string option" where
  "oneEncode s = (if s = oneState then Some ''{state}'' else None)"

theorem state_save_crash_safe_witness:
  "fst (saveState oneEncode RenameFails ''data/state.json'' oneState [''data/state.json'' \<mapsto> ''{old}'']) ''data/state.json'' = Some ''{old}'' \<and>
   loadState (\<lambda>_. Some oneState)
     (fileRead (fst (saveState oneEncode NoFault ''data/state.json'' oneState [''data/state.json'' \<mapsto> ''{old}''])) ''data/state.json'') =
     Some oneState"
proof -
  have codec: "oneEncode s = Some data \<Longrightarrow> (\<lambda>_. Some oneState) data = Some s" for s data
    by (simp add: oneEncode_def split: if_splits)
  let ?d = "[''data/state.json'' \<mapsto> ''{old}'']"
  obtain d1 ok1 d2 ok2 where r: "saveState oneEncode RenameFails ''data/state.json'' oneState ?d = (d1, ok1)"
      "saveState oneEncode NoFault ''data/state.json'' oneState ?d = (d2, ok2)"
    by fastforce
  from state_save_crash_safe [OF codec r(1)] state_save_crash_safe [OF codec r(2)] r show ?thesis
    by (simp add: oneEncode_def)
qed

definition blockedConfig :: app_config where
  "blockedConfig = configDefaults
     \<lparr>acSubscription := exampleSub, acPlugins := \<lparr>plTorrentBlock = True, plBlockDirect = True, plRoutingRules = []\<rparr>,
      acSingbox := (acSingbox configDefaults)\<lparr>dcEnabled := False\<rparr>, acXray := (acXray configDefaults)\<lparr>dcEnabled := False\<rparr>\<rparr>"

definition exampleDisk :: disk where
  "exampleDisk = [''data/sub.txt'' \<mapsto> feed2]"

definition exampleServe :: serve_env where
  "exampleServe =
     \<lparr>seLoad = exampleLoad, seSidecars = \<lparr>geFault = (\<lambda>_. NoFault), geMarshal = (\<lambda>_. [])\<rparr>, seMappings = (\<lambda>_. []),
      seJSON = (\<lambda>_. []), seSHA256 = id, seFaults = (\<lambda>_. NoFault)\<rparr>"

lemma blocked_start:
  "map_option (\<lambda>(b, s, d). map Priority (endpoints b)) (serve exampleServe blockedConfig exampleSaved Map.empty Map.empty exampleDisk) = Some [0, 0]"
  by code_simp

theorem started_kill_switch_witness:
  "\<exists>b s d'. serve exampleServe blockedConfig exampleSaved Map.empty Map.empty exampleDisk = Some (b, s, d') \<and>
     (\<forall>d. socks5Dial (env_down\<lparr>net := (net env_down)\<lparr>directDial := d\<rparr>\<rparr>) s ''tcp'' ''x:1'' (b, Map.empty) =
        socks5Dial env_down s ''tcp'' ''x:1'' (b, Map.empty))"
proof -
  obtain b s d' where bs: "serve exampleServe blockedConfig exampleSaved Map.empty Map.empty exampleDisk = Some (b, s, d')"
      "map Priority (endpoints b) = [0, 0]"
    using blocked_start by (cases "serve exampleServe blockedConfig exampleSaved Map.empty Map.empty exampleDisk") auto
  have fits: "weights_fit (endpoints b)"
  proof -
    obtain e1 e2 where "endpoints b = [e1, e2]" "Priority e1 = 0" "Priority e2 = 0"
      using bs(2) by (auto simp: map_eq_Cons_conv)
    then show ?thesis by (simp add: weights_fit_def weightOf_def int64_max_def)
  qed
  have "pick_env_ok (picks env_down n)" for n by (simp add: env_down_def)
  then show ?thesis
    using started_kill_switch [OF bs(1) _ _ _ fits, of env_down] bs(1)
    by (auto simp: blockedConfig_def)
qed

end
