(* ===== verification/Archive.thy ===== *)
theory Archive
  imports Go_Path
begin

text \<open>
  Bundle imports (\<open>bundles/bundles.go\<close>) and backups (\<open>backup/backup.go\<close>): what an archive writes
  and where. The zip format itself is \<open>archive/zip\<close>; an archive is the list of its entries.
\<close>

section \<open>Archives and the disk\<close>

text \<open>The contents are missing when the entry cannot be opened or read.\<close>

record zip_entry =
  zName :: string
  zIsDir :: bool
  zBody :: "string option"

record archive_env =
  mkdirOk :: "string \<Rightarrow> bool"
  writeRes :: "string \<Rightarrow> write_res"

section \<open>The masterdns files\<close>

definition firstWord :: "string \<Rightarrow> string" where
  "firstWord s = takeWhile (\<lambda>c. c \<notin> {CHR '' '', CHR 0x09, CHR ''#''}) (trimSpace s)"

text \<open>The label lines are followed by the value; the state is (domain, key, method).\<close>

fun instructionLines :: "string list \<Rightarrow> string \<times> string \<times> string \<Rightarrow> string \<times> string \<times> string" where
  "instructionLines [] st = st"
| "instructionLines (raw # rest) (domain, key, meth) =
     (let l = trimSpace raw; low = toLower l
      in instructionLines rest
           (case rest of
              [] \<Rightarrow> (domain, key, meth)
            | next # _ \<Rightarrow>
                if equalFold l ''# Tunnel Domain:'' \<or> hasPrefix l ''# Tunnel Domain:'' then (firstWord next, key, meth)
                else if contains low ''data encryption method'' \<or> contains low ''encryption method''
                then (domain, key, firstWord next)
                else if contains low ''encryption key'' then (domain, firstWord next, meth)
                else (domain, key, meth)))"

definition parseMasterDNSInstructions :: "string \<Rightarrow> string \<times> string \<times> string" where
  "parseMasterDNSInstructions body = instructionLines (splitOn (CHR 0x0A) body) ([], [], [])"

definition tomlScalar :: "string \<Rightarrow> string" where
  "tomlScalar v0 =
     (let v1 = trimSpace v0;
          v2 = (case indexByte v1 (CHR ''#'') of
                  Some (Suc i) \<Rightarrow> if v1 ! i = CHR '' '' \<or> v1 ! i = CHR 0x09 then trimSpace (take (Suc i) v1) else v1
                | _ \<Rightarrow> v1);
          v3 = (if hasPrefix v2 ''['' \<and> hasSuffix v2 '']'' then
                  trimSpace (map (\<lambda>c. if c \<in> {CHR 0x22, CHR 0x27, CHR '',''} then CHR '' '' else c)
                    (take (length v2 - 2) (drop 1 v2)))
                else v2)
      in trimChars v3 [CHR 0x22, CHR 0x27])"

definition tomlLine :: "string \<Rightarrow> string \<times> string \<times> string \<Rightarrow> string \<times> string \<times> string" where
  "tomlLine raw st =
     (let l = trimSpace raw
      in if l = [] \<or> hasPrefix l ''#'' then st
         else (case cutByte l (CHR ''='') of
                 None \<Rightarrow> st
               | Some (k, v) \<Rightarrow>
                   (let k = toUpper (trimSpace k); v = tomlScalar v
                    in case st of (domain, key, meth) \<Rightarrow>
                         if k = ''DOMAINS'' \<or> k = ''DOMAIN''
                         then (firstWord (replaceByte (CHR '','') (CHR '' '') v), key, meth)
                         else if k = ''ENCRYPTION_KEY'' then (domain, v, meth)
                         else if k = ''DATA_ENCRYPTION_METHOD'' \<or> k = ''ENCRYPTION_METHOD''
                         then (domain, key, firstWord v)
                         else st)))"

definition parseMasterDNSToml :: "string \<Rightarrow> string \<times> string \<times> string" where
  "parseMasterDNSToml body = foldl (\<lambda>st raw. tomlLine raw st) ([], [], []) (splitOn (CHR 0x0A) body)"

section \<open>Importing a bundle\<close>

record bundle_result =
  rName :: string
  rFiles :: "string list"
  rSubscription :: string
  rWireGuard :: string
  rAmneziaWG :: string
  rDomain :: string
  rKey :: string
  rMethod :: string
  rTrustTunnel :: string

definition nameChar :: "char \<Rightarrow> bool" where
  "nameChar c \<longleftrightarrow> (let n = of_char c :: nat
     in 65 \<le> n \<and> n \<le> 90 \<or> 97 \<le> n \<and> n \<le> 122 \<or> 48 \<le> n \<and> n \<le> 57 \<or> c \<in> {CHR ''.'', CHR ''_'', CHR ''-''})"

text \<open>The regular expression replaces each run of other characters by one dash.\<close>

fun dashRuns :: "bool \<Rightarrow> string \<Rightarrow> string" where
  "dashRuns inRun [] = []"
| "dashRuns inRun (c # cs) =
     (if nameChar c then c # dashRuns False cs
      else if inRun then dashRuns True cs else CHR ''-'' # dashRuns True cs)"

definition sanitizeName :: "string \<Rightarrow> string" where
  "sanitizeName s = take 64 (trimChars (dashRuns False (trimChars (trimSpace s) ''/'')) ''-.'')"

fun topLevelName :: "zip_entry list \<Rightarrow> string" where
  "topLevelName [] = []"
| "topLevelName (f # fs) =
     (case indexByte (zName f) (CHR ''/'') of
        Some (Suc i) \<Rightarrow> (let n = sanitizeName (take (Suc i) (zName f)) in if n \<noteq> [] then n else topLevelName fs)
      | _ \<Rightarrow> topLevelName fs)"

definition bundleName :: "string \<Rightarrow> zip_entry list \<Rightarrow> string" where
  "bundleName requested files =
     (let n1 = sanitizeName requested; n2 = (if n1 = [] then topLevelName files else n1)
      in if n2 = [] then ''imported-bundle'' else n2)"

text \<open>
  Where an entry goes: the path relative to the bundle's directory, or \<open>None\<close> when the entry is
  skipped.
\<close>

definition entryPath :: "zip_entry \<Rightarrow> string option" where
  "entryPath f =
     (if zIsDir f then None
      else if isAbs (zName f) \<or> hasPrefix (zName f) ''../'' \<or> hasPrefix (zName f) (''..'' @ [CHR 0x5C]) \<or>
              contains (zName f) ''/../'' \<or> contains (zName f) ([CHR 0x5C] @ ''..'' @ [CHR 0x5C]) then None
      else (let relPath = (case indexByte (zName f) (CHR ''/'') of Some i \<Rightarrow> drop (Suc i) (zName f) | None \<Rightarrow> zName f)
            in if relPath = [] then None
               else (let clean = pathClean relPath
                     in if hasPrefix clean ''..'' \<or> isAbs clean then None else Some clean)))"

text \<open>What a file that was written is taken for.\<close>

definition recordFile :: "string \<Rightarrow> string \<Rightarrow> string \<Rightarrow> bundle_result \<Rightarrow> bundle_result" where
  "recordFile clean outPath body res0 =
     (let res = res0\<lparr>rFiles := rFiles res0 @ [clean]\<rparr>; base = toLower (pathBase clean)
      in if base = ''subscription.txt'' then res\<lparr>rSubscription := outPath\<rparr>
         else if base = ''amneziawg.conf'' \<or> hasSuffix base ''-awg.conf'' then res\<lparr>rAmneziaWG := outPath\<rparr>
         else if base = ''wireguard.conf'' \<or> hasSuffix base ''-wg.conf'' then res\<lparr>rWireGuard := outPath\<rparr>
         else if base = ''trusttunnel.toml'' then res\<lparr>rTrustTunnel := outPath\<rparr>
         else if base = ''masterdns-client_config.toml'' then
           (case parseMasterDNSToml body of (d, k, m) \<Rightarrow> res\<lparr>rDomain := d, rKey := k, rMethod := m\<rparr>)
         else if base = ''masterdns-instructions.txt'' then
           (case parseMasterDNSInstructions body of (d, k, m) \<Rightarrow> res\<lparr>rDomain := d, rKey := k, rMethod := m\<rparr>)
         else res)"

fun extractFiles ::
  "archive_env \<Rightarrow> string \<Rightarrow> zip_entry list \<Rightarrow> disk \<Rightarrow> bundle_result \<Rightarrow> disk \<times> bundle_result option" where
  "extractFiles env dest [] d res = (d, Some res)"
| "extractFiles env dest (f # fs) d res =
     (case entryPath f of
        None \<Rightarrow> extractFiles env dest fs d res
      | Some clean \<Rightarrow>
          (let outPath = pathJoin [dest, clean]
           in if \<not> mkdirOk env (pathDir outPath) then (d, None)
              else (case zBody f of
                      None \<Rightarrow> (d, None)
                    | Some body \<Rightarrow>
                        (case writeFile (writeRes env outPath) outPath body d of
                           (d', False) \<Rightarrow> (d', None)
                         | (d', True) \<Rightarrow> extractFiles env dest fs d' (recordFile clean outPath body res)))))"

definition emptyResult :: "string \<Rightarrow> bundle_result" where
  "emptyResult n = \<lparr>rName = n, rFiles = [], rSubscription = [], rWireGuard = [], rAmneziaWG = [],
     rDomain = [], rKey = [], rMethod = [], rTrustTunnel = []\<rparr>"

text \<open>\<open>None\<close> for the archive: not a valid zip. \<open>None\<close> for the result: an error.\<close>

definition extractBundle ::
  "archive_env \<Rightarrow> zip_entry list option \<Rightarrow> string \<Rightarrow> string \<Rightarrow> disk \<Rightarrow> disk \<times> bundle_result option" where
  "extractBundle env archive baseDir requested d =
     (case archive of
        None \<Rightarrow> (d, None)
      | Some files \<Rightarrow>
          (let n = bundleName requested files; dest = pathJoin [baseDir, n]
           in if mkdirOk env dest then extractFiles env dest files d (emptyResult n) else (d, None)))"

section \<open>Backups\<close>

definition excluded :: "string \<Rightarrow> bool" where
  "excluded base \<longleftrightarrow> base \<in> {''state.json'', ''singbox.json'', ''xray.json'', ''.tmp''}"

text \<open>
  A source file by its path relative to the installation; \<open>None\<close> when it cannot be opened or read.
\<close>

definition addFile :: "string \<times> string option \<Rightarrow> zip_entry list \<Rightarrow> zip_entry list option" where
  "addFile f acc =
     (case f of (rel, content) \<Rightarrow>
        if excluded (toLower (pathBase rel)) then Some acc
        else if hasPrefix rel ''data/sidecar-configs/'' then Some acc
        else (case content of None \<Rightarrow> None
              | Some body \<Rightarrow> Some (acc @ [\<lparr>zName = rel, zIsDir = False, zBody = Some body\<rparr>])))"

fun addFiles :: "(string \<times> string option) list \<Rightarrow> zip_entry list \<Rightarrow> zip_entry list option" where
  "addFiles [] acc = Some acc"
| "addFiles (f # fs) acc = (case addFile f acc of None \<Rightarrow> None | Some acc' \<Rightarrow> addFiles fs acc')"

text \<open>
  The installation as \<open>Create\<close> meets it: what \<open>Stat\<close> says of the three roots, and the regular files
  under a directory in the order of \<open>filepath.Walk\<close>.
\<close>

datatype root_stat = Absent | StatError | AFile "string option" | ADir "(string \<times> string option) list"

fun rootFiles :: "string \<Rightarrow> root_stat \<Rightarrow> (string \<times> string option) list option" where
  "rootFiles rel Absent = Some []"
| "rootFiles rel StatError = None"
| "rootFiles rel (AFile c) = Some [(rel, c)]"
| "rootFiles rel (ADir fs) = Some fs"

fun createRoots :: "(string \<times> root_stat) list \<Rightarrow> zip_entry list \<Rightarrow> zip_entry list option" where
  "createRoots [] acc = Some acc"
| "createRoots ((rel, st) # rs) acc =
     (case rootFiles rel st of
        None \<Rightarrow> None
      | Some fs \<Rightarrow> (case addFiles fs acc of None \<Rightarrow> None | Some acc' \<Rightarrow> createRoots rs acc'))"

definition createBackup :: "(string \<Rightarrow> root_stat) \<Rightarrow> zip_entry list option" where
  "createBackup st =
     createRoots [(''config.yaml'', st ''config.yaml''), (''.env'', st ''.env''), (''data'', st ''data'')] []"

definition restorePath :: "zip_entry \<Rightarrow> string option" where
  "restorePath f =
     (if zIsDir f then None
      else if isAbs (zName f) \<or> hasPrefix (zName f) ''../'' \<or> contains (zName f) ''/../'' then None
      else (let clean = pathClean (zName f) in if hasPrefix clean ''..'' then None else Some clean))"

text \<open>The number of files written so far, and whether the restore got to the end.\<close>

fun restoreFiles :: "archive_env \<Rightarrow> string \<Rightarrow> zip_entry list \<Rightarrow> nat \<Rightarrow> disk \<Rightarrow> disk \<times> nat \<times> bool" where
  "restoreFiles env root [] n d = (d, n, True)"
| "restoreFiles env root (f # fs) n d =
     (case restorePath f of
        None \<Rightarrow> restoreFiles env root fs n d
      | Some clean \<Rightarrow>
          (let out = pathJoin [root, clean]
           in if \<not> mkdirOk env (pathDir out) then (d, n, False)
              else (case zBody f of
                      None \<Rightarrow> (d, n, False)
                    | Some body \<Rightarrow>
                        (case writeFile (writeRes env out) out body d of
                           (d', False) \<Rightarrow> (d', n, False)
                         | (d', True) \<Rightarrow> restoreFiles env root fs (Suc n) d'))))"

definition restoreBackup :: "archive_env \<Rightarrow> string \<Rightarrow> zip_entry list option \<Rightarrow> disk \<Rightarrow> disk \<times> nat \<times> bool" where
  "restoreBackup env root archive d =
     (case archive of None \<Rightarrow> (d, 0, False) | Some files \<Rightarrow> restoreFiles env root files 0 d)"

section \<open>Nothing is written outside\<close>

text \<open>The paths at or below the directory with components \<open>ds\<close>.\<close>

definition inDir :: "string list \<Rightarrow> string \<Rightarrow> bool" where
  "inDir ds p \<longleftrightarrow> (\<exists>cs. (\<forall>c \<in> set cs. normal c) \<and> p = joinWith ''/'' (ds @ cs))"

lemma nameChar_dashRuns: "c \<in> set (dashRuns r s) \<Longrightarrow> nameChar c"
  by (induction r s rule: dashRuns.induct) (auto split: if_splits simp: nameChar_def)

lemma sanitizeName_normal:
  assumes "sanitizeName s \<noteq> []"
  shows "normal (sanitizeName s)"
proof -
  let ?t = "trimChars (dashRuns False (trimChars (trimSpace s) ''/'')) ''-.''"
  have chars: "\<forall>c \<in> set ?t. nameChar c" using set_trimChars nameChar_dashRuns by blast
  have ne: "?t \<noteq> []" using assms by (auto simp: sanitizeName_def)
  have "hd ?t = hd (trimLeftBy (\<lambda>c. c \<in> set ''-.'') (dashRuns False (trimChars (trimSpace s) ''/'')))"
    using ne unfolding trimChars_def by (rule hd_trimRightBy)
  then have "hd ?t \<notin> set ''-.''" using ne hd_trimLeftBy unfolding trimChars_def
    by (metis (no_types, lifting) trimRightBy_def list.simps(3) rev.simps(1) dropWhile.simps(1))
  then have "hd (sanitizeName s) \<noteq> CHR ''.''" using ne by (cases ?t) (simp_all add: sanitizeName_def)
  moreover have "CHR ''/'' \<notin> set (sanitizeName s)"
  proof
    assume "CHR ''/'' \<in> set (sanitizeName s)"
    then have "CHR ''/'' \<in> set ?t" unfolding sanitizeName_def by (rule in_set_takeD)
    then have "nameChar (CHR ''/'')" using chars by blast
    then show False by (simp add: nameChar_def)
  qed
  ultimately show ?thesis using assms by (auto simp: normal_def)
qed

lemma topLevelName_normal: "topLevelName fs \<noteq> [] \<Longrightarrow> normal (topLevelName fs)"
  by (induction fs rule: topLevelName.induct)
    (auto simp: Let_def sanitizeName_normal simp del: indexByte_None split: option.splits nat.splits if_splits)

lemma bundleName_normal: "normal (bundleName requested fs)"
  using sanitizeName_normal [of requested] topLevelName_normal [of fs]
  by (auto simp: bundleName_def Let_def normal_def)

lemma entryPath_safe:
  "entryPath f = Some clean \<Longrightarrow>
   clean = ''.'' \<or> (\<exists>cs. cs \<noteq> [] \<and> (\<forall>c \<in> set cs. normal c) \<and> clean = joinWith ''/'' cs)"
  using pathClean_safe by (auto simp: entryPath_def Let_def split: if_splits option.splits)

lemma inDir_join:
  assumes "ds \<noteq> []" "\<forall>d \<in> set ds. normal d"
    and "clean = ''.'' \<or> (\<exists>cs. cs \<noteq> [] \<and> (\<forall>c \<in> set cs. normal c) \<and> clean = joinWith ''/'' cs)"
  shows "inDir ds (pathJoin [joinWith ''/'' ds, clean])"
  using assms(3)
proof (elim disjE exE conjE)
  assume "clean = ''.''"
  then show ?thesis using pathJoin_dot [OF assms(1,2)] by (auto simp: inDir_def intro: exI [of _ "[]"])
next
  fix cs assume cs: "cs \<noteq> []" "\<forall>c \<in> set cs. normal c" "clean = joinWith ''/'' cs"
  then have "pathJoin [joinWith ''/'' ds, clean] = joinWith ''/'' (ds @ cs)"
    using pathJoin_below [OF assms(1,2)] by blast
  with cs(2) show ?thesis unfolding inDir_def by blast
qed

definition resultPaths :: "bundle_result \<Rightarrow> string set" where
  "resultPaths res = {rSubscription res, rWireGuard res, rAmneziaWG res, rTrustTunnel res} - {[]}"

lemma recordFile_paths:
  "rName (recordFile clean out body res) = rName res"
  "resultPaths (recordFile clean out body res) \<subseteq> insert out (resultPaths res)"
  by (auto simp: recordFile_def resultPaths_def Let_def split: prod.splits)

lemma extractFiles_inDir:
  assumes "extractFiles env (joinWith ''/'' ds) fs d res = (d', r)"
    and "ds \<noteq> []" "\<forall>x \<in> set ds. normal x" "\<forall>p \<in> resultPaths res. inDir ds p"
  shows "(\<forall>p. d' p \<noteq> d p \<longrightarrow> inDir ds p) \<and>
    (\<forall>res'. r = Some res' \<longrightarrow> rName res' = rName res \<and> (\<forall>p \<in> resultPaths res'. inDir ds p))"
  using assms(1,4)
proof (induction fs arbitrary: d res)
  case Nil
  then show ?case by auto
next
  case (Cons f fs)
  show ?case
  proof (cases "entryPath f")
    case None
    then have "extractFiles env (joinWith ''/'' ds) fs d res = (d', r)" using Cons.prems(1) by simp
    from Cons.IH [OF this Cons.prems(2)] show ?thesis .
  next
    case (Some clean)
    let ?out = "pathJoin [joinWith ''/'' ds, clean]"
    have out: "inDir ds ?out" using inDir_join [OF assms(2,3) entryPath_safe [OF Some]] .
    show ?thesis
    proof (cases "mkdirOk env (pathDir ?out) \<and> zBody f \<noteq> None")
      case False
      then have "d' = d \<and> r = None" using Cons.prems(1) Some by (auto simp: Let_def split: if_splits)
      then show ?thesis by simp
    next
      case True
      then obtain body where body: "zBody f = Some body" by blast
      obtain d1 ok where w: "writeFile (writeRes env ?out) ?out body d = (d1, ok)" by fastforce
      have fr: "d1 p \<noteq> d p \<Longrightarrow> p = ?out" for p using writeFile_frame [OF w] by blast
      show ?thesis
      proof (cases ok)
        case False
        then show ?thesis using Cons.prems(1) Some True body w fr out by auto
      next
        case ok: True
        then have run: "extractFiles env (joinWith ''/'' ds) fs d1 (recordFile clean ?out body res) = (d', r)"
          using Cons.prems(1) Some True body w by simp
        have "\<forall>p \<in> resultPaths (recordFile clean ?out body res). inDir ds p"
          using recordFile_paths(2) Cons.prems(2) out by blast
        from Cons.IH [OF run this] have IH: "d' p \<noteq> d1 p \<Longrightarrow> inDir ds p" "r = Some res' \<Longrightarrow>
            rName res' = rName res \<and> (\<forall>p \<in> resultPaths res'. inDir ds p)" for p res'
          by (simp_all add: recordFile_paths(1))
        have "d' p \<noteq> d p \<Longrightarrow> inDir ds p" for p using IH(1) [of p] fr [of p] out by metis
        with IH(2) show ?thesis by blast
      qed
    qed
  qed
qed

text \<open>
  C10. Whatever an uploaded bundle contains (absolute names, parent directories, Windows separators)
  and whatever name is asked for, the import changes files only at or below \<open>data/\<close>\<open>name\<close>, where
  the name is one ordinary path component, and the files it reports for registration are there.
\<close>

theorem bundle_import_contained:
  assumes "extractBundle env archive ''data'' requested d = (d', r)"
  shows "\<exists>n. normal n \<and> (\<forall>p. d' p \<noteq> d p \<longrightarrow> inDir [''data'', n] p) \<and>
    (\<forall>res. r = Some res \<longrightarrow> rName res = n \<and> (\<forall>p \<in> resultPaths res. inDir [''data'', n] p))"
proof (cases archive)
  case None
  have "normal ''x''" by (simp add: normal_def)
  then show ?thesis using assms None by (intro exI [of _ "''x''"]) (auto simp: extractBundle_def)
next
  case (Some files)
  let ?n = "bundleName requested files"
  have n: "normal ?n" by (rule bundleName_normal)
  have data: "normal ''data''" by (simp add: normal_def)
  have dest: "pathJoin [''data'', ?n] = joinWith ''/'' [''data'', ?n]"
    using pathJoin_below [of "[''data'']" "[?n]"] n data by simp
  show ?thesis
  proof (cases "mkdirOk env (pathJoin [''data'', ?n])")
    case False
    then show ?thesis using assms Some n by (intro exI [of _ ?n]) (auto simp: extractBundle_def Let_def)
  next
    case True
    then have run: "extractFiles env (joinWith ''/'' [''data'', ?n]) files d (emptyResult ?n) = (d', r)"
      using assms Some dest by (simp add: extractBundle_def Let_def)
    have "\<forall>p \<in> resultPaths (emptyResult ?n). inDir [''data'', ?n] p"
      by (simp add: resultPaths_def emptyResult_def)
    from extractFiles_inDir [OF run _ _ this] n data show ?thesis
      by (intro exI [of _ ?n]) (simp add: emptyResult_def)
  qed
qed

section \<open>A backup restores\<close>

lemma pathClean_root:
  assumes "\<forall>d \<in> set ds. normal d"
  shows "pathClean (CHR ''/'' # joinWith ''/'' ds) = CHR ''/'' # joinWith ''/'' ds"
proof -
  have "cleanGo True [] ([] # splitOn (CHR ''/'') (joinWith ''/'' ds)) = ds"
    using assms cleanGo_normal [OF assms, of True "[]"] by (cases "ds = []") (simp_all add: splitOn_join_normal)
  then show ?thesis by (simp add: pathClean_def isAbs_def hasPrefix_def)
qed

lemma pathJoin_root:
  assumes "\<forall>d \<in> set ds. normal d" "cs \<noteq> []" "\<forall>c \<in> set cs. normal c" "ds \<noteq> []"
  shows "pathJoin [CHR ''/'' # joinWith ''/'' ds, joinWith ''/'' cs] = CHR ''/'' # joinWith ''/'' (ds @ cs)"
proof -
  have "pathJoin [CHR ''/'' # joinWith ''/'' ds, joinWith ''/'' cs] = pathClean (CHR ''/'' # joinWith ''/'' (ds @ cs))"
    using assms by (simp add: pathJoin_def joinWith_append)
  then show ?thesis using assms pathClean_root [of "ds @ cs"] by auto
qed

lemma join_normal_inj:
  assumes "xs \<noteq> []" "\<forall>c \<in> set xs. normal c" "ys \<noteq> []" "\<forall>c \<in> set ys. normal c"
    and "joinWith ''/'' xs = joinWith ''/'' ys"
  shows "xs = ys"
  using assms splitOn_join_normal by metis

text \<open>A path a backup can hold: its components are ordinary and the first does not begin with dots.\<close>

definition plain_rel :: "string \<Rightarrow> bool" where
  "plain_rel p \<longleftrightarrow> (\<exists>cs. cs \<noteq> [] \<and> (\<forall>c \<in> set cs. normal c) \<and> p = joinWith ''/'' cs \<and> \<not> hasPrefix p ''..'')"

lemma plain_no_parent:
  assumes "cs \<noteq> []" "\<forall>c \<in> set cs. normal c"
  shows "\<not> contains (joinWith ''/'' cs) ''/../''"
proof
  assume "contains (joinWith ''/'' cs) ''/../''"
  then obtain a b where "joinWith ''/'' cs = a @ ''/../'' @ b" by (auto simp: contains_iff)
  then have "cs = splitOn (CHR ''/'') a @ ''..'' # splitOn (CHR ''/'') b"
    using splitOn_join_normal [OF assms] splitOn_sep [of "CHR ''/''" a "''../'' @ b"] by simp
  then have "normal ''..''" using assms(2) by simp
  then show False by (simp add: normal_def)
qed

lemma restorePath_plain:
  assumes "plain_rel rel"
  shows "restorePath \<lparr>zName = rel, zIsDir = False, zBody = b\<rparr> = Some rel"
proof -
  obtain cs where cs: "cs \<noteq> []" "\<forall>c \<in> set cs. normal c" "rel = joinWith ''/'' cs" "\<not> hasPrefix rel ''..''"
    using assms by (auto simp: plain_rel_def)
  have "\<not> hasPrefix rel ''../''" using cs(4) by (auto simp: hasPrefix_append)
  then show ?thesis
    using cs isAbs_join [OF cs(1,2)] plain_no_parent [OF cs(1,2)] pathClean_normal [OF cs(1,2)]
    by (simp add: restorePath_def Let_def)
qed

definition asEntry :: "string \<times> string \<Rightarrow> zip_entry" where
  "asEntry f = \<lparr>zName = fst f, zIsDir = False, zBody = Some (snd f)\<rparr>"

definition env_writes :: "archive_env \<Rightarrow> bool" where
  "env_writes env \<longleftrightarrow> (\<forall>p. mkdirOk env p) \<and> (\<forall>p. writeRes env p = WroteAll)"

definition putFile :: "string \<Rightarrow> disk \<Rightarrow> string \<times> string \<Rightarrow> disk" where
  "putFile root d f = d(pathJoin [root, fst f] \<mapsto> snd f)"

lemma restoreFiles_all:
  assumes "env_writes env" "\<forall>f \<in> set fs. plain_rel (fst f)"
  shows "restoreFiles env root (map asEntry fs) n d =
    (foldl (putFile root) d fs, n + length fs, True)"
  using assms
proof (induction fs arbitrary: n d)
  case (Cons f fs)
  have "restoreFiles env root (asEntry f # es) n d = restoreFiles env root es (Suc n) (putFile root d f)" for es
    using restorePath_plain [of "fst f" "Some (snd f)"] Cons.prems
    by (simp add: env_writes_def asEntry_def writeFile_def putFile_def Let_def)
  then show ?case using Cons by simp
qed simp

text \<open>The files of an installation that a backup keeps, with their contents.\<close>

definition keptFile :: "string \<times> string option \<Rightarrow> bool" where
  "keptFile f \<longleftrightarrow> \<not> excluded (toLower (pathBase (fst f))) \<and> \<not> hasPrefix (fst f) ''data/sidecar-configs/''"

fun statFiles :: "string \<Rightarrow> root_stat \<Rightarrow> (string \<times> string option) list" where
  "statFiles rel (AFile c) = [(rel, c)]"
| "statFiles rel (ADir fs) = fs"
| "statFiles rel _ = []"

definition installFiles :: "(string \<Rightarrow> root_stat) \<Rightarrow> (string \<times> string option) list" where
  "installFiles st = statFiles ''config.yaml'' (st ''config.yaml'') @ statFiles ''.env'' (st ''.env'') @
     statFiles ''data'' (st ''data'')"

definition keptFiles :: "(string \<Rightarrow> root_stat) \<Rightarrow> (string \<times> string) list" where
  "keptFiles st = map (\<lambda>f. (fst f, the (snd f))) (filter keptFile (installFiles st))"

lemma addFiles_spec:
  "addFiles fs acc = Some acc' \<Longrightarrow>
   acc' = acc @ map asEntry (map (\<lambda>f. (fst f, the (snd f))) (filter keptFile fs))"
proof (induction fs arbitrary: acc)
  case (Cons f fs)
  obtain acc1 where 1: "addFile f acc = Some acc1" "addFiles fs acc1 = Some acc'"
    using Cons.prems by (auto split: option.splits)
  have "acc1 = acc @ map asEntry (map (\<lambda>f. (fst f, the (snd f))) (filter keptFile [f]))"
    using 1(1) by (cases f) (auto simp: addFile_def keptFile_def asEntry_def split: if_splits option.splits)
  then show ?case using Cons.IH [OF 1(2)] by simp
qed simp

lemma createBackup_spec:
  assumes "createBackup st = Some arch"
  shows "arch = map asEntry (keptFiles st)"
proof -
  have rf: "rootFiles rel s = Some fs \<Longrightarrow> fs = statFiles rel s" for rel s fs by (cases s) auto
  show ?thesis using assms
    by (auto simp: createBackup_def keptFiles_def installFiles_def split: option.splits dest!: rf addFiles_spec)
qed

text \<open>
  C29. Round trip: restoring a backup at an absolute path onto any disk, an older installation's
  or an empty one, leaves every file of the original that is kept (the configuration, the
  environment file and the data without the generated ones) with its contents at the same relative
  path, touches no other file, and reports their number.
\<close>

theorem backup_roundtrip:
  assumes "createBackup st = Some arch" "env_writes env"
    and "root = CHR ''/'' # joinWith ''/'' ds" "ds \<noteq> []" "\<forall>c \<in> set ds. normal c"
    and "\<forall>f \<in> set (keptFiles st). plain_rel (fst f)" "distinct (map fst (keptFiles st))"
  shows "\<exists>d. restoreBackup env root (Some arch) d0 = (d, length (keptFiles st), True) \<and>
    (\<forall>rel body. (rel, body) \<in> set (keptFiles st) \<longrightarrow> d (root @ ''/'' @ rel) = Some body) \<and>
    (\<forall>p. (\<forall>rel \<in> fst ` set (keptFiles st). p \<noteq> root @ ''/'' @ rel) \<longrightarrow> d p = d0 p)"
proof -
  let ?fs = "keptFiles st"
  have path: "pathJoin [root, rel] = root @ ''/'' @ rel" if "plain_rel rel" for rel
    using that pathJoin_root [OF assms(5) _ _ assms(4)] assms(4) by (auto simp: assms(3) plain_rel_def joinWith_append)
  have gen: "foldl (putFile root) d fs p =
      (case map_of (rev (map (\<lambda>f. (root @ ''/'' @ fst f, snd f)) fs)) p of None \<Rightarrow> d p | Some b \<Rightarrow> Some b)"
    if "\<forall>f \<in> set fs. plain_rel (fst f)" for fs :: "(string \<times> string) list" and d p
    using that by (induction fs arbitrary: d) (auto simp: path putFile_def map_add_def split: option.splits)
  let ?d = "foldl (putFile root) d0 ?fs"
  let ?al = "rev (map (\<lambda>f. (root @ ''/'' @ fst f, snd f)) ?fs)"
  have d: "?d p = (case map_of ?al p of None \<Rightarrow> d0 p | Some b \<Rightarrow> Some b)" for p by (rule gen [OF assms(6)])
  have "map fst ?al = rev (map (\<lambda>rel. root @ ''/'' @ rel) (map fst ?fs))" by (simp add: rev_map)
  moreover have "distinct (map (\<lambda>rel. root @ ''/'' @ rel) (map fst ?fs))"
    using assms(7) by (subst distinct_map) (simp add: inj_on_def)
  ultimately have dist: "distinct (map fst ?al)" by (simp only: distinct_rev)
  show ?thesis
  proof (rule exI [of _ ?d], intro conjI allI impI)
    show "restoreBackup env root (Some arch) d0 = (?d, length ?fs, True)"
      using restoreFiles_all [OF assms(2,6), of root 0 d0] createBackup_spec [OF assms(1)]
      by (simp add: restoreBackup_def)
  next
    fix rel body assume "(rel, body) \<in> set ?fs"
    then have "(root @ ''/'' @ rel, body) \<in> set ?al" by force
    then show "?d (root @ ''/'' @ rel) = Some body" by (simp only: d map_of_is_SomeI [OF dist] option.case)
  next
    fix p assume "\<forall>rel \<in> fst ` set ?fs. p \<noteq> root @ ''/'' @ rel"
    then have "p \<notin> fst ` set ?al" by auto
    then have "map_of ?al p = None" by (simp only: map_of_eq_None_iff not_False_eq_True)
    then show "?d p = d0 p" by (simp only: d option.case)
  qed
qed

section \<open>Examples\<close>

definition all_ok :: archive_env where
  "all_ok = \<lparr>mkdirOk = \<lambda>_. True, writeRes = \<lambda>_. WroteAll\<rparr>"

definition evil_zip :: "zip_entry list" where
  "evil_zip =
     [\<lparr>zName = ''../escape.txt'', zIsDir = False, zBody = Some ''x''\<rparr>,
      \<lparr>zName = ''home/../../../etc/passwd'', zIsDir = False, zBody = Some ''x''\<rparr>,
      \<lparr>zName = ''home/subscription.txt'', zIsDir = False, zBody = Some ''trojan://p@h:443''\<rparr>]"

lemma evil_zip_run:
  "map_option rSubscription (snd (extractBundle all_ok (Some evil_zip) ''data'' ''home'' Map.empty)) =
     Some ''data/home/subscription.txt''"
  by code_simp

lemma bundle_import_contained_witness:
  "\<exists>d' res n. extractBundle all_ok (Some evil_zip) ''data'' ''home'' Map.empty = (d', Some res) \<and> normal n \<and>
     rSubscription res = ''data/home/subscription.txt'' \<and> inDir [''data'', n] (rSubscription res) \<and>
     (\<forall>p. d' p \<noteq> None \<longrightarrow> inDir [''data'', n] p)"
proof -
  obtain d' r where run: "extractBundle all_ok (Some evil_zip) ''data'' ''home'' Map.empty = (d', r)" by fastforce
  then obtain res where r: "r = Some res" "rSubscription res = ''data/home/subscription.txt''"
    using evil_zip_run by auto
  obtain n where n: "normal n" "\<forall>p. d' p \<noteq> Map.empty p \<longrightarrow> inDir [''data'', n] p"
      "\<forall>p \<in> resultPaths res. inDir [''data'', n] p"
    using bundle_import_contained [OF run] r(1) by blast
  have "rSubscription res \<in> resultPaths res" by (simp add: resultPaths_def r(2))
  then show ?thesis using run r n by (intro exI conjI) auto
qed

definition small_install :: "string \<Rightarrow> root_stat" where
  "small_install rel =
     (if rel = ''config.yaml'' then AFile (Some ''proxy:'')
      else if rel = ''data'' then ADir [(''data/home/subscription.txt'', Some ''x''), (''data/state.json'', Some ''{}'')]
      else Absent)"

lemma small_install_kept:
  "keptFiles small_install = [(''config.yaml'', ''proxy:''), (''data/home/subscription.txt'', ''x'')]"
  by code_simp

lemma backup_roundtrip_witness:
  "\<exists>d arch. createBackup small_install = Some arch \<and>
     restoreBackup all_ok ''/app'' (Some arch) [''/app/config.yaml'' \<mapsto> ''old'', ''/etc/hosts'' \<mapsto> ''h''] = (d, 2, True) \<and>
     d ''/app/config.yaml'' = Some ''proxy:'' \<and> d ''/app/data/home/subscription.txt'' = Some ''x'' \<and> d ''/etc/hosts'' = Some ''h''"
proof -
  have "createBackup small_install \<noteq> None" by code_simp
  then obtain arch where arch: "createBackup small_install = Some arch" by blast
  have plain: "plain_rel ''config.yaml''" "plain_rel ''data/home/subscription.txt''"
    unfolding plain_rel_def
    by (rule exI [of _ "[''config.yaml'']"], simp add: normal_def hasPrefix_def)
      (rule exI [of _ "[''data'', ''home'', ''subscription.txt'']"], simp add: normal_def hasPrefix_def)
  let ?d0 = "[''/app/config.yaml'' \<mapsto> ''old'', ''/etc/hosts'' \<mapsto> ''h'']"
  have "\<exists>d. restoreBackup all_ok ''/app'' (Some arch) ?d0 = (d, length (keptFiles small_install), True) \<and>
    (\<forall>rel body. (rel, body) \<in> set (keptFiles small_install) \<longrightarrow> d (''/app'' @ ''/'' @ rel) = Some body) \<and>
    (\<forall>p. (\<forall>rel \<in> fst ` set (keptFiles small_install). p \<noteq> ''/app'' @ ''/'' @ rel) \<longrightarrow> d p = ?d0 p)"
    by (rule backup_roundtrip [OF arch, of all_ok "''/app''" "[''app'']"])
      (use plain in \<open>simp_all add: env_writes_def all_ok_def small_install_kept normal_def\<close>)
  then obtain d where d: "restoreBackup all_ok ''/app'' (Some arch) ?d0 = (d, 2, True)"
      "d (''/app'' @ ''/'' @ ''config.yaml'') = Some ''proxy:''" "d (''/app'' @ ''/'' @ ''data/home/subscription.txt'') = Some ''x''"
      "d ''/etc/hosts'' = ?d0 ''/etc/hosts''"
    by (auto simp: small_install_kept eval_nat_numeral)
  with arch show ?thesis by (intro exI [of _ d] exI [of _ arch]) simp
qed

end
