(* ===== verification/Env_File.thy ===== *)
theory Env_File
  imports Startup Archive
begin

text \<open>
  The \<open>.env\<close> file as the API reads and writes it, and the exposure and password settings of the
  dashboard (\<open>api/api.go\<close>); with it the shape of an API request and response.
\<close>

section \<open>Requests and responses\<close>

text \<open>
  What the handlers' JSON decoders made of the body, one constructor per body type; for a
  handler any other body is one that does not decode.
\<close>

record exposure_body =
  xExposure :: string
  xAuthUser :: string
  xAuthPass :: string
  xDashUser :: string
  xDashPass :: string
  xAuthEnabled :: "bool option"
  xDashEnabled :: "bool option"

record source_body =
  sbName :: string
  sbURL :: string
  sbText :: string

record spoof_body =
  pbEnabled :: "bool option"
  pbFakeSNI :: "string option"
  pbUTLS :: "string option"

datatype req_body =
    BadBody
  | PatchBody endpoint_patch
  | StrategyBody string
  | BlockBody bool
  | ExposureBody exposure_body
  | SourceBody source_body
  | SpoofBody spoof_body
  | RulesBody "rule list"
  | ConfigBody string
  | ZipBody string string "zip_entry list option"

record http_req =
  hqMethod :: string
  hqPath :: string
  hqQuery :: config
  hqBasicAuth :: "(string \<times> string) option"
  hqBody :: req_body

record response =
  rsStatus :: int
  rsBody :: json
  rsChallenge :: bool

definition writeJSON :: "json \<Rightarrow> response" where
  "writeJSON j = \<lparr>rsStatus = 200, rsBody = j, rsChallenge = False\<rparr>"

definition httpError :: "string \<Rightarrow> int \<Rightarrow> response" where
  "httpError msg code = \<lparr>rsStatus = code, rsBody = JStr msg, rsChallenge = False\<rparr>"

section \<open>Reading and writing .env\<close>

definition envLine :: "string \<Rightarrow> (string \<times> string) option" where
  "envLine line0 =
     (let line = trimSpace line0
      in if line = [] \<or> hasPrefix line ''#'' then None
         else (case indexByte line (CHR ''='') of
                 None \<Rightarrow> None
               | Some eq \<Rightarrow> Some (trimSpace (take eq line), trimSpace (drop (Suc eq) line))))"

definition readEnvKV :: "string option \<Rightarrow> config" where
  "readEnvKV content =
     (case content of
        None \<Rightarrow> Map.empty
      | Some raw \<Rightarrow> map_of (rev (List.map_filter envLine (splitOn (CHR 0x0A) raw))))"

definition envKeys :: "string list" where
  "envKeys = [''MOAV_EXPOSURE'', ''SOCKS5_BIND'', ''HTTP_BIND'', ''API_BIND'', ''UI_BIND'', ''SOCKS5_USERNAME'',
     ''SOCKS5_PASSWORD'', ''MOAV_DASHBOARD_USER'', ''MOAV_DASHBOARD_PASS'']"

definition envHeader :: string where
  "envHeader = ''# moav-client environment '' @ [CHR 0xE2, CHR 0x80, CHR 0x94] @
     '' managed by /api/exposure. Edit by hand if you prefer.''"

definition envText :: "config \<Rightarrow> string" where
  "envText kv =
     textLines (envHeader # map (\<lambda>k. k @ ''='' @ cget kv k) (filter (\<lambda>k. cget kv k \<noteq> []) envKeys))"

definition writeEnvKV :: "write_res \<Rightarrow> string \<Rightarrow> config \<Rightarrow> disk \<Rightarrow> disk \<times> bool" where
  "writeEnvKV wr path kv d = writeFile wr path (envText kv) d"

section \<open>The exposure handler\<close>

definition maskSecret :: "string \<Rightarrow> string" where
  "maskSecret s =
     (let dots = (\<lambda>n. concat (replicate n [CHR 0xE2, CHR 0x80, CHR 0xA2]))
      in if s = [] then []
         else if length s \<le> 4 then dots (length s)
         else take 2 s @ dots (length s - 4) @ drop (length s - 2) s)"

text \<open>The binding of an exposure; \<open>None\<close> for an unknown one.\<close>

definition exposureBind :: "string \<Rightarrow> (string \<times> string) option" where
  "exposureBind e =
     (if e = [] \<or> e = ''loopback'' then Some (''loopback'', ''127.0.0.1'')
      else if e = ''lan'' \<or> e = ''public'' then Some (e, ''0.0.0.0'')
      else None)"

definition setCreds :: "bool option \<Rightarrow> string \<times> string \<Rightarrow> string \<times> string \<Rightarrow> config \<Rightarrow> config" where
  "setCreds enabled creds keys kv =
     (if enabled = Some False then kv(fst keys := None, snd keys := None)
      else (let kv1 = (if fst creds \<noteq> [] then kv(fst keys \<mapsto> fst creds) else kv)
            in if snd creds \<noteq> [] then kv1(snd keys \<mapsto> snd creds) else kv1))"

definition proxyKeys :: "string \<times> string" where
  "proxyKeys = (''SOCKS5_USERNAME'', ''SOCKS5_PASSWORD'')"

definition dashKeys :: "string \<times> string" where
  "dashKeys = (''MOAV_DASHBOARD_USER'', ''MOAV_DASHBOARD_PASS'')"

definition exposureKV :: "string \<times> string \<Rightarrow> exposure_body \<Rightarrow> config \<Rightarrow> config" where
  "exposureKV eb body kv =
     setCreds (xDashEnabled body) (xDashUser body, xDashPass body) dashKeys
       (setCreds (xAuthEnabled body) (xAuthUser body, xAuthPass body) proxyKeys
         (kv(''MOAV_EXPOSURE'' \<mapsto> fst eb, ''SOCKS5_BIND'' \<mapsto> snd eb, ''HTTP_BIND'' \<mapsto> snd eb,
             ''UI_BIND'' \<mapsto> snd eb, ''API_BIND'' \<mapsto> snd eb)))"

definition exposureGet :: "string \<Rightarrow> config \<Rightarrow> json" where
  "exposureGet lanIP cur =
     (let revealed = cget cur ''MOAV_DASHBOARD_PASS'' \<noteq> [];
          secret = (\<lambda>k. if revealed then cget cur k else maskSecret (cget cur k))
      in JObj
        [(''exposure'', JStr (orElse (cget cur ''MOAV_EXPOSURE'') ''loopback'')),
         (''socks5_bind'', JStr (orElse (cget cur ''SOCKS5_BIND'') ''127.0.0.1'')),
         (''http_bind'', JStr (orElse (cget cur ''HTTP_BIND'') ''127.0.0.1'')),
         (''api_bind'', JStr (orElse (cget cur ''API_BIND'') ''127.0.0.1'')),
         (''ui_bind'', JStr (orElse (cget cur ''UI_BIND'') ''127.0.0.1'')),
         (''ports'', JObj [(''dashboard'', JNum 3001), (''socks5'', JNum 1080), (''http'', JNum 8081), (''api'', JNum 8088)]),
         (''lan_ip'', JStr lanIP),
         (''auth_username'', JStr (cget cur ''SOCKS5_USERNAME'')),
         (''auth_password'', JStr (secret ''SOCKS5_PASSWORD'')),
         (''auth_set'', JBool (cget cur ''SOCKS5_PASSWORD'' \<noteq> [])),
         (''dashboard_user'', JStr (cget cur ''MOAV_DASHBOARD_USER'')),
         (''dashboard_pass'', JStr (secret ''MOAV_DASHBOARD_PASS'')),
         (''dashboard_set'', JBool (cget cur ''MOAV_DASHBOARD_PASS'' \<noteq> [])),
         (''secrets_revealed'', JBool revealed),
         (''note'', JStr ''After changing exposure, run: docker compose up -d --force-recreate proxy-core'')])"

definition handleExposure :: "string \<Rightarrow> write_res \<Rightarrow> http_req \<Rightarrow> disk \<Rightarrow> disk \<times> response" where
  "handleExposure lanIP wr req d =
     (if hqMethod req = ''GET'' then (d, writeJSON (exposureGet lanIP (readEnvKV (d ''.env''))))
      else if hqMethod req = ''POST'' \<or> hqMethod req = ''PUT'' then
        (case hqBody req of
           ExposureBody body \<Rightarrow>
             (case exposureBind (xExposure body) of
                None \<Rightarrow> (d, httpError ''exposure must be loopback|lan|public'' 400)
              | Some eb \<Rightarrow>
                  (case writeEnvKV wr ''.env'' (exposureKV eb body (readEnvKV (d ''.env''))) d of
                     (d', True) \<Rightarrow>
                       (d', writeJSON (JObj [(''ok'', JBool True), (''exposure'', JStr (fst eb)), (''bind'', JStr (snd eb)),
                          (''note'', JStr ''Run: docker compose up -d --force-recreate proxy-core web-ui to apply.'')]))
                   | (d', False) \<Rightarrow> (d', httpError ''write .env'' 500)))
         | _ \<Rightarrow> (d, httpError ''invalid JSON'' 400))
      else (d, httpError ''GET or PUT required'' 405))"

section \<open>What survives in the file\<close>

text \<open>A value that is on one line and has no space around it.\<close>

definition clean_value :: "string \<Rightarrow> bool" where
  "clean_value v \<longleftrightarrow> CHR 0x0A \<notin> set v \<and> trimSpace v = v"

lemma splitOn_textLines: "\<forall>l \<in> set ls. CHR 0x0A \<notin> set l \<Longrightarrow> splitOn (CHR 0x0A) (textLines ls) = ls @ [[]]"
  by (induction ls) (auto simp: textLines_def)

lemma envKeys_plain:
  "k \<in> set envKeys \<Longrightarrow> k \<noteq> [] \<and> CHR ''='' \<notin> set k \<and> CHR 0x0A \<notin> set k \<and> hd k \<noteq> CHR ''#'' \<and> (\<forall>c \<in> set k. \<not> isSpace c)"
proof -
  have "list_all (\<lambda>k. k \<noteq> [] \<and> CHR ''='' \<notin> set k \<and> CHR 0x0A \<notin> set k \<and> hd k \<noteq> CHR ''#'' \<and> list_all (\<lambda>c. \<not> isSpace c) k) envKeys"
    by code_simp
  then show "k \<in> set envKeys \<Longrightarrow> ?thesis" by (auto simp: list_all_iff)
qed

lemma envLine_pair:
  assumes "k \<in> set envKeys" "clean_value v" "v \<noteq> []"
  shows "envLine (k @ ''='' @ v) = Some (k, v)"
proof -
  from envKeys_plain [OF assms(1)] have k: "k \<noteq> []" "CHR ''='' \<notin> set k" "hd k \<noteq> CHR ''#''"
      "\<forall>c \<in> set k. \<not> isSpace c" by blast+
  have last: "\<not> isSpace (last v)" using trimSpace_ends [of v] assms(2,3) by (simp add: clean_value_def)
  have t: "trimSpace (k @ ''='' @ v) = k @ ''='' @ v"
    using k last assms(3) by (intro trimSpace_id) (simp add: hd_append)
  have h: "\<not> hasPrefix (k @ ''='' @ v) ''#''"
    using k(1,3) by (cases k) (simp_all add: hasPrefix_def)
  have i: "indexByte (k @ ''='' @ v) (CHR ''='') = Some (length k)"
    using indexByte_append [OF k(2), of v] by simp
  have "trimSpace k = k" using k(4) by (rule trimSpace_no_space)
  then show ?thesis
    using t h i k(1) assms(2) by (simp add: envLine_def Let_def clean_value_def)
qed

lemma map_of_values: "map_of (map (\<lambda>k. (k, g k)) ks) k = (if k \<in> set ks then Some (g k) else None)"
  by (induction ks) auto

lemma map_of_rev_distinct: "distinct (map fst kvs) \<Longrightarrow> map_of (rev kvs) = map_of kvs"
  by (intro map_of_eqI) (auto simp: rev_map [symmetric])

lemma map_filter_Some: "\<forall>x \<in> set xs. f x = Some (g x) \<Longrightarrow> List.map_filter f xs = map g xs"
  by (induction xs) (auto simp: List.map_filter_simps)

lemma envLine_header: "envLine envHeader = None"
  by code_simp

lemma envHeader_line: "CHR 0x0A \<notin> set envHeader"
  by code_simp

definition env_clean :: "config \<Rightarrow> bool" where
  "env_clean kv \<longleftrightarrow> (\<forall>k \<in> set envKeys. clean_value (cget kv k))"

lemma envText_lines:
  assumes "env_clean kv"
  shows "List.map_filter envLine (splitOn (CHR 0x0A) (envText kv)) =
    map (\<lambda>k. (k, cget kv k)) (filter (\<lambda>k. cget kv k \<noteq> []) envKeys)"
proof -
  let ?ks = "filter (\<lambda>k. cget kv k \<noteq> []) envKeys"
  let ?ls = "map (\<lambda>k. k @ ''='' @ cget kv k) ?ks"
  have cl: "clean_value (cget kv k)" "cget kv k \<noteq> []" "k \<in> set envKeys" if "k \<in> set ?ks" for k
    using assms that by (auto simp: env_clean_def)
  have "CHR 0x0A \<notin> set (k @ ''='' @ cget kv k)" if "k \<in> set ?ks" for k
    using cl(1) [OF that] envKeys_plain [OF cl(3) [OF that]] unfolding clean_value_def by simp
  then have "\<forall>l \<in> set (envHeader # ?ls). CHR 0x0A \<notin> set l"
    using envHeader_line by auto
  then have "splitOn (CHR 0x0A) (envText kv) = (envHeader # ?ls) @ [[]]"
    unfolding envText_def by (rule splitOn_textLines)
  moreover have "List.map_filter envLine ?ls = map (\<lambda>k. (k, cget kv k)) ?ks"
  proof -
    have "List.map_filter (\<lambda>k. envLine (k @ ''='' @ cget kv k)) ?ks = map (\<lambda>k. (k, cget kv k)) ?ks"
      by (rule map_filter_Some) (use cl envLine_pair in blast)
    then show ?thesis by (simp add: List.map_filter_def filter_map comp_def)
  qed
  moreover have "envLine [] = None" by (simp add: envLine_def trimSpace_def trimLeftBy_def trimRightBy_def)
  ultimately show ?thesis
    by (simp add: List.map_filter_simps envLine_header) (simp add: List.map_filter_def)
qed

lemma envKeys_distinct: "distinct envKeys"
  by code_simp

lemma readEnvKV_envText:
  assumes "env_clean kv"
  shows "readEnvKV (Some (envText kv)) k = (if k \<in> set envKeys \<and> cget kv k \<noteq> [] then Some (cget kv k) else None)"
proof -
  let ?ks = "filter (\<lambda>k. cget kv k \<noteq> []) envKeys"
  have "map_of (rev (map (\<lambda>k. (k, cget kv k)) ?ks)) = map_of (map (\<lambda>k. (k, cget kv k)) ?ks)"
    by (rule map_of_rev_distinct) (use envKeys_distinct in \<open>simp add: comp_def\<close>)
  then show ?thesis
    by (simp add: readEnvKV_def envText_lines [OF assms] map_of_values)
qed

text \<open>Every value read from a file is clean already.\<close>

lemma envLine_clean: "envLine l = Some (k, v) \<Longrightarrow> CHR 0x0A \<notin> set l \<Longrightarrow> clean_value v"
  by (auto simp: envLine_def Let_def clean_value_def split: if_splits option.splits
      dest!: subsetD [OF set_trimSpace] in_set_dropD)

lemma clean_Nil [simp]: "clean_value []"
  by (simp add: clean_value_def trimSpace_def trimLeftBy_def trimRightBy_def)

lemma readEnvKV_clean: "clean_value (cget (readEnvKV c) k)"
proof (cases "readEnvKV c k")
  case None
  then show ?thesis by (simp add: cget_def)
next
  case (Some v)
  then obtain raw where "(k, v) \<in> set (List.map_filter envLine (splitOn (CHR 0x0A) raw))"
    by (auto simp: readEnvKV_def split: option.splits dest: map_of_SomeD)
  then obtain l where "l \<in> set (splitOn (CHR 0x0A) raw)" "envLine l = Some (k, v)"
    by (auto simp: List.map_filter_def)
  then have "clean_value v" using splitOn_parts envLine_clean by blast
  then show ?thesis using Some by (simp add: cget_def)
qed

text \<open>The start-up reader sees the same lines, and also strips quotes off the values.\<close>

definition unquote :: "string \<Rightarrow> string" where
  "unquote v = trimChars v [CHR 0x22, CHR 0x27]"

lemma dotEnvLine_envLine: "dotEnvLine l = map_option (apsnd unquote) (envLine l)"
  by (auto simp: dotEnvLine_def envLine_def Let_def cutByte_def unquote_def simp del: indexByte_None split: option.split)

lemma map_of_apsnd: "map_of (map (apsnd f) kvs) k = map_option f (map_of kvs k)"
  by (induction kvs) auto

lemma readDotEnv_readEnvKV: "readDotEnv c k = map_option unquote (readEnvKV c k)"
proof -
  have "List.map_filter dotEnvLine ls = map (apsnd unquote) (List.map_filter envLine ls)" for ls
    by (induction ls) (auto simp: List.map_filter_simps dotEnvLine_envLine split: option.split)
  then show ?thesis
    by (auto simp: readDotEnv_def readEnvKV_def rev_map map_of_apsnd split: option.split)
qed

lemma setCreds_get:
  "fst keys \<noteq> snd keys \<Longrightarrow> cget (setCreds enabled creds keys kv) k =
     (if k = fst keys then (if enabled = Some False then [] else if fst creds \<noteq> [] then fst creds else cget kv k)
      else if k = snd keys then (if enabled = Some False then [] else if snd creds \<noteq> [] then snd creds else cget kv k)
      else cget kv k)"
  by (auto simp: setCreds_def Let_def) (simp_all add: cget_def)

lemma exposureBind_clean: "exposureBind e = Some eb \<Longrightarrow> clean_value (fst eb) \<and> clean_value (snd eb)"
  by (auto simp: exposureBind_def clean_value_def trimSpace_no_space isSpace_def split: if_splits)

definition clean_body :: "exposure_body \<Rightarrow> bool" where
  "clean_body body \<longleftrightarrow> clean_value (xAuthUser body) \<and> clean_value (xAuthPass body) \<and>
     clean_value (xDashUser body) \<and> clean_value (xDashPass body)"

lemma credKeys_ne [simp]: "fst proxyKeys \<noteq> snd proxyKeys" "fst dashKeys \<noteq> snd dashKeys"
  by (simp_all add: proxyKeys_def dashKeys_def)

lemma clean_if: "clean_value x \<Longrightarrow> clean_value y \<Longrightarrow> clean_value (if b then x else y)"
  by simp

lemma clean_upd: "clean_value v \<Longrightarrow> clean_value (cget kv k) \<Longrightarrow> clean_value (cget (kv(k' \<mapsto> v)) k)"
  unfolding cget_upd by (rule clean_if)

lemma setCreds_clean:
  assumes "fst keys \<noteq> snd keys" "clean_value (fst creds)" "clean_value (snd creds)" "clean_value (cget kv k)"
  shows "clean_value (cget (setCreds enabled creds keys kv) k)"
  unfolding setCreds_get [OF assms(1)] by (intro clean_if assms clean_Nil)

lemma exposureKV_clean:
  assumes "exposureBind e = Some eb" "clean_body body" "\<And>k. clean_value (cget kv k)"
  shows "env_clean (exposureKV eb body kv)"
  unfolding env_clean_def exposureKV_def
  by (intro ballI setCreds_clean allI clean_upd credKeys_ne assms(3))
    (use assms(2) exposureBind_clean [OF assms(1)] in \<open>simp_all add: clean_body_def\<close>)

lemma handleExposure_put:
  assumes "hqMethod req = ''PUT''" "hqBody req = ExposureBody body" "exposureBind (xExposure body) = Some eb"
    and "handleExposure lanIP WroteAll req d = (d', r)"
  shows "d' = d(''.env'' \<mapsto> envText (exposureKV eb body (readEnvKV (d ''.env'')))) \<and> rsStatus r = 200"
  using assms by (auto simp: handleExposure_def writeEnvKV_def writeFile_def writeJSON_def)

text \<open>
  C26. Saving the exposure settings from the dashboard keeps exactly nine keys of \<open>.env\<close>: each
  reads back as it was set or as it stood before, whatever the text of the values (as long as
  it is one line without space around it); everything else the file held is gone, the listener
  ports among it.
\<close>

theorem exposure_env_file:
  assumes "hqMethod req = ''PUT''" "hqBody req = ExposureBody body" "exposureBind (xExposure body) = Some eb"
    and "clean_body body" "handleExposure lanIP WroteAll req d = (d', r)"
  shows "(\<forall>k. cget (readEnvKV (d' ''.env'')) k =
      (if k \<in> set envKeys then cget (exposureKV eb body (readEnvKV (d ''.env''))) k else [])) \<and>
    (\<forall>osEnv fallback. envPort osEnv (readDotEnv (d' ''.env'')) ''SOCKS5_PORT'' fallback =
       envPort osEnv Map.empty ''SOCKS5_PORT'' fallback)"
proof -
  let ?kv = "exposureKV eb body (readEnvKV (d ''.env''))"
  have env: "d' ''.env'' = Some (envText ?kv)" using handleExposure_put [OF assms(1-3,5)] by simp
  have cl: "env_clean ?kv" by (rule exposureKV_clean [OF assms(3,4) readEnvKV_clean])
  have "\<forall>k. cget (readEnvKV (d' ''.env'')) k = (if k \<in> set envKeys then cget ?kv k else [])"
    unfolding env by (simp add: readEnvKV_envText [OF cl] cget_def [of "readEnvKV _"])
  moreover have "''SOCKS5_PORT'' \<notin> set envKeys" by code_simp
  then have "readDotEnv (d' ''.env'') ''SOCKS5_PORT'' = None"
    unfolding env readDotEnv_readEnvKV by (simp add: readEnvKV_envText [OF cl])
  then have "cget (readDotEnv (d' ''.env'')) ''SOCKS5_PORT'' = []" by (simp add: cget_def)
  ultimately show ?thesis by (simp add: envPort_def)
qed

text \<open>
  C25. A user name and password set on the dashboard are, after a restart, exactly what the SOCKS5
  listener asks for, over whatever the environment and \<open>config.yaml\<close> hold, provided each is one
  line without space around it and neither begins or ends with a quote character.
\<close>

theorem exposure_password_applies:
  assumes "hqMethod req = ''PUT''" "hqBody req = ExposureBody body" "exposureBind (xExposure body) = Some eb"
    and "clean_body body" "xAuthEnabled body \<noteq> Some False" "xAuthUser body \<noteq> []" "xAuthPass body \<noteq> []"
    and "unquote (xAuthUser body) = xAuthUser body" "unquote (xAuthPass body) = xAuthPass body"
    and "handleExposure lanIP WroteAll req d = (d', r)"
  shows "rsStatus r = 200 \<and>
    socks5Credentials (startServer osEnv (readDotEnv (d' ''.env'')) pc eng torrent) =
      Some (xAuthUser body, xAuthPass body)"
proof -
  let ?kv = "exposureKV eb body (readEnvKV (d ''.env''))"
  have env: "d' ''.env'' = Some (envText ?kv)" "rsStatus r = 200"
    using handleExposure_put [OF assms(1-3,10)] by simp_all
  have cl: "env_clean ?kv" by (rule exposureKV_clean [OF assms(3,4) readEnvKV_clean])
  have kv: "cget ?kv ''SOCKS5_USERNAME'' = xAuthUser body" "cget ?kv ''SOCKS5_PASSWORD'' = xAuthPass body"
    using assms(5-7) by (simp_all add: exposureKV_def proxyKeys_def dashKeys_def setCreds_get)
  have "''SOCKS5_USERNAME'' \<in> set envKeys" "''SOCKS5_PASSWORD'' \<in> set envKeys" by code_simp+
  then have "cget (readDotEnv (d' ''.env'')) ''SOCKS5_USERNAME'' = xAuthUser body"
      "cget (readDotEnv (d' ''.env'')) ''SOCKS5_PASSWORD'' = xAuthPass body"
    using assms(6-9) kv unfolding env(1)
    by (simp_all add: cget_def [of "readDotEnv _"] readDotEnv_readEnvKV readEnvKV_envText [OF cl])
  then show ?thesis
    using env(2) assms(6,7)
    by (auto simp: startServer_def resolveAuth_def lastNonEmpty_def socks5Credentials_def withAuth_def newServer_def Let_def)
qed

definition exampleBody :: exposure_body where
  "exampleBody = \<lparr>xExposure = ''lan'', xAuthUser = ''ana'', xAuthPass = ''p=1#2'', xDashUser = [], xDashPass = ''d'',
     xAuthEnabled = None, xDashEnabled = Some True\<rparr>"

definition exampleReq :: http_req where
  "exampleReq = \<lparr>hqMethod = ''PUT'', hqPath = ''/api/exposure'', hqQuery = Map.empty, hqBasicAuth = None,
     hqBody = ExposureBody exampleBody\<rparr>"

definition exampleEnv :: disk where
  "exampleEnv = [''.env'' \<mapsto> ''SOCKS5_PORT=2080'' @ [CHR 0x0A] @ ''API_BIND=0.0.0.0'']"

lemma example_exposure:
  "hqMethod exampleReq = ''PUT''" "hqBody exampleReq = ExposureBody exampleBody"
  "exposureBind (xExposure exampleBody) = Some (''lan'', ''0.0.0.0'')" "clean_body exampleBody"
  "unquote (xAuthUser exampleBody) = xAuthUser exampleBody" "unquote (xAuthPass exampleBody) = xAuthPass exampleBody"
  by code_simp+

theorem exposure_env_file_witness:
  "cget (readEnvKV (fst (handleExposure [] WroteAll exampleReq exampleEnv) ''.env'')) ''UI_BIND'' = ''0.0.0.0'' \<and>
   envPort Map.empty (readDotEnv (exampleEnv ''.env'')) ''SOCKS5_PORT'' 1080 = 2080 \<and>
   envPort Map.empty (readDotEnv (fst (handleExposure [] WroteAll exampleReq exampleEnv) ''.env'')) ''SOCKS5_PORT'' 1080 = 1080"
proof -
  obtain d' r where h: "handleExposure [] WroteAll exampleReq exampleEnv = (d', r)" by fastforce
  note e = exposure_env_file [OF example_exposure(1-4) h]
  have "''UI_BIND'' \<in> set envKeys" by code_simp
  then have "cget (readEnvKV (d' ''.env'')) ''UI_BIND'' = ''0.0.0.0''"
    using e by (simp add: exposureKV_def proxyKeys_def dashKeys_def setCreds_get)
  moreover have "envPort Map.empty Map.empty ''SOCKS5_PORT'' 1080 = 1080" by (simp add: envPort_def)
  moreover have "cget (readDotEnv (exampleEnv ''.env'')) ''SOCKS5_PORT'' = ''2080''" by code_simp
  then have "envPort Map.empty (readDotEnv (exampleEnv ''.env'')) ''SOCKS5_PORT'' 1080 = 2080"
    by (simp add: envPort_def go_defs strconvAtoi_def digitVal_def in_int64_def int64_min_def int64_max_def isSpace_def)
  ultimately show ?thesis using e h by simp
qed

theorem exposure_password_applies_witness:
  "\<exists>d' r. handleExposure [] WroteAll exampleReq exampleEnv = (d', r) \<and>
     socks5Credentials (startServer [''SOCKS5_PASSWORD'' \<mapsto> ''old''] (readDotEnv (d' ''.env'')) (acProxy configDefaults)
       \<lparr>rules = [], engBlockDirect = False\<rparr> True) = Some (''ana'', ''p=1#2'')"
proof -
  obtain d' r where h: "handleExposure [] WroteAll exampleReq exampleEnv = (d', r)" by fastforce
  from exposure_password_applies [OF example_exposure(1-4) _ _ _ example_exposure(5,6) h] h show ?thesis
    by (auto simp: exampleBody_def)
qed

end
