(* ===== verification/Api_Auth.thy ===== *)
theory Api_Auth
  imports Env_File
begin

text \<open>
  Who may call the API: CORS, basic authentication and the tickets of the WebSocket handshake
  (\<open>api/wsticket.go\<close>, the end of \<open>api/api.go\<close>).
\<close>

section \<open>Basic authentication\<close>

type_synonym 's handler = "http_req \<Rightarrow> 's \<Rightarrow> 's \<times> response"

text \<open>The credentials the gate compares with, fixed when the server starts; \<open>None\<close>: no gate.\<close>

definition dashboardCreds :: "config \<Rightarrow> config \<Rightarrow> string option" where
  "dashboardCreds osEnv envFile =
     (let u0 = cget osEnv ''MOAV_DASHBOARD_USER'';
          p0 = cget osEnv ''MOAV_DASHBOARD_PASS'';
          user = (if cget envFile ''MOAV_DASHBOARD_USER'' \<noteq> [] then cget envFile ''MOAV_DASHBOARD_USER'' else u0);
          pass = (if cget envFile ''MOAV_DASHBOARD_PASS'' \<noteq> [] then cget envFile ''MOAV_DASHBOARD_PASS'' else p0)
      in if pass = [] then None else Some ((if user = [] then ''moav'' else user) @ '':'' @ pass))"

definition withBasicAuth :: "config \<Rightarrow> config \<Rightarrow> 's handler \<Rightarrow> 's handler" where
  "withBasicAuth osEnv envFile h =
     (case dashboardCreds osEnv envFile of
        None \<Rightarrow> h
      | Some expected \<Rightarrow>
          (\<lambda>req s.
             if hqPath req = ''/api/healthz'' \<or> hqPath req = ''/api/ws'' \<or> hqMethod req = ''OPTIONS'' then h req s
             else (case hqBasicAuth req of
                     None \<Rightarrow> (s, (httpError ''unauthorized'' 401)\<lparr>rsChallenge := True\<rparr>)
                   | Some (u, p) \<Rightarrow>
                       if u @ '':'' @ p \<noteq> expected then (s, (httpError ''unauthorized'' 401)\<lparr>rsChallenge := True\<rparr>)
                       else h req s)))"

definition withCORS :: "'s handler \<Rightarrow> 's handler" where
  "withCORS h req s =
     (if hqMethod req = ''OPTIONS'' then (s, \<lparr>rsStatus = 204, rsBody = JObj [], rsChallenge = False\<rparr>) else h req s)"

section \<open>Tickets\<close>

text \<open>A ticket and the moment it expires, in nanoseconds.\<close>

type_synonym tickets = "string \<Rightarrow> int option"

definition wsTicketTTL :: int where
  "wsTicketTTL = 30 * 10 ^ 9"

text \<open>The clock is read twice, for the expiry and for the collection of expired tickets.\<close>

definition issueTicket :: "string \<Rightarrow> int \<Rightarrow> int \<Rightarrow> tickets \<Rightarrow> tickets" where
  "issueTicket tok t now m =
     (\<lambda>k. case (m(tok \<mapsto> t + wsTicketTTL)) k of Some e \<Rightarrow> if e < now then None else Some e | None \<Rightarrow> None)"

definition consumeTicket :: "string \<Rightarrow> int \<Rightarrow> tickets \<Rightarrow> tickets \<times> bool" where
  "consumeTicket tok now m =
     (if tok = [] then (m, False)
      else (case m tok of None \<Rightarrow> (m, False) | Some e \<Rightarrow> (m(tok := None), now < e)))"

definition dashboardAuthConfigured :: "config \<Rightarrow> config \<Rightarrow> bool" where
  "dashboardAuthConfigured osEnv envFile =
     (let pass = (if cget envFile ''MOAV_DASHBOARD_PASS'' \<noteq> [] then cget envFile ''MOAV_DASHBOARD_PASS''
                  else cget osEnv ''MOAV_DASHBOARD_PASS'')
      in pass \<noteq> [])"

definition handleWSTicket :: "string \<Rightarrow> int \<Rightarrow> int \<Rightarrow> tickets \<Rightarrow> tickets \<times> response" where
  "handleWSTicket tok t now m = (issueTicket tok t now m, writeJSON (JObj [(''ticket'', JStr tok)]))"

text \<open>\<open>None\<close>: the handshake goes on to the WebSocket handler.\<close>

definition handleWSUpgrade :: "bool \<Rightarrow> int \<Rightarrow> http_req \<Rightarrow> tickets \<Rightarrow> tickets \<times> response option" where
  "handleWSUpgrade authConfigured now req m =
     (if \<not> authConfigured then (m, None)
      else (case consumeTicket (cget (hqQuery req) ''ticket'') now m of
              (m', True) \<Rightarrow> (m', None)
            | (m', False) \<Rightarrow> (m', Some (httpError ''ws ticket required'' 401))))"

section \<open>The gate\<close>

text \<open>The gate and the ticket check agree on whether a password is set.\<close>

lemma auth_configured_iff: "dashboardAuthConfigured osEnv envFile \<longleftrightarrow> dashboardCreds osEnv envFile \<noteq> None"
  by (simp add: dashboardAuthConfigured_def dashboardCreds_def Let_def)

text \<open>
  C3. With a dashboard password, from \<open>.env\<close> or the environment, no handler runs without it: a
  request that is not a liveness probe or a WebSocket handshake and does not carry the
  credentials changes no state and is answered 401, whatever the handler, and a handshake
  without a valid ticket is answered 401 too, without a challenge.
\<close>

theorem api_gate:
  assumes "cget envFile ''MOAV_DASHBOARD_PASS'' \<noteq> [] \<or> cget osEnv ''MOAV_DASHBOARD_PASS'' \<noteq> []"
    and "hqMethod req \<noteq> ''OPTIONS''"
  shows "(hqPath req \<notin> {''/api/healthz'', ''/api/ws''} \<longrightarrow>
      (\<forall>u p. hqBasicAuth req = Some (u, p) \<longrightarrow> Some (u @ '':'' @ p) \<noteq> dashboardCreds osEnv envFile) \<longrightarrow>
      withCORS (withBasicAuth osEnv envFile h) req s = (s, (httpError ''unauthorized'' 401)\<lparr>rsChallenge := True\<rparr>)) \<and>
    (cget (hqQuery req) ''ticket'' \<notin> dom m \<longrightarrow>
      handleWSUpgrade (dashboardAuthConfigured osEnv envFile) now req m = (m, Some (httpError ''ws ticket required'' 401)))"
proof -
  have conf: "dashboardAuthConfigured osEnv envFile"
    using assms(1) by (auto simp: dashboardAuthConfigured_def Let_def)
  then obtain e where e: "dashboardCreds osEnv envFile = Some e" using auth_configured_iff by blast
  have "withCORS (withBasicAuth osEnv envFile h) req s = (s, (httpError ''unauthorized'' 401)\<lparr>rsChallenge := True\<rparr>)"
    if "hqPath req \<notin> {''/api/healthz'', ''/api/ws''}"
      "\<forall>u p. hqBasicAuth req = Some (u, p) \<longrightarrow> Some (u @ '':'' @ p) \<noteq> dashboardCreds osEnv envFile"
    using that assms(2) e by (auto simp: withCORS_def withBasicAuth_def split: option.split)
  moreover have "handleWSUpgrade (dashboardAuthConfigured osEnv envFile) now req m = (m, Some (httpError ''ws ticket required'' 401))"
    if "cget (hqQuery req) ''ticket'' \<notin> dom m"
    using that conf by (auto simp: handleWSUpgrade_def consumeTicket_def domIff split: option.split)
  ultimately show ?thesis by blast
qed

section \<open>Tickets are single use\<close>

datatype ticket_op = Issue string int int | Consume string int

fun ticketOp :: "ticket_op \<Rightarrow> tickets \<Rightarrow> tickets" where
  "ticketOp (Issue tok t now) m = issueTicket tok t now m"
| "ticketOp (Consume tok now) m = fst (consumeTicket tok now m)"

definition ticketRun :: "ticket_op list \<Rightarrow> tickets" where
  "ticketRun ops = foldl (\<lambda>m x. ticketOp x m) Map.empty ops"

lemma ticketRun_snoc [simp]: "ticketRun (ops @ [x]) = ticketOp x (ticketRun ops)"
  by (simp add: ticketRun_def)

lemma ticketRun_Nil [simp]: "ticketRun [] = Map.empty"
  by (simp add: ticketRun_def)

fun isConsume :: "string \<Rightarrow> ticket_op \<Rightarrow> bool" where
  "isConsume tok (Consume tok' now) = (tok' = tok)"
| "isConsume tok _ = False"

text \<open>A ticket that is still there was issued, for that moment, and nobody used it since.\<close>

lemma ticket_live:
  "ticketRun ops tok = Some e \<Longrightarrow> tok \<noteq> [] \<Longrightarrow>
   \<exists>pre t now post. ops = pre @ Issue tok t now # post \<and> e = t + wsTicketTTL \<and> \<not> list_ex (isConsume tok) post"
proof (induction ops rule: rev_induct)
  case (snoc x ops)
  show ?case
  proof (cases "ticketRun ops tok = Some e \<and> \<not> isConsume tok x")
    case True
    with snoc.IH snoc.prems(2) obtain pre t now post where
      "ops = pre @ Issue tok t now # post" "e = t + wsTicketTTL" "\<not> list_ex (isConsume tok) post" by blast
    with True show ?thesis by (intro exI [of _ pre] exI [of _ t] exI [of _ now] exI [of _ "post @ [x]"]) simp
  next
    case False
    with snoc.prems obtain now t where "x = Issue tok t now" "e = t + wsTicketTTL"
      by (cases x) (auto simp: issueTicket_def consumeTicket_def split: if_splits option.splits)
    then show ?thesis by (intro exI [of _ ops] exI [of _ t] exI [of _ now] exI [of _ "[]"]) simp
  qed
qed simp

text \<open>
  C8. A WebSocket ticket opens one handshake at most, within 30 seconds: whatever calls come
  before, one that accepts a ticket at time \<open>now\<close> follows an issue of that ticket less than 30
  seconds earlier with no use of it in between, and the ticket is gone afterwards.
\<close>

theorem ticket_single_use:
  assumes "consumeTicket tok now (ticketRun ops) = (m', True)"
  shows "(\<exists>pre t now' post. ops = pre @ Issue tok t now' # post \<and> now < t + wsTicketTTL \<and>
      \<not> list_ex (isConsume tok) post) \<and>
    m' tok = None \<and> (\<forall>later. snd (consumeTicket tok later m') = False)"
proof -
  obtain e where e: "ticketRun ops tok = Some e" "now < e" "m' = (ticketRun ops)(tok := None)"
    using assms by (auto simp: consumeTicket_def split: if_splits option.splits)
  moreover have "tok \<noteq> []" using assms by (auto simp: consumeTicket_def)
  ultimately show ?thesis using ticket_live [OF e(1)] by (auto simp: consumeTicket_def)
qed

theorem ticket_single_use_witness:
  "consumeTicket ''ab'' 20 (ticketRun [Issue ''ab'' 5 6, Consume ''cd'' 7]) = (ticketRun [Issue ''ab'' 5 6, Consume ''cd'' 7, Consume ''ab'' 20], True) \<and>
   snd (consumeTicket ''ab'' 21 (ticketRun [Issue ''ab'' 5 6, Consume ''cd'' 7, Consume ''ab'' 20])) = False"
proof -
  let ?ops = "[Issue ''ab'' 5 6, Consume ''cd'' 7]"
  have r: "ticketRun ?ops ''ab'' = Some (5 + wsTicketTTL)"
    by (simp add: ticketRun_def issueTicket_def consumeTicket_def wsTicketTTL_def)
  obtain m' where m': "consumeTicket ''ab'' 20 (ticketRun ?ops) = (m', True)"
    using r by (auto simp: consumeTicket_def wsTicketTTL_def)
  have run: "ticketRun (?ops @ [Consume ''ab'' 20]) = m'" using m' by (simp only: ticketRun_snoc ticketOp.simps fst_conv)
  from ticket_single_use [OF m'] m' run show ?thesis by simp
qed

theorem api_gate_witness:
  "withCORS (withBasicAuth Map.empty [''MOAV_DASHBOARD_PASS'' \<mapsto> ''d''] (\<lambda>req s. (s + 1, writeJSON (JBool True))))
     (exampleReq\<lparr>hqBasicAuth := Some (''moav'', ''x'')\<rparr>) (0::nat) =
   (0, (httpError ''unauthorized'' 401)\<lparr>rsChallenge := True\<rparr>)"
  using api_gate [of "[''MOAV_DASHBOARD_PASS'' \<mapsto> ''d'']" Map.empty "exampleReq\<lparr>hqBasicAuth := Some (''moav'', ''x'')\<rparr>"
      "\<lambda>req s. (s + 1, writeJSON (JBool True))" "0::nat"]
  by (simp add: exampleReq_def dashboardCreds_def)

end
