(* ===== verification/Api_Sources.thy ===== *)
theory Api_Sources
  imports Yaml_Edit Api_Auth
begin

text \<open>
  The handlers of \<open>api/api.go\<close> that edit \<open>config.yaml\<close> and the files below \<open>data/\<close>: sources,
  bundles, SNI spoofing, rules, the kill-switch and the configuration itself. Where the code
  appends a library's error text to a reply, the reply here ends before it.
\<close>

section \<open>Surroundings\<close>

text \<open>
  The YAML library in its two modes, trees and plain values (\<open>YNull\<close> is the nil map an empty
  document leaves), and how each write ends.
\<close>

record api_env =
  aeYAML :: yaml_lib
  aeValueOf :: "string \<Rightarrow> yval option"
  aeMarshalValue :: "yval \<Rightarrow> string option"
  aeFiles :: archive_env
  aeCwd :: "string option"
  aeCfgPath :: string

definition configPath :: "api_env \<Rightarrow> string" where
  "configPath env = (if aeCfgPath env \<noteq> [] then aeCfgPath env else ''config.yaml'')"

definition editConfig :: "api_env \<Rightarrow> (ynode \<Rightarrow> ynode option) \<Rightarrow> disk \<Rightarrow> disk \<times> edit_res" where
  "editConfig env fn d = editYAMLFile (aeYAML env) (writeRes (aeFiles env) (configPath env)) (configPath env) fn d"

text \<open>The root an edit of the file would get, \<open>None\<close> when it cannot be read or parsed.\<close>

definition configRoot :: "api_env \<Rightarrow> disk \<Rightarrow> ynode option" where
  "configRoot env d = map_option documentRoot (parseDoc (aeYAML env) (configPath env) d)"

definition okNote :: "(string \<times> json) list \<Rightarrow> response" where
  "okNote kvs = writeJSON (JObj ((''ok'', JBool True) # kvs))"

section \<open>Adding a source\<close>

definition sanitizeSourceName :: "string \<Rightarrow> string" where
  "sanitizeSourceName s = filter nameChar (trimSpace s)"

definition looksLikeURL :: "string \<Rightarrow> bool" where
  "looksLikeURL s0 =
     (let s = trimSpace s0
      in if CHR 0x0A \<in> set s \<or> CHR 0x0D \<in> set s then False
         else hasPrefix s ''http://'' \<or> hasPrefix s ''https://'')"

text \<open>An entry of \<open>subscription.sources\<close> with a given name.\<close>

definition isSourceNamed :: "string \<Rightarrow> ynode \<Rightarrow> bool" where
  "isSourceNamed nm item \<longleftrightarrow> nKind item = MappingNode \<and> scalarString ''name'' item = nm"

definition sourcesOf :: "ynode \<Rightarrow> ynode list" where
  "sourcesOf root = nContent (seqAt ''sources'' (childAt ''subscription'' root))"

definition appendSource :: "ynode \<Rightarrow> ynode \<Rightarrow> ynode" where
  "appendSource item root = onChild ''subscription'' (onSeq ''sources'' (\<lambda>c. c @ [item])) root"

definition addSourceEdit :: "string \<Rightarrow> ynode \<Rightarrow> ynode \<Rightarrow> ynode option" where
  "addSourceEdit nm item root =
     (if list_ex (isSourceNamed nm) (sourcesOf root) then None else Some (appendSource item root))"

text \<open>A pasted source: the URL and the text, a text that is one URL counting as the URL.\<close>

definition pastedSource :: "source_body \<Rightarrow> string \<times> string" where
  "pastedSource body =
     (let url = trimSpace (sbURL body); text = trimSpace (sbText body)
      in if url = [] \<and> looksLikeURL text then (text, []) else (url, text))"

definition sourceDir :: "string \<Rightarrow> string" where
  "sourceDir nm = pathJoin [''data'', nm]"

definition sourceFile :: "string \<Rightarrow> string" where
  "sourceFile nm = pathJoin [sourceDir nm, ''subscription.txt'']"

definition sourceEntry :: "string \<Rightarrow> string \<Rightarrow> yval" where
  "sourceEntry nm url =
     YMap ([(''name'', YStr nm), (''origin'', YStr ''custom'')] @
       (if url \<noteq> [] then [(''url'', YStr url)] else [(''file'', YStr (sourceFile nm))]))"

definition handleAddSource :: "api_env \<Rightarrow> http_req \<Rightarrow> disk \<Rightarrow> disk \<times> response" where
  "handleAddSource env req d =
     (case hqBody req of
        SourceBody body \<Rightarrow>
          (let nm = sanitizeSourceName (sbName body); (url, text) = pastedSource body
           in if nm = [] then (d, httpError ''a source name (letters, digits, . _ -) is required'' 400)
              else if url = [] \<and> text = [] then (d, httpError ''provide a subscription URL or pasted URIs'' 400)
              else if url = [] \<and> \<not> mkdirOk (aeFiles env) (sourceDir nm) then (d, httpError ''create data dir'' 500)
              else
                (case (if url \<noteq> [] then (d, True)
                       else writeFile (writeRes (aeFiles env) (sourceFile nm)) (sourceFile nm) (text @ [CHR 0x0A]) d) of
                   (d1, False) \<Rightarrow> (d1, httpError ''write subscription'' 500)
                 | (d1, True) \<Rightarrow>
                     (case editConfig env (addSourceEdit nm (yNodeOf (aeYAML env) (sourceEntry nm url))) d1 of
                           (d2, Skipped) \<Rightarrow> (d2, httpError (''a source named '' @ nm @ '' already exists'') 409)
                         | (d2, Written) \<Rightarrow>
                             (d2, okNote [(''name'', JStr nm),
                                (''note'', JStr ''Source added. Hit Reload to load its endpoints.''),
                                (''kind'', JStr (if url \<noteq> [] then ''url'' else ''file''))])
                         | (d2, _) \<Rightarrow> (d2, httpError ''write config'' 500))))
      | _ \<Rightarrow> (d, httpError ''invalid JSON'' 400))"

section \<open>Removing a source\<close>

datatype remove_res = NoSubscription | NotFound | Removed ynode

definition clearKey :: "yaml_lib \<Rightarrow> string \<Rightarrow> yval \<Rightarrow> ynode \<times> bool \<Rightarrow> ynode \<times> bool" where
  "clearKey y key v st =
     (case st of (sub, removed) \<Rightarrow> if yget key sub = None then (sub, removed) else (yset y key v sub, True))"

definition removeSource :: "yaml_lib \<Rightarrow> string \<Rightarrow> ynode \<Rightarrow> remove_res" where
  "removeSource y nm root =
     (case yget ''subscription'' root of
        None \<Rightarrow> NoSubscription
      | Some sub \<Rightarrow>
          if nKind sub \<noteq> MappingNode then NoSubscription
          else if nm = ''default'' then
            (case clearKey y ''wireguard_files'' (YList [])
                    (clearKey y ''url'' (YStr []) (clearKey y ''file'' (YStr []) (sub, False))) of
               (sub', True) \<Rightarrow> Removed (setNode ''subscription'' sub' root)
             | (_, False) \<Rightarrow> NotFound)
          else
            (case yget ''sources'' sub of
               None \<Rightarrow> NotFound
             | Some srcs \<Rightarrow>
                 if nKind srcs = SequenceNode \<and> list_ex (isSourceNamed nm) (nContent srcs) then
                   Removed (setNode ''subscription''
                     (setNode ''sources'' (withContent (filter (\<lambda>i. \<not> isSourceNamed nm i) (nContent srcs)) srcs) sub) root)
                 else NotFound))"

definition removeEdit :: "yaml_lib \<Rightarrow> string \<Rightarrow> ynode \<Rightarrow> ynode option" where
  "removeEdit y nm root = (case removeSource y nm root of Removed r \<Rightarrow> Some r | _ \<Rightarrow> None)"

text \<open>When the file cannot be read the callback never ran, and the answer is that of a missing source.\<close>

definition handleSourceByName :: "api_env \<Rightarrow> http_req \<Rightarrow> disk \<Rightarrow> disk \<times> response" where
  "handleSourceByName env req d =
     (let nm = trimPrefix (hqPath req) ''/api/sources/''
      in if nm = [] \<or> nm = ''reload'' then (d, httpError ''name required'' 400)
         else if hqMethod req \<noteq> ''DELETE'' then (d, httpError ''DELETE required'' 405)
         else
           (case editConfig env (removeEdit (aeYAML env) nm) d of
              (d', res) \<Rightarrow>
                (d',
                 case map_option (removeSource (aeYAML env) nm) (configRoot env d) of
                   Some NoSubscription \<Rightarrow> httpError ''no subscription block in config'' 404
                 | Some (Removed _) \<Rightarrow>
                     if res = Written then
                       okNote [(''removed'', JStr nm),
                         (''note'', JStr ''Source removed from config.yaml. POST /api/sources/reload (or restart proxy-core) to unload its endpoints.'')]
                     else httpError ''write config'' 500
                 | _ \<Rightarrow> httpError (''no such source: '' @ nm) 404)))"

section \<open>Bundles\<close>

text \<open>\<open>filepath.Rel\<close> of two paths that are both absolute or both relative.\<close>

fun stripCommon :: "string list \<Rightarrow> string list \<Rightarrow> string list \<times> string list" where
  "stripCommon (b # bs) (t # ts) = (if b = t then stripCommon bs ts else (b # bs, t # ts))"
| "stripCommon bs ts = (bs, ts)"

definition pathRel :: "string \<Rightarrow> string \<Rightarrow> string option" where
  "pathRel base0 targ0 =
     (let base = pathClean base0; targ = pathClean targ0;
          comps = (\<lambda>p. filter (\<lambda>c. c \<noteq> []) (splitOn (CHR ''/'') p))
      in if base = targ then Some ''.''
         else if isAbs base \<noteq> isAbs targ then None
         else (case stripCommon (if base = ''.'' then [] else comps base) (comps targ) of
                 (bs, ts) \<Rightarrow>
                   if bs \<noteq> [] \<and> hd bs = ''..'' then None
                   else Some (joinWith ''/'' (replicate (length bs) ''..'' @ ts))))"

definition relativeIfPossible :: "string option \<Rightarrow> string \<Rightarrow> string" where
  "relativeIfPossible cwd p =
     (case cwd of
        None \<Rightarrow> p
      | Some c \<Rightarrow> (case pathRel c p of Some rel \<Rightarrow> if hasPrefix rel ''..'' then p else ''./'' @ rel | None \<Rightarrow> p))"

definition sidecarCfg :: "yaml_lib \<Rightarrow> string \<Rightarrow> string \<Rightarrow> (string \<times> string) list \<Rightarrow> ynode \<Rightarrow> ynode" where
  "sidecarCfg y source kind kvs root =
     onChild ''sidecars'' (onChild kind (onChild ''config''
       (\<lambda>c. foldl (\<lambda>c (k, v). yset y k (YStr v) c) c ((''source'', source) # kvs)))) root"

definition bundleEntry :: "string option \<Rightarrow> bundle_result \<Rightarrow> yval" where
  "bundleEntry cwd res =
     YMap ([(''name'', YStr (rName res))] @
       (if rSubscription res \<noteq> [] then [(''file'', YStr (relativeIfPossible cwd (rSubscription res)))] else []) @
       (if rWireGuard res \<noteq> [] then [(''wireguard_files'', YList [YStr (relativeIfPossible cwd (rWireGuard res))])] else []))"

definition bundleEdit :: "yaml_lib \<Rightarrow> string option \<Rightarrow> bundle_result \<Rightarrow> ynode \<Rightarrow> ynode" where
  "bundleEdit y cwd res root =
     (let r0 = appendSource (yNodeOf y (bundleEntry cwd res)) root;
          r1 = (if rDomain res \<noteq> [] \<and> rKey res \<noteq> [] then
                  sidecarCfg y (rName res) ''masterdns''
                    ([(''domain'', rDomain res), (''key'', rKey res)] @
                     (if rMethod res \<noteq> [] then [(''method'', rMethod res)] else [])) r0
                else r0);
          r2 = (if rAmneziaWG res \<noteq> [] then
                  sidecarCfg y (rName res) ''amneziawg'' [(''source_path'', relativeIfPossible cwd (rAmneziaWG res))] r1
                else r1)
      in if rTrustTunnel res \<noteq> [] then
           sidecarCfg y (rName res) ''trusttunnel'' [(''source_path'', relativeIfPossible cwd (rTrustTunnel res))] r2
         else r2)"

definition addSourceToConfig :: "api_env \<Rightarrow> bundle_result \<Rightarrow> disk \<Rightarrow> disk \<times> edit_res" where
  "addSourceToConfig env res d = editConfig env (\<lambda>root. Some (bundleEdit (aeYAML env) (aeCwd env) res root)) d"

definition bundleJSON :: "bundle_result \<Rightarrow> json" where
  "bundleJSON res = JObj
     [(''name'', JStr (rName res)), (''files'', strings (rFiles res)), (''subscription_path'', JStr (rSubscription res)),
      (''wireguard_conf'', JStr (rWireGuard res)), (''amneziawg_conf'', JStr (rAmneziaWG res)),
      (''masterdns_domain'', JStr (rDomain res)), (''masterdns_key'', JStr (rKey res)),
      (''masterdns_method'', JStr (rMethod res)), (''trusttunnel_path'', JStr (rTrustTunnel res))]"

text \<open>The upload's form fields are the friendly name, the file's name and the archive.\<close>

definition uploadName :: "string \<Rightarrow> string \<Rightarrow> string" where
  "uploadName nm filename =
     (let requested = trimSpace nm
      in if requested = [] then trimSuffix (pathBase filename) (pathExt (pathBase filename)) else requested)"

definition handleBundleUpload :: "api_env \<Rightarrow> http_req \<Rightarrow> disk \<Rightarrow> disk \<times> response" where
  "handleBundleUpload env req d =
     (if hqMethod req \<noteq> ''POST'' then (d, httpError ''POST required'' 405)
      else (case hqBody req of
              ZipBody nm filename archive \<Rightarrow>
                (case extractBundle (aeFiles env) archive ''data'' (uploadName nm filename) d of
                   (d1, None) \<Rightarrow> (d1, httpError ''extract'' 400)
                 | (d1, Some res) \<Rightarrow>
                     (case addSourceToConfig env res d1 of
                        (d2, Written) \<Rightarrow>
                          (d2, okNote [(''result'', bundleJSON res),
                             (''note'', JStr ''Bundle imported and registered in config.yaml. Restart moav-client (or docker compose restart proxy-core) to load the new endpoints.'')])
                      | (d2, _) \<Rightarrow>
                          (d2, okNote [(''result'', bundleJSON res), (''warning'', JStr ''extracted but config.yaml not updated''),
                             (''note'', JStr ''Add the source manually under subscription.sources, then restart moav-client.'')])))
            | _ \<Rightarrow> (d, httpError ''missing 'bundle' file field'' 400)))"

section \<open>SNI spoofing\<close>

definition seedKey :: "yaml_lib \<Rightarrow> string \<Rightarrow> yval \<Rightarrow> ynode \<Rightarrow> ynode" where
  "seedKey y key v m = (if yget key m = None then yset y key v m else m)"

definition spoofEdit :: "yaml_lib \<Rightarrow> spoof_body \<Rightarrow> ynode \<Rightarrow> ynode" where
  "spoofEdit y body root =
     onChild ''sni_spoof'' (\<lambda>s0.
       let s1 = seedKey y ''output_path'' (YStr ''data/sni-spoof.json'') (seedKey y ''base_port'' (YInt 12800)
                  (seedKey y ''dial_host'' (YStr ''sni-spoof'') (seedKey y ''listen_host'' (YStr ''0.0.0.0'') s0)));
           s2 = (case pbEnabled body of Some v \<Rightarrow> yset y ''enabled'' (YBool v) s1 | None \<Rightarrow> s1);
           s3 = (case pbFakeSNI body of Some v \<Rightarrow> yset y ''default_fake_sni'' (YStr v) s2 | None \<Rightarrow> s2)
       in (case pbUTLS body of Some v \<Rightarrow> yset y ''default_utls'' (YStr v) s3 | None \<Rightarrow> s3)) root"

fun valueAt :: "string \<Rightarrow> yval \<Rightarrow> yval option" where
  "valueAt k (YMap kvs) = map_of kvs k"
| "valueAt k _ = None"

definition boolOr :: "yval option \<Rightarrow> bool \<Rightarrow> bool" where
  "boolOr v dflt = (case v of Some (YBool b) \<Rightarrow> b | _ \<Rightarrow> dflt)"

definition strOr :: "yval option \<Rightarrow> string \<Rightarrow> string" where
  "strOr v dflt = (case v of Some (YStr s) \<Rightarrow> s | _ \<Rightarrow> dflt)"

definition spoofRow :: "endpoint \<Rightarrow> json" where
  "spoofRow ep = JObj
     [(''id'', JStr (ID ep)), (''name'', JStr (Name ep)), (''fake_sni'', JStr (cget (Config ep) ''fake_sni'')),
      (''utls'', JStr (cget (Config ep) ''utls'')), (''spoof_via'', JStr (cget (Config ep) ''spoof_via''))]"

definition handleSNISpoof :: "api_env \<Rightarrow> http_req \<Rightarrow> endpoint list \<Rightarrow> disk \<Rightarrow> disk \<times> response" where
  "handleSNISpoof env req eps d =
     (if hqMethod req = ''GET'' then
        (case d (configPath env) of
           None \<Rightarrow> (d, httpError ''read config'' 500)
         | Some raw \<Rightarrow>
             (let root = (case aeValueOf env raw of Some v \<Rightarrow> v | None \<Rightarrow> YNull);
                  sec = (case valueAt ''sni_spoof'' root of Some v \<Rightarrow> v | None \<Rightarrow> YNull)
              in (d, writeJSON (JObj
                   [(''enabled'', JBool (boolOr (valueAt ''enabled'' sec) False)),
                    (''default_fake_sni'', JStr (strOr (valueAt ''default_fake_sni'' sec) [])),
                    (''default_utls'', JStr (strOr (valueAt ''default_utls'' sec) ''chrome'')),
                    (''active_endpoints'', JArr (map spoofRow (filter (\<lambda>e. cget (Config e) ''spoof_via'' \<noteq> []) eps)))]))))
      else if hqMethod req = ''PUT'' \<or> hqMethod req = ''POST'' then
        (case hqBody req of
           SpoofBody body \<Rightarrow>
             (case editConfig env (\<lambda>root. Some (spoofEdit (aeYAML env) body root)) d of
                (d', Written) \<Rightarrow>
                  (d', okNote [(''note'', JStr ''config.yaml updated. POST /api/sources/reload (or ./moav-client restart) to apply.'')])
              | (d', _) \<Rightarrow> (d', httpError ''write config'' 500))
         | _ \<Rightarrow> (d, httpError ''invalid JSON'' 400))
      else (d, httpError ''GET or PUT required'' 405))"

section \<open>Rules and the kill-switch\<close>

definition ruleValue :: "rule \<Rightarrow> yval" where
  "ruleValue r = YMap
     [(''match'', YMap [(''type'', YStr (mType (rMatch r))), (''value'', YStr (mValue (rMatch r)))]),
      (''action'', YStr (rActionName r)), (''enabled'', YBool (rEnabled r)), (''note'', YStr (rNote r))]"

definition persistRoutingRules :: "api_env \<Rightarrow> rule list \<Rightarrow> disk \<Rightarrow> disk \<times> edit_res" where
  "persistRoutingRules env rs d =
     editConfig env
       (\<lambda>root. Some (onChild ''plugins'' (setNode ''routing_rules'' (yNodeOf (aeYAML env) (YList (map ruleValue rs)))) root)) d"

definition ruleJSON :: "rule \<Rightarrow> json" where
  "ruleJSON r = JObj
     (optField ''id'' (rID r) @
      [(''match'', JObj [(''type'', JStr (mType (rMatch r))), (''value'', JStr (mValue (rMatch r)))]),
       (''enabled'', JBool (rEnabled r))] @ optField ''note'' (rNote r) @ [(''action'', JStr (rActionName r))])"

text \<open>The reply of a handler that panics: the server drops the connection.\<close>

definition panicked :: response where
  "panicked = \<lparr>rsStatus = 0, rsBody = JObj [], rsChallenge = False\<rparr>"

definition handlePlugins :: "api_env \<Rightarrow> json \<Rightarrow> http_req \<Rightarrow> engine \<times> disk \<Rightarrow> (engine \<times> disk) \<times> response" where
  "handlePlugins env templatesJSON req st =
     (case st of (eng, d) \<Rightarrow>
        if hqMethod req = ''GET'' then
          (st, writeJSON (JObj [(''rules'', JArr (map ruleJSON (rules eng))), (''templates'', templatesJSON)]))
        else if hqMethod req = ''PUT'' \<or> hqMethod req = ''POST'' then
          (case hqBody req of
             RulesBody rs \<Rightarrow>
               (case setRules rs eng of
                  None \<Rightarrow> (st, panicked)
                | Some eng' \<Rightarrow>
                    (case persistRoutingRules env (rules eng') d of
                       (d', res) \<Rightarrow>
                         ((eng', d'), okNote [(''rules'', JArr (map ruleJSON (rules eng'))),
                            (''note'', JStr (if res = Written then ''Rules applied live and saved to config.yaml.''
                                             else ''Rules applied live, but saving to config.yaml failed''))])))
           | _ \<Rightarrow> (st, httpError ''invalid JSON'' 400))
        else (st, httpError ''GET or PUT required'' 405))"

text \<open>
  The kill-switch is saved through plain values, not the tree. An empty file leaves a nil map,
  and writing into that panics.
\<close>

datatype persist_res = Persisted | PersistFailed | PersistPanics

fun putValue :: "string \<Rightarrow> yval \<Rightarrow> (string \<times> yval) list \<Rightarrow> (string \<times> yval) list" where
  "putValue k v [] = [(k, v)]"
| "putValue k v ((k', v') # kvs) = (if k' = k then (k, v) # kvs else (k', v') # putValue k v kvs)"

definition persistBlockDirect :: "api_env \<Rightarrow> bool \<Rightarrow> disk \<Rightarrow> disk \<times> persist_res" where
  "persistBlockDirect env v d =
     (case d (configPath env) of
        None \<Rightarrow> (d, PersistFailed)
      | Some raw \<Rightarrow>
          (case aeValueOf env raw of
             Some (YMap kvs) \<Rightarrow>
               (let pl = (case map_of kvs ''plugins'' of Some (YMap p) \<Rightarrow> p | _ \<Rightarrow> []);
                    root = YMap (putValue ''plugins'' (YMap (putValue ''block_direct'' (YBool v) pl)) kvs)
                in case aeMarshalValue env root of
                     None \<Rightarrow> (d, PersistFailed)
                   | Some out \<Rightarrow>
                       (case writeFile (writeRes (aeFiles env) (configPath env)) (configPath env) out d of
                          (d', ok) \<Rightarrow> (d', if ok then Persisted else PersistFailed)))
           | Some YNull \<Rightarrow> (d, PersistPanics)
           | _ \<Rightarrow> (d, PersistFailed)))"

definition handleBlockDirect ::
  "api_env \<Rightarrow> http_req \<Rightarrow> balancer \<times> engine \<times> disk \<Rightarrow> (balancer \<times> engine \<times> disk) \<times> response" where
  "handleBlockDirect env req st =
     (case st of (b, eng, d) \<Rightarrow>
        if hqMethod req = ''GET'' then (st, writeJSON (JObj [(''enabled'', JBool (engBlockDirect eng))]))
        else if hqMethod req = ''PUT'' then
          (case hqBody req of
             BlockBody v \<Rightarrow>
               (case persistBlockDirect env v d of
                  (d', res) \<Rightarrow>
                    ((setBlockDirect v b, setEngBlockDirect v eng, d'),
                     case res of
                       Persisted \<Rightarrow> writeJSON (JObj [(''enabled'', JBool v)])
                     | PersistFailed \<Rightarrow>
                         writeJSON (JObj [(''enabled'', JBool v), (''warning'', JStr ''applied but not saved to config.yaml'')])
                     | PersistPanics \<Rightarrow> panicked))
           | _ \<Rightarrow> (st, httpError ''bad body'' 400))
        else (st, httpError ''GET or PUT'' 405))"

section \<open>The configuration as text\<close>

definition handleConfig :: "api_env \<Rightarrow> http_req \<Rightarrow> disk \<Rightarrow> disk \<times> response" where
  "handleConfig env req d =
     (if hqMethod req = ''GET'' then
        (d, case d (configPath env) of
              None \<Rightarrow> httpError ''read config'' 500
            | Some raw \<Rightarrow> writeJSON (JObj [(''path'', JStr (configPath env)), (''yaml'', JStr raw)]))
      else if hqMethod req = ''POST'' \<or> hqMethod req = ''PUT'' then
        (case hqBody req of
           ConfigBody text \<Rightarrow>
             if text = [] then (d, httpError ''yaml field required'' 400)
             else (case writeFile (writeRes (aeFiles env) (configPath env)) (configPath env) text d of
                     (d', True) \<Rightarrow>
                       (d', okNote [(''note'', JStr (''saved to disk '' @ [CHR 0xE2, CHR 0x80, CHR 0x94] @
                          '' restart moav-client (or docker compose restart proxy-core) to apply''))])
                   | (d', False) \<Rightarrow> (d', httpError ''write config'' 500))
         | _ \<Rightarrow> (d, httpError ''invalid JSON'' 400))
      else (d, httpError ''GET or POST required'' 405))"

section \<open>Backups\<close>

definition handleBackup :: "(string \<Rightarrow> root_stat) \<Rightarrow> (zip_entry list \<Rightarrow> string) \<Rightarrow> http_req \<Rightarrow> response" where
  "handleBackup st zipOf req =
     (if hqMethod req \<noteq> ''GET'' then httpError ''GET required'' 405
      else (case createBackup st of
              None \<Rightarrow> httpError ''backup'' 500
            | Some entries \<Rightarrow> writeJSON (JStr (zipOf entries))))"

definition handleRestore :: "api_env \<Rightarrow> http_req \<Rightarrow> disk \<Rightarrow> disk \<times> response" where
  "handleRestore env req d =
     (if hqMethod req \<noteq> ''POST'' then (d, httpError ''POST required'' 405)
      else (case hqBody req of
              ZipBody _ _ archive \<Rightarrow>
                (case restoreBackup (aeFiles env) (case aeCwd env of Some c \<Rightarrow> c | None \<Rightarrow> []) archive d of
                   (d', n, True) \<Rightarrow>
                     (d', okNote [(''files_restored'', JNum (int n)),
                        (''note'', JStr ''Run /api/sources/reload (or ./moav-client restart) to load the restored config.'')])
                 | (d', n, False) \<Rightarrow> (d', httpError ''restore'' 400))
            | _ \<Rightarrow> (d, httpError ''missing 'backup' file field'' 400)))"

end
