(* ===== verification/Logbus.thy ===== *)
theory Logbus
  imports Go_Strings
begin

text \<open>
  The log bus (\<open>logbus/logbus.go\<close>): one bounded ring per level, the subscribers' channels,
  the writer that turns the bytes of the standard logger into events, and the heuristics
  that give a line its level.
\<close>

section \<open>The bus\<close>

record event =
  evTs :: int
  evLevel :: string
  evSource :: string
  evMessage :: string

text \<open>A buffered channel of events, and whether it has been closed.\<close>

record event_chan =
  chCap :: nat
  chBuf :: "event list"
  chClosed :: bool

record bus =
  infoRing :: "event list"
  warnRing :: "event list"
  errorRing :: "event list"
  maxPer :: nat
  chans :: "event_chan list"
  subs :: "nat list"

definition newBus :: "int \<Rightarrow> bus" where
  "newBus ring =
     \<lparr>infoRing = [], warnRing = [], errorRing = [], maxPer = (if ring \<le> 0 then 500 else nat ring),
      chans = [], subs = []\<rparr>"

definition pushRing :: "nat \<Rightarrow> event list \<Rightarrow> event \<Rightarrow> event list" where
  "pushRing mx buf ev = (if mx \<le> length buf then drop 1 buf @ [ev] else buf @ [ev])"

interpretation log_ring: ring_buffer pushRing
proof
  fix cap :: nat and buf :: "event list" and x
  assume "0 < cap" "length buf \<le> cap"
  then show "pushRing cap buf x = last_n cap (buf @ [x])"
    by (cases buf; cases "cap = length buf") (auto simp: pushRing_def last_n_def)
qed

text \<open>The defaults \<open>Publish\<close> fills in.\<close>

definition stamped :: "int \<Rightarrow> event \<Rightarrow> event" where
  "stamped now ev =
     ev\<lparr>evTs := (if evTs ev = 0 then now else evTs ev),
        evLevel := (if evLevel ev = [] then ''info'' else evLevel ev)\<rparr>"

text \<open>A send that does not block; \<open>None\<close> is Go's panic on a closed channel.\<close>

definition trySend :: "event \<Rightarrow> event_chan \<Rightarrow> event_chan option" where
  "trySend ev ch =
     (if chClosed ch then None
      else if length (chBuf ch) < chCap ch then Some (ch\<lparr>chBuf := chBuf ch @ [ev]\<rparr>) else Some ch)"

fun fanOut :: "event \<Rightarrow> nat list \<Rightarrow> event_chan list \<Rightarrow> event_chan list option" where
  "fanOut ev [] chs = Some chs"
| "fanOut ev (i # is) chs =
     (case trySend ev (chs ! i) of None \<Rightarrow> None | Some ch \<Rightarrow> fanOut ev is (chs[i := ch]))"

definition ringed :: "event \<Rightarrow> bus \<Rightarrow> bus" where
  "ringed ev b =
     (if evLevel ev = ''error'' then b\<lparr>errorRing := pushRing (maxPer b) (errorRing b) ev\<rparr>
      else if evLevel ev = ''warn'' then b\<lparr>warnRing := pushRing (maxPer b) (warnRing b) ev\<rparr>
      else b\<lparr>infoRing := pushRing (maxPer b) (infoRing b) ev\<rparr>)"

definition publish :: "int \<Rightarrow> event \<Rightarrow> bus \<Rightarrow> bus option" where
  "publish now ev b =
     (let ev' = stamped now ev; b' = ringed ev' b
      in map_option (\<lambda>chs. b'\<lparr>chans := chs\<rparr>) (fanOut ev' (subs b') (chans b')))"

definition subscribe :: "int \<Rightarrow> bus \<Rightarrow> bus \<times> nat" where
  "subscribe n b =
     (let ch = \<lparr>chCap = (if n \<le> 0 then 16 else nat n), chBuf = [], chClosed = False\<rparr>; i = length (chans b)
      in (b\<lparr>chans := chans b @ [ch], subs := subs b @ [i]\<rparr>, i))"

text \<open>The function \<open>Subscribe\<close> returns; closing a channel twice panics.\<close>

definition release :: "nat \<Rightarrow> bus \<Rightarrow> bus option" where
  "release i b =
     (if chClosed (chans b ! i) then None
      else Some (b\<lparr>subs := filter (\<lambda>j. j \<noteq> i) (subs b), chans := (chans b)[i := (chans b ! i)\<lparr>chClosed := True\<rparr>]\<rparr>))"

text \<open>A subscriber takes the oldest event waiting for it.\<close>

definition receive :: "nat \<Rightarrow> bus \<Rightarrow> bus" where
  "receive i b = b\<lparr>chans := (chans b)[i := (chans b ! i)\<lparr>chBuf := drop 1 (chBuf (chans b ! i))\<rparr>]\<rparr>"

text \<open>
  The sort of \<open>Snapshot\<close>: the element at \<open>j\<close> sinks while the one before it is later.
\<close>

fun sinkDown :: "nat \<Rightarrow> event list \<Rightarrow> event list" where
  "sinkDown 0 xs = xs"
| "sinkDown (Suc j) xs =
     (if evTs (xs ! Suc j) < evTs (xs ! j) then sinkDown j (xs[j := xs ! Suc j, Suc j := xs ! j]) else xs)"

definition sortEventsByTs :: "event list \<Rightarrow> event list" where
  "sortEventsByTs xs = foldl (\<lambda>ys i. sinkDown i ys) xs [1..<length xs]"

definition busSnapshot :: "bus \<Rightarrow> event list" where
  "busSnapshot b = sortEventsByTs (infoRing b @ warnRing b @ errorRing b)"

section \<open>The level of a line\<close>

definition classifyLevel :: "string \<Rightarrow> string" where
  "classifyLevel s =
     (let low = toLower s; has = contains low; starts = hasPrefix low
      in if starts ''probe cycle:'' then (if has ''warn'' then ''warn'' else ''info'')
         else if starts ''probe '' then
           (if has ''status=error'' then ''error'' else if has ''status=timeout'' then ''warn'' else ''info'')
         else if has ''warn'' \<or> has ''deprecat'' \<or> has ''falling back'' \<or> has ''fall back'' \<or>
                 has ''trying next endpoint'' \<or> has ''failover'' \<or> has ''succeeded after'' \<or>
                 has ''skipping'' \<or> has ''all candidates failed'' \<or> has ''no healthy endpoint'' \<or>
                 has ''went unhealthy'' \<or> has ''recovered:'' \<or> (has ''dial through '' \<and> has ''failed'')
           then ''warn''
         else if starts ''fatal:'' \<or> has '' fatal:'' \<or> starts ''panic:'' \<or> has '' panic:'' \<or>
                 starts ''load config:'' \<or> starts ''could not load'' \<or>
                 (has ''listen:'' \<and> has ''address already in use'') \<or>
                 (has ''listen:'' \<and> has ''permission denied'') \<or>
                 starts ''http listen:'' \<or> starts ''socks5 listen:'' \<or> starts ''api listen:''
           then ''error''
         else ''info'')"

definition stripDatePrefix :: "string \<Rightarrow> string" where
  "stripDatePrefix s =
     (if 20 \<le> length s \<and> s ! 4 = CHR ''/'' \<and> s ! 7 = CHR ''/'' \<and> s ! 10 = CHR '' ''
      then trimSpace (drop 20 s) else s)"

section \<open>The capturing writer\<close>

text \<open>
  The events of the whole lines in the buffer, and what is left of it. An event is handed to
  \<open>Publish\<close> with no time of its own.
\<close>

definition lineEvent :: "string \<Rightarrow> string \<Rightarrow> event option" where
  "lineEvent src line =
     (let s = trimRight (line @ [CHR 0x0A]) [CHR 0x0D, CHR 0x0A]
      in if s = [] then None
         else (let clean = stripDatePrefix s
               in Some \<lparr>evTs = 0, evLevel = classifyLevel clean, evSource = src, evMessage = clean\<rparr>))"

function captureLines :: "string \<Rightarrow> string \<Rightarrow> event list \<times> string" where
  "captureLines src buf =
     (case cutByte buf (CHR 0x0A) of
        None \<Rightarrow> ([], buf)
      | Some (line, rest) \<Rightarrow>
          (case captureLines src rest of
             (evs, left) \<Rightarrow> ((case lineEvent src line of None \<Rightarrow> evs | Some e \<Rightarrow> e # evs), left)))"
  by pat_completeness auto
termination
  by (relation "measure (\<lambda>(src, buf). length buf)") (auto dest: cutByte_Some)

declare captureLines.simps [simp del]

record capturing_writer =
  cwSource :: string
  cwBuf :: string

fun publishAll :: "(nat \<Rightarrow> int) \<Rightarrow> nat \<Rightarrow> event list \<Rightarrow> bus \<Rightarrow> bus option" where
  "publishAll clk k [] b = Some b"
| "publishAll clk k (e # es) b = (case publish (clk k) e b of None \<Rightarrow> None | Some b' \<Rightarrow> publishAll clk (Suc k) es b')"

definition captureStep :: "capturing_writer \<Rightarrow> string \<Rightarrow> event list \<times> capturing_writer" where
  "captureStep w p =
     (case captureLines (cwSource w) (cwBuf w @ p) of (evs, left) \<Rightarrow> (evs, w\<lparr>cwBuf := left\<rparr>))"

text \<open>\<open>Write\<close>: \<open>clk k\<close> is the time of the k-th line of this call.\<close>

definition captureWrite ::
  "(nat \<Rightarrow> int) \<Rightarrow> string \<Rightarrow> capturing_writer \<Rightarrow> bus \<Rightarrow> (capturing_writer \<times> bus) option" where
  "captureWrite clk p w b =
     (case captureStep w p of (evs, w') \<Rightarrow> map_option (\<lambda>b'. (w', b')) (publishAll clk 0 evs b))"

text \<open>What a sequence of writes hands to \<open>Publish\<close>.\<close>

fun captureSeq :: "capturing_writer \<Rightarrow> string list \<Rightarrow> event list \<times> capturing_writer" where
  "captureSeq w [] = ([], w)"
| "captureSeq w (p # ps) =
     (case captureStep w p of (evs, w') \<Rightarrow> case captureSeq w' ps of (evs', w'') \<Rightarrow> (evs @ evs', w''))"

section \<open>The sort is insertion sort\<close>

lemma ins_by_snoc:
  assumes "sorted (map k (ys @ [y]))"
  shows "ins_by k x (ys @ [y]) = (if k x < k y then ins_by k x ys @ [y] else ys @ [y, x])"
  using assms by (induction ys) auto

lemma sinkDown_ins_by:
  assumes "sorted (map evTs ys)"
  shows "sinkDown (length ys) (ys @ x # zs) = ins_by evTs x ys @ zs"
  using assms
proof (induction ys arbitrary: zs rule: rev_induct)
  case (snoc y ys)
  let ?xs = "(ys @ [y]) @ x # zs"
  have at: "?xs ! length ys = y" "?xs ! Suc (length ys) = x"
    by (simp_all add: nth_append)
  have sw: "?xs[length ys := x, Suc (length ys) := y] = ys @ x # y # zs"
    by (simp add: list_update_append)
  have IH: "sinkDown (length ys) (ys @ x # y # zs) = ins_by evTs x ys @ y # zs"
    using snoc by (simp add: sorted_append)
  show ?case
  proof (cases "evTs x < evTs y")
    case True
    have "sinkDown (Suc (length ys)) ?xs = sinkDown (length ys) (?xs[length ys := x, Suc (length ys) := y])"
      using True by (simp only: sinkDown.simps at if_True)
    then show ?thesis using True sw IH ins_by_snoc [OF snoc.prems, of x] by simp
  next
    case False
    then have "sinkDown (Suc (length ys)) ?xs = ?xs"
      by (simp only: sinkDown.simps at if_False)
    then show ?thesis using False ins_by_snoc [OF snoc.prems, of x] by simp
  qed
qed simp

lemma sort_prefix:
  "n \<le> length xs \<Longrightarrow>
   foldl (\<lambda>ys i. sinkDown i ys) xs [0..<n] = insertion_sort evTs (take n xs) @ drop n xs"
proof (induction n)
  case (Suc n)
  then have "length (insertion_sort evTs (take n xs)) = n"
    by (metis Suc_leD length_take min_absorb2 mset_insertion_sort size_mset)
  then have "sinkDown n (insertion_sort evTs (take n xs) @ xs ! n # drop (Suc n) xs) =
      ins_by evTs (xs ! n) (insertion_sort evTs (take n xs)) @ drop (Suc n) xs"
    using sinkDown_ins_by [of "insertion_sort evTs (take n xs)" "xs ! n"] by simp
  moreover have "drop n xs = xs ! n # drop (Suc n) xs" using Suc.prems by (simp add: Cons_nth_drop_Suc)
  ultimately show ?case using Suc
    by (simp add: take_Suc_conv_app_nth insertion_sort_snoc)
qed simp

lemma sortEventsByTs_eq: "sortEventsByTs xs = insertion_sort evTs xs"
proof (cases "xs = []")
  case True
  then show ?thesis by (simp add: sortEventsByTs_def)
next
  case False
  then have "[0..<length xs] = 0 # [1..<length xs]" by (simp add: upt_conv_Cons)
  then have "foldl (\<lambda>ys i. sinkDown i ys) xs [0..<length xs] = sortEventsByTs xs"
    by (simp add: sortEventsByTs_def)
  then show ?thesis using sort_prefix [of "length xs" xs] by simp
qed

section \<open>What the bus keeps\<close>

text \<open>
  What each ring holds after a history: the last events published at its level. Anything that is
  neither \<open>error\<close> nor \<open>warn\<close> goes to the info ring.
\<close>

definition levelOf :: "event \<Rightarrow> string" where
  "levelOf ev = (if evLevel ev \<in> {''error'', ''warn''} then evLevel ev else ''info'')"

definition ringAt :: "string \<Rightarrow> bus \<Rightarrow> event list" where
  "ringAt l b = (if l = ''error'' then errorRing b else if l = ''warn'' then warnRing b else infoRing b)"

definition history_of :: "nat \<Rightarrow> event list \<Rightarrow> string \<Rightarrow> event list" where
  "history_of n evs l = last_n n (filter (\<lambda>e. levelOf e = l) evs)"

datatype bus_op = Publish int event | Subscribe int | Receive nat | Release nat

text \<open>
  A history of the bus, oldest operation first; \<open>None\<close> is a panic. Only channels that exist are
  released or read, and a subscriber releases its channel once.
\<close>

fun busOp :: "bus_op \<Rightarrow> bus \<Rightarrow> bus option" where
  "busOp (Publish now ev) b = publish now ev b"
| "busOp (Subscribe n) b = Some (fst (subscribe n b))"
| "busOp (Receive i) b = Some (receive i b)"
| "busOp (Release i) b = release i b"

fun busRun :: "bus_op list \<Rightarrow> bus \<Rightarrow> bus option" where
  "busRun [] b = Some b"
| "busRun (a # as) b = (case busOp a b of None \<Rightarrow> None | Some b' \<Rightarrow> busRun as b')"

fun published :: "bus_op \<Rightarrow> event list" where
  "published (Publish now ev) = [stamped now ev]"
| "published _ = []"

definition bus_wf :: "bus \<Rightarrow> bool" where
  "bus_wf b \<longleftrightarrow> distinct (subs b) \<and> (\<forall>i < length (chans b). i \<in> set (subs b) \<longleftrightarrow> \<not> chClosed (chans b ! i)) \<and>
     (\<forall>i \<in> set (subs b). i < length (chans b)) \<and> (\<forall>c \<in> set (chans b). length (chBuf c) \<le> chCap c)"

text \<open>Which channels an operation may name: those of the subscribers that have not left.\<close>

fun op_ok :: "bus_op \<Rightarrow> bus \<Rightarrow> bool" where
  "op_ok (Receive i) b = (i < length (chans b))"
| "op_ok (Release i) b = (i \<in> set (subs b))"
| "op_ok _ b = True"

fun ops_ok :: "bus_op list \<Rightarrow> bus \<Rightarrow> bool" where
  "ops_ok [] b = True"
| "ops_ok (a # as) b = (op_ok a b \<and> (\<forall>b'. busOp a b = Some b' \<longrightarrow> ops_ok as b'))"

lemma fanOut_ok:
  assumes "distinct is" "\<forall>i \<in> set is. i < length chs \<and> \<not> chClosed (chs ! i)"
  shows "fanOut ev is chs =
    Some (map (\<lambda>i. if i \<in> set is then the (trySend ev (chs ! i)) else chs ! i) [0..<length chs])"
  using assms
proof (induction "is" arbitrary: chs)
  case Nil
  then show ?case by (simp add: map_nth)
next
  case (Cons j js)
  have "trySend ev (chs ! j) \<noteq> None" using Cons.prems by (simp add: trySend_def)
  then obtain ch where ch: "trySend ev (chs ! j) = Some ch" by blast
  have "fanOut ev js (chs[j := ch]) =
      Some (map (\<lambda>i. if i \<in> set js then the (trySend ev (chs[j := ch] ! i)) else chs[j := ch] ! i) [0..<length (chs[j := ch])])"
    by (rule Cons.IH) (use Cons.prems in \<open>auto simp: nth_list_update\<close>)
  also have "map (\<lambda>i. if i \<in> set js then the (trySend ev (chs[j := ch] ! i)) else chs[j := ch] ! i) [0..<length (chs[j := ch])] =
      map (\<lambda>i. if i \<in> set (j # js) then the (trySend ev (chs ! i)) else chs ! i) [0..<length chs]"
  proof (intro map_cong)
    fix i assume "i \<in> set [0..<length chs]"
    then show "(if i \<in> set js then the (trySend ev (chs[j := ch] ! i)) else chs[j := ch] ! i) =
        (if i \<in> set (j # js) then the (trySend ev (chs ! i)) else chs ! i)"
      using Cons.prems(1) ch by (cases "i = j") simp_all
  qed simp
  finally show ?case by (simp only: fanOut.simps ch option.case)
qed

lemma trySend_bounds:
  "\<not> chClosed c \<Longrightarrow> length (chBuf c) \<le> chCap c \<Longrightarrow>
   \<not> chClosed (the (trySend ev c)) \<and> length (chBuf (the (trySend ev c))) \<le> chCap (the (trySend ev c))"
  by (simp add: trySend_def)

lemma ringed_frame [simp]:
  "subs (ringed ev b) = subs b" "chans (ringed ev b) = chans b" "maxPer (ringed ev b) = maxPer b"
  by (simp_all add: ringed_def)

definition rings_ok :: "bus \<Rightarrow> bool" where
  "rings_ok b \<longleftrightarrow> 0 < maxPer b \<and> length (infoRing b) \<le> maxPer b \<and> length (warnRing b) \<le> maxPer b \<and>
     length (errorRing b) \<le> maxPer b"

lemma ringAt_simps [simp]:
  "ringAt ''error'' b = errorRing b" "ringAt ''warn'' b = warnRing b" "ringAt ''info'' b = infoRing b"
  by (simp_all add: ringAt_def)

lemma ringed_ringAt:
  assumes "rings_ok b" "l \<in> {''error'', ''warn'', ''info''}"
  shows "ringAt l (ringed ev b) = last_n (maxPer b) (ringAt l b @ filter (\<lambda>e. levelOf e = l) [ev])"
proof -
  have p: "0 < maxPer b" "length (infoRing b) \<le> maxPer b" "length (warnRing b) \<le> maxPer b" "length (errorRing b) \<le> maxPer b"
    using assms(1) by (simp_all add: rings_ok_def)
  show ?thesis
  proof (cases "evLevel ev = ''error'' \<or> evLevel ev = ''warn''")
    case True
    then show ?thesis using assms(2) p
      by (elim disjE) (auto simp: ringed_def levelOf_def log_ring.push_spec)
  next
    case False
    then show ?thesis using assms(2) p by (auto simp: ringed_def levelOf_def log_ring.push_spec)
  qed
qed

lemma ringed_rings_ok: "rings_ok b \<Longrightarrow> rings_ok (ringed ev b)"
  using log_ring.push_bounded by (simp add: rings_ok_def ringed_def)

lemma ringAt_le: "rings_ok b \<Longrightarrow> length (ringAt l b) \<le> maxPer b"
  by (simp add: ringAt_def rings_ok_def)

lemma rings_same:
  assumes "rings_ok b" "infoRing b' = infoRing b" "warnRing b' = warnRing b" "errorRing b' = errorRing b"
    "maxPer b' = maxPer b"
  shows "rings_ok b' \<and> ringAt l b' = last_n (maxPer b) (ringAt l b)"
proof -
  have "ringAt l b' = ringAt l b" for l using assms by (simp add: ringAt_def)
  then show ?thesis using assms ringAt_le [OF assms(1)] by (simp add: rings_ok_def)
qed

lemma publish_wf:
  assumes "bus_wf b"
  shows "\<exists>b'. publish now ev b = Some b' \<and> bus_wf b' \<and> maxPer b' = maxPer b \<and>
    (\<forall>l. ringAt l b' = ringAt l (ringed (stamped now ev) b))"
proof -
  let ?ev = "stamped now ev"
  have sub: "distinct (subs b)" "\<forall>i \<in> set (subs b). i < length (chans b) \<and> \<not> chClosed (chans b ! i)"
    using assms by (auto simp: bus_wf_def)
  let ?chs = "map (\<lambda>i. if i \<in> set (subs b) then the (trySend ?ev (chans b ! i)) else chans b ! i) [0..<length (chans b)]"
  let ?b' = "(ringed ?ev b)\<lparr>chans := ?chs\<rparr>"
  have run: "publish now ev b = Some ?b'"
    using fanOut_ok [OF sub, of ?ev] by (simp add: publish_def Let_def)
  have "length (chBuf (chans b ! i)) \<le> chCap (chans b ! i)" if "i < length (chans b)" for i
    using assms that by (simp add: bus_wf_def)
  then have "bus_wf ?b'"
    using assms trySend_bounds by (auto simp: bus_wf_def)
  then show ?thesis using run by (auto simp: ringAt_def)
qed

lemma op_same_rings:
  assumes "rings_ok b" "busOp a b = Some b'" "published a = []" "bus_wf b'"
    "infoRing b' = infoRing b" "warnRing b' = warnRing b" "errorRing b' = errorRing b" "maxPer b' = maxPer b"
  shows "\<exists>b'. busOp a b = Some b' \<and> bus_wf b' \<and> rings_ok b' \<and> maxPer b' = maxPer b \<and>
    (\<forall>l \<in> {''error'', ''warn'', ''info''}.
       ringAt l b' = last_n (maxPer b) (ringAt l b @ filter (\<lambda>e. levelOf e = l) (published a)))"
  using assms rings_same [OF assms(1,5-8)] by (intro exI [of _ b']) (simp only: filter.simps append_Nil2 simp_thms, simp)

lemma busOp_wf:
  assumes "bus_wf b" "rings_ok b" "op_ok a b"
  shows "\<exists>b'. busOp a b = Some b' \<and> bus_wf b' \<and> rings_ok b' \<and> maxPer b' = maxPer b \<and>
    (\<forall>l \<in> {''error'', ''warn'', ''info''}.
       ringAt l b' = last_n (maxPer b) (ringAt l b @ filter (\<lambda>e. levelOf e = l) (published a)))"
proof (cases a)
  case (Publish now ev)
  obtain b' where b': "publish now ev b = Some b'" "bus_wf b'" "maxPer b' = maxPer b"
      "\<forall>l. ringAt l b' = ringAt l (ringed (stamped now ev) b)"
    using publish_wf [OF assms(1)] by blast
  have "infoRing b' = infoRing (ringed (stamped now ev) b)" "warnRing b' = warnRing (ringed (stamped now ev) b)"
      "errorRing b' = errorRing (ringed (stamped now ev) b)"
    using b'(4) ringAt_simps by metis+
  then have "rings_ok b'"
    using ringed_rings_ok [OF assms(2), of "stamped now ev"] b'(3) by (simp add: rings_ok_def)
  show ?thesis
  proof (intro exI conjI ballI)
    show "busOp a b = Some b'" using b'(1) by (simp add: Publish)
    fix l assume "l \<in> {''error'', ''warn'', ''info''}"
    from ringed_ringAt [OF assms(2) this, of "stamped now ev"]
    show "ringAt l b' = last_n (maxPer b) (ringAt l b @ filter (\<lambda>e. levelOf e = l) (published a))"
      using b'(4) by (simp only: Publish published.simps)
  qed fact+
next
  case (Subscribe n)
  have "bus_wf (fst (subscribe n b))"
    using assms(1) by (auto simp: subscribe_def Let_def bus_wf_def nth_append less_Suc_eq)
  then show ?thesis
    using op_same_rings [OF assms(2), of a "fst (subscribe n b)"] by (simp add: Subscribe subscribe_def Let_def)
next
  case (Receive i)
  then have "length (chBuf (chans b ! i)) \<le> chCap (chans b ! i)" using assms(1,3) by (simp add: bus_wf_def)
  then have "length (chBuf (chans b ! i)) - Suc 0 \<le> chCap (chans b ! i)" by linarith
  then have "bus_wf (receive i b)"
    using assms(1,3) by (auto simp: Receive receive_def bus_wf_def nth_list_update dest!: set_update_subset_insert [THEN subsetD])
  then show ?thesis
    using op_same_rings [OF assms(2), of a "receive i b"] by (simp add: Receive receive_def)
next
  case (Release i)
  then have i: "i \<in> set (subs b)" "i < length (chans b)" "\<not> chClosed (chans b ! i)"
    using assms(1,3) by (auto simp: bus_wf_def)
  let ?b' = "b\<lparr>subs := filter (\<lambda>j. j \<noteq> i) (subs b), chans := (chans b)[i := (chans b ! i)\<lparr>chClosed := True\<rparr>]\<rparr>"
  have "release i b = Some ?b'" using i by (simp add: release_def)
  moreover have "bus_wf ?b'"
    using assms(1) i by (auto simp: bus_wf_def nth_list_update dest!: set_update_subset_insert [THEN subsetD])
  ultimately show ?thesis
    using op_same_rings [OF assms(2), of a ?b'] by (simp add: Release)
qed

lemma last_n_last_n_append:
  assumes "length xs \<le> n"
  shows "last_n n (last_n n (xs @ ys) @ zs) = last_n n (xs @ ys @ zs)"
proof (cases "n = 0")
  case False
  then show ?thesis
  proof (induction zs rule: rev_induct)
    case Nil
    then show ?case by (simp add: last_n_def)
  next
    case (snoc z zs)
    then have n: "0 < n" by simp
    have "last_n n (last_n n (xs @ ys) @ zs @ [z]) = last_n n (last_n n (last_n n (xs @ ys) @ zs) @ [z])"
      using last_n_append_single [OF n, of "last_n n (xs @ ys) @ zs" z] by simp
    also have "\<dots> = last_n n (last_n n (xs @ ys @ zs) @ [z])" using snoc by simp
    also have "\<dots> = last_n n (xs @ ys @ zs @ [z])" using last_n_append_single [OF n, of "xs @ ys @ zs" z] by simp
    finally show ?case .
  qed
qed (simp add: last_n_def)

lemma busRun_wf:
  assumes "bus_wf b" "rings_ok b" "ops_ok as b"
  shows "\<exists>b'. busRun as b = Some b' \<and> bus_wf b' \<and> rings_ok b' \<and> maxPer b' = maxPer b \<and>
    (\<forall>l \<in> {''error'', ''warn'', ''info''}.
       ringAt l b' = last_n (maxPer b) (ringAt l b @ filter (\<lambda>e. levelOf e = l) (concat (map published as))))"
  using assms
proof (induction as arbitrary: b)
  case Nil
  then show ?case using ringAt_le by auto
next
  case (Cons a as)
  obtain b1 where b1: "busOp a b = Some b1" "bus_wf b1" "rings_ok b1" "maxPer b1 = maxPer b"
      "\<forall>l \<in> {''error'', ''warn'', ''info''}.
         ringAt l b1 = last_n (maxPer b) (ringAt l b @ filter (\<lambda>e. levelOf e = l) (published a))"
    using busOp_wf [OF Cons.prems(1,2), of a] Cons.prems(3) by auto
  obtain b2 where b2: "busRun as b1 = Some b2" "bus_wf b2" "rings_ok b2" "maxPer b2 = maxPer b1"
      "\<forall>l \<in> {''error'', ''warn'', ''info''}.
         ringAt l b2 = last_n (maxPer b1) (ringAt l b1 @ filter (\<lambda>e. levelOf e = l) (concat (map published as)))"
    using Cons.IH [OF b1(2,3)] Cons.prems(3) b1(1) by auto
  show ?case
  proof (intro exI conjI ballI)
    show "busRun (a # as) b = Some b2" using b1(1) b2(1) by simp
    show "maxPer b2 = maxPer b" using b1(4) b2(4) by simp
    fix l assume l: "l \<in> {''error'', ''warn'', ''info''}"
    show "ringAt l b2 = last_n (maxPer b) (ringAt l b @ filter (\<lambda>e. levelOf e = l) (concat (map published (a # as))))"
      using b1(5)[rule_format, OF l] b2(5)[rule_format, OF l] b1(4) last_n_last_n_append [OF ringAt_le [OF Cons.prems(2), of l]]
      by simp
  qed fact+
qed

text \<open>
  C35. Whatever happens on the bus after its creation, provided each subscriber leaves once, no
  operation panics (nothing is sent on a closed channel, although subscribers come and go), each
  ring holds exactly the last events of its level, so that a flood of \<open>info\<close> never displaces a
  warning, no subscriber's channel holds more than its capacity, and the snapshot is these three
  rings in the order of their times, events of equal time staying in the order the rings give.
\<close>

theorem log_bus_history:
  assumes "ops_ok as (newBus n)"
  shows "\<exists>b. busRun as (newBus n) = Some b \<and>
    (\<forall>l \<in> {''error'', ''warn'', ''info''}.
       ringAt l b = history_of (maxPer (newBus n)) (concat (map published as)) l) \<and>
    (\<forall>c \<in> set (chans b). length (chBuf c) \<le> chCap c) \<and>
    mset (busSnapshot b) = mset (infoRing b @ warnRing b @ errorRing b) \<and> sorted (map evTs (busSnapshot b)) \<and>
    (\<forall>t. filter (\<lambda>e. evTs e = t) (busSnapshot b) = filter (\<lambda>e. evTs e = t) (infoRing b @ warnRing b @ errorRing b))"
proof -
  have init: "bus_wf (newBus n)" "rings_ok (newBus n)" "\<And>l. ringAt l (newBus n) = []"
    by (simp_all add: newBus_def bus_wf_def rings_ok_def ringAt_def)
  obtain b where b: "busRun as (newBus n) = Some b" "bus_wf b"
      "\<forall>l \<in> {''error'', ''warn'', ''info''}.
         ringAt l b = last_n (maxPer (newBus n)) (filter (\<lambda>e. levelOf e = l) (concat (map published as)))"
    using busRun_wf [OF init(1,2) assms] unfolding init(3) append_Nil by blast
  show ?thesis
  proof (intro exI conjI)
    show "busRun as (newBus n) = Some b" by (rule b(1))
    show "\<forall>l \<in> {''error'', ''warn'', ''info''}.
       ringAt l b = history_of (maxPer (newBus n)) (concat (map published as)) l"
      using b(3) by (simp only: history_of_def)
    show "\<forall>c \<in> set (chans b). length (chBuf c) \<le> chCap c" using b(2) by (simp add: bus_wf_def)
  qed (simp_all only: busSnapshot_def sortEventsByTs_eq mset_insertion_sort sorted_insertion_sort insertion_sort_stable, simp_all)
qed

section \<open>Lines, however the bytes arrive\<close>

lemma captureLines_spec:
  "captureLines src buf =
     (List.map_filter (lineEvent src) (butlast (splitOn (CHR 0x0A) buf)), last (splitOn (CHR 0x0A) buf))"
proof (induction src buf rule: captureLines.induct)
  case (1 src buf)
  show ?case
  proof (cases "cutByte buf (CHR 0x0A)")
    case None
    then have "CHR 0x0A \<notin> set buf" by simp
    moreover have "captureLines src buf = ([], buf)" by (subst captureLines.simps) (simp only: None option.case)
    ultimately show ?thesis by (simp add: List.map_filter_simps)
  next
    case (Some lr)
    obtain line rest where lr: "lr = (line, rest)" by (cases lr)
    then have "buf = line @ CHR 0x0A # rest" "CHR 0x0A \<notin> set line" using Some cutByte_Some by auto
    then have "splitOn (CHR 0x0A) buf = line # splitOn (CHR 0x0A) rest" by simp
    then show ?thesis using 1 [OF Some lr [symmetric]] Some lr
      by (simp add: captureLines.simps [of src buf] List.map_filter_simps split: option.split)
  qed
qed

text \<open>
  C36. The writer turns lines into events, whatever pieces the bytes come in: a sequence of writes
  hands to \<open>Publish\<close> one event for each finished non-empty line of what was written, in order,
  and keeps the unfinished last line, exactly as one write of all the bytes does.
\<close>

theorem capture_chunking:
  assumes "CHR 0x0A \<notin> set (cwBuf w)"
  shows "captureSeq w ps =
    (let ls = splitOn (CHR 0x0A) (cwBuf w @ concat ps)
     in (List.map_filter (lineEvent (cwSource w)) (butlast ls), w\<lparr>cwBuf := last ls\<rparr>))"
  using assms
proof (induction ps arbitrary: w)
  case Nil
  then show ?case by (simp add: List.map_filter_simps)
next
  case (Cons p ps)
  let ?ls = "splitOn (CHR 0x0A) (cwBuf w @ p)"
  have "last ?ls \<in> set ?ls" by simp
  then have nl: "CHR 0x0A \<notin> set (last ?ls)" using splitOn_parts by blast
  have sp: "splitOn (CHR 0x0A) (cwBuf w @ p @ concat ps) =
      butlast ?ls @ splitOn (CHR 0x0A) (last ?ls @ concat ps)"
    using splitOn_append_last [of "CHR 0x0A" "cwBuf w @ p" "concat ps"] by simp
  have "captureSeq (w\<lparr>cwBuf := last ?ls\<rparr>) ps =
    (let ls = splitOn (CHR 0x0A) (last ?ls @ concat ps)
     in (List.map_filter (lineEvent (cwSource w)) (butlast ls), w\<lparr>cwBuf := last ls\<rparr>))"
    using Cons.IH [of "w\<lparr>cwBuf := last ?ls\<rparr>"] nl by simp
  then show ?case
    by (simp add: captureStep_def captureLines_spec sp Let_def butlast_append List.map_filter_def)
qed

section \<open>Examples\<close>

definition probe_line :: string where
  "probe_line = ''2026/06/03 00:00:00 probe x: status=error'' @ [CHR 0x0A]"

lemma capture_chunking_witness:
  "captureSeq \<lparr>cwSource = ''proxy-core'', cwBuf = []\<rparr> [take 7 probe_line, drop 7 probe_line, ''fatal: tail''] =
     ([\<lparr>evTs = 0, evLevel = ''error'', evSource = ''proxy-core'', evMessage = ''probe x: status=error''\<rparr>],
      \<lparr>cwSource = ''proxy-core'', cwBuf = ''fatal: tail''\<rparr>)"
proof -
  have c: "concat [take 7 probe_line, drop 7 probe_line, ''fatal: tail''] = probe_line @ ''fatal: tail''"
    by (simp only: concat.simps append_Nil2 append_assoc [symmetric] append_take_drop_id)
  have sp: "splitOn (CHR 0x0A) (probe_line @ ''fatal: tail'') =
      [''2026/06/03 00:00:00 probe x: status=error'', ''fatal: tail'']" by code_simp
  have le: "lineEvent ''proxy-core'' ''2026/06/03 00:00:00 probe x: status=error'' =
      Some \<lparr>evTs = 0, evLevel = ''error'', evSource = ''proxy-core'', evMessage = ''probe x: status=error''\<rparr>"
    by code_simp
  show ?thesis
    using capture_chunking [of "\<lparr>cwSource = ''proxy-core'', cwBuf = []\<rparr>"
        "[take 7 probe_line, drop 7 probe_line, ''fatal: tail'']"] unfolding c
    by (simp add: sp le Let_def List.map_filter_simps del: captureSeq.simps)
qed

definition an_event :: "string \<Rightarrow> int \<Rightarrow> event" where
  "an_event l t = \<lparr>evTs = t, evLevel = l, evSource = ''test'', evMessage = ''m''\<rparr>"

lemma log_bus_history_witness:
  "\<exists>b. busRun [Subscribe 1, Publish 5 (an_event ''warn'' 3), Publish 6 (an_event ''info'' 4),
               Publish 7 (an_event ''info'' 0), Release 0] (newBus 1) = Some b \<and>
     ringAt ''warn'' b = [an_event ''warn'' 3] \<and> ringAt ''info'' b = [an_event ''info'' 7]"
proof -
  let ?as = "[Subscribe 1, Publish 5 (an_event ''warn'' 3), Publish 6 (an_event ''info'' 4),
               Publish 7 (an_event ''info'' 0), Release 0]"
  have ok: "ops_ok ?as (newBus 1)"
    by (simp add: newBus_def subscribe_def publish_def Let_def ringed_def stamped_def an_event_def pushRing_def trySend_def)
  obtain b where b: "busRun ?as (newBus 1) = Some b"
      "\<forall>l \<in> {''error'', ''warn'', ''info''}. ringAt l b = history_of (maxPer (newBus 1)) (concat (map published ?as)) l"
    using log_bus_history [OF ok] by blast
  have "ringAt ''warn'' b = [an_event ''warn'' 3]" "ringAt ''info'' b = [an_event ''info'' 7]"
    using b(2) by (simp_all add: history_of_def stamped_def an_event_def levelOf_def newBus_def last_n_def)
  with b(1) show ?thesis by blast
qed

end
