(* ===== verification/Docker.thy ===== *)
theory Docker
  imports Sidecars Go_Url
begin

text \<open>
  Control of the containers (\<open>dockerctl/dockerctl.go\<close>, and its users in \<open>main.go\<close> and
  \<open>api/api.go\<close>). The Docker Engine behind the socket is an argument: a state of its own, whether
  the socket is there, and its answer to a request.
\<close>

section \<open>The client\<close>

text \<open>
  An answer with its status line, and the container identifiers the decoder found in its body
  (\<open>None\<close> when that is not the list asked for).
\<close>

record docker_reply =
  drStatus :: int
  drLine :: string
  drIDs :: "string list option"

record 'e docker =
  dkSocket :: "'e \<Rightarrow> bool"
  dkDo :: "string \<Rightarrow> string \<Rightarrow> 'e \<Rightarrow> 'e \<times> (string + docker_reply)"

datatype docker_error = ErrSocketUnavailable | DockerFailed string

definition listURL :: "string \<Rightarrow> string" where
  "listURL name =
     ''http://docker/containers/json?all=true&filters='' @
     queryEscape (''{'' @ [CHR 0x22] @ ''label'' @ [CHR 0x22] @ '':['' @ [CHR 0x22] @
       ''com.docker.compose.service='' @ name @ [CHR 0x22] @ '']}'')"

text \<open>The first container whose compose service is the given one; empty when there is none.\<close>

definition findContainerByService ::
  "'e docker \<Rightarrow> string \<Rightarrow> 'e \<Rightarrow> 'e \<times> (docker_error + string)" where
  "findContainerByService dk name e =
     (if \<not> dkSocket dk e then (e, Inl ErrSocketUnavailable)
      else case dkDo dk ''GET'' (listURL name) e of
             (e', Inl err) \<Rightarrow> (e', Inl (DockerFailed err))
           | (e', Inr r) \<Rightarrow>
               (e', if drStatus r \<noteq> 200 then Inl (DockerFailed (''docker list: '' @ drLine r))
                    else (case drIDs r of
                            None \<Rightarrow> Inl (DockerFailed ''invalid JSON'')
                          | Some [] \<Rightarrow> Inr []
                          | Some (i # _) \<Rightarrow> Inr i)))"

definition containerURL :: "string \<Rightarrow> string \<Rightarrow> string" where
  "containerURL i verb = ''http://docker/containers/'' @ i @ verb"

text \<open>
  A request for a container: \<open>verb\<close> is the last part of the URL, \<open>good\<close> the statuses that count
  as success.
\<close>

definition containerPost ::
  "string \<Rightarrow> string \<Rightarrow> int list \<Rightarrow> 'e docker \<Rightarrow> string \<Rightarrow> 'e \<Rightarrow> 'e \<times> docker_error option" where
  "containerPost what verb good dk i e =
     (if \<not> dkSocket dk e then (e, Some ErrSocketUnavailable)
      else case dkDo dk ''POST'' (containerURL i verb) e of
             (e', Inl err) \<Rightarrow> (e', Some (DockerFailed err))
           | (e', Inr r) \<Rightarrow>
               (e', if drStatus r \<in> set good then None
                    else Some (DockerFailed (''docker '' @ what @ '' '' @ i @ '': '' @ drLine r))))"

definition stopContainer :: "'e docker \<Rightarrow> string \<Rightarrow> 'e \<Rightarrow> 'e \<times> docker_error option" where
  "stopContainer = containerPost ''stop'' ''/stop?t=5'' [204, 304]"

definition startContainer :: "'e docker \<Rightarrow> string \<Rightarrow> 'e \<Rightarrow> 'e \<times> docker_error option" where
  "startContainer = containerPost ''start'' ''/start'' [204, 304]"

definition restartContainer :: "'e docker \<Rightarrow> string \<Rightarrow> 'e \<Rightarrow> 'e \<times> docker_error option" where
  "restartContainer = containerPost ''restart'' ''/restart?t=5'' [204]"

section \<open>Its users\<close>

text \<open>
  Toggling a sidecar: what became of it. The log lines show the first twelve characters of the
  identifier, and slicing a shorter one panics in a goroutine, which ends the process.
\<close>

datatype control_outcome = LeftAsIs | ControlFailed | Controlled | ControlPanics

definition controlSidecarContainer ::
  "'e docker \<Rightarrow> string \<Rightarrow> bool \<Rightarrow> 'e \<Rightarrow> 'e \<times> control_outcome" where
  "controlSidecarContainer dk kind enable e =
     (if \<not> dkSocket dk e then (e, LeftAsIs)
      else case findContainerByService dk (sidecarDockerService kind) e of
             (e1, Inl _) \<Rightarrow> (e1, LeftAsIs)
           | (e1, Inr i) \<Rightarrow>
               if i = [] then (e1, LeftAsIs)
               else (case (if enable then startContainer dk i e1 else stopContainer dk i e1) of
                       (e2, res) \<Rightarrow>
                         (e2, if length i < 12 then ControlPanics
                              else if res = None then Controlled else ControlFailed)))"

text \<open>A restart of the container of a service, and whether it was done.\<close>

definition restartService :: "'e docker \<Rightarrow> string \<Rightarrow> 'e \<Rightarrow> 'e \<times> bool" where
  "restartService dk service e =
     (case findContainerByService dk service e of
        (e1, Inl _) \<Rightarrow> (e1, False)
      | (e1, Inr i) \<Rightarrow>
          if i = [] then (e1, False)
          else (case restartContainer dk i e1 of (e2, res) \<Rightarrow> (e2, res = None)))"

definition maybeRestartContainer :: "'e docker \<Rightarrow> string \<Rightarrow> 'e \<Rightarrow> 'e \<times> bool" where
  "maybeRestartContainer dk service e =
     (if \<not> dkSocket dk e then (e, False) else restartService dk service e)"

text \<open>The background part of a reload, and of applying the exposure settings.\<close>

definition reloadTask :: "'e docker \<Rightarrow> 'e \<Rightarrow> 'e" where
  "reloadTask dk e = fst (restartService dk ''proxy-core'' e)"

definition applyTask :: "'e docker \<Rightarrow> 'e \<Rightarrow> 'e" where
  "applyTask dk e = foldl (\<lambda>e svc. fst (restartService dk svc e)) e [''web-ui'', ''proxy-core'']"

section \<open>What the engine promises\<close>

text \<open>
  The documented behaviour of the Engine API, over the containers a state has: a list answers
  with the containers of the label and changes nothing, and a start or stop that is answered with
  success has started or stopped that container and no other.
\<close>

record container =
  ctID :: string
  ctService :: string
  ctRunning :: bool

definition setRunning :: "string \<Rightarrow> bool \<Rightarrow> container list \<Rightarrow> container list" where
  "setRunning i v cs = map (\<lambda>c. if ctID c = i then c\<lparr>ctRunning := v\<rparr> else c) cs"

definition engine_laws :: "'e docker \<Rightarrow> ('e \<Rightarrow> container list) \<Rightarrow> bool" where
  "engine_laws dk view \<longleftrightarrow>
     (\<forall>name e e' r. dkDo dk ''GET'' (listURL name) e = (e', Inr r) \<longrightarrow> drStatus r = 200 \<longrightarrow>
        view e' = view e \<and> drIDs r = Some (map ctID (filter (\<lambda>c. ctService c = name) (view e)))) \<and>
     (\<forall>name e. view (fst (dkDo dk ''GET'' (listURL name) e)) = view e) \<and>
     (\<forall>i e e' r. dkDo dk ''POST'' (containerURL i ''/start'') e = (e', Inr r) \<longrightarrow>
        drStatus r \<in> {204, 304} \<longrightarrow> view e' = setRunning i True (view e)) \<and>
     (\<forall>i e e' r. dkDo dk ''POST'' (containerURL i ''/stop?t=5'') e = (e', Inr r) \<longrightarrow>
        drStatus r \<in> {204, 304} \<longrightarrow> view e' = setRunning i False (view e))"

text \<open>Finding a container changes none, and finds the first of the service.\<close>

lemma find_view:
  assumes "engine_laws dk view" "findContainerByService dk name e = (e', x)"
  shows "view e' = view e"
proof -
  have "view (fst (dkDo dk ''GET'' (listURL name) e)) = view e" using assms(1) by (simp add: engine_laws_def)
  with assms(2) show ?thesis by (auto simp: findContainerByService_def split: if_splits prod.splits sum.splits)
qed

lemma find_first:
  assumes "engine_laws dk view" "findContainerByService dk name e = (e', Inr i)"
  shows "i = (case filter (\<lambda>c. ctService c = name) (view e) of [] \<Rightarrow> [] | c # _ \<Rightarrow> ctID c)"
proof -
  obtain r where "dkDo dk ''GET'' (listURL name) e = (e', Inr r)" "drStatus r = 200"
      "(case drIDs r of Some [] \<Rightarrow> Some [] | Some (i # _) \<Rightarrow> Some i | None \<Rightarrow> None) = Some i"
    using assms(2)
    by (auto simp: findContainerByService_def split: if_splits prod.splits sum.splits option.splits list.splits)
  moreover from this(1,2) assms(1) have "drIDs r = Some (map ctID (filter (\<lambda>c. ctService c = name) (view e)))"
    unfolding engine_laws_def by blast
  ultimately show ?thesis by (auto split: list.splits)
qed

lemma containerPost_ok:
  assumes "containerPost what verb good dk i e = (e', None)"
  obtains r where "dkDo dk ''POST'' (containerURL i verb) e = (e', Inr r)" "drStatus r \<in> set good"
  using assms by (auto simp: containerPost_def split: if_splits prod.splits sum.splits)

lemma post_view:
  assumes "engine_laws dk view"
  shows "startContainer dk i e = (e', None) \<Longrightarrow> view e' = setRunning i True (view e)"
    and "stopContainer dk i e = (e', None) \<Longrightarrow> view e' = setRunning i False (view e)"
proof -
  assume "startContainer dk i e = (e', None)"
  then obtain r where "dkDo dk ''POST'' (containerURL i ''/start'') e = (e', Inr r)" "drStatus r \<in> {204, 304}"
    unfolding startContainer_def by (rule containerPost_ok) auto
  with assms show "view e' = setRunning i True (view e)" unfolding engine_laws_def by blast
next
  assume "stopContainer dk i e = (e', None)"
  then obtain r where "dkDo dk ''POST'' (containerURL i ''/stop?t=5'') e = (e', Inr r)" "drStatus r \<in> {204, 304}"
    unfolding stopContainer_def by (rule containerPost_ok) auto
  with assms show "view e' = setRunning i False (view e)" unfolding engine_laws_def by blast
qed

text \<open>
  A toggle that went through started or stopped the first container of the sidecar's service and
  no other; one that left things as they were changed no container.
\<close>

lemma control_outcome:
  assumes "engine_laws dk view" "controlSidecarContainer dk kind enable e = (e', res)"
  shows "res = Controlled \<Longrightarrow>
      \<exists>c cs. filter (\<lambda>c. ctService c = sidecarDockerService kind) (view e) = c # cs \<and>
        view e' = setRunning (ctID c) enable (view e)"
    and "res = LeftAsIs \<Longrightarrow> view e' = view e"
proof -
  assume "res = Controlled"
  with assms(2) obtain e1 i where f: "findContainerByService dk (sidecarDockerService kind) e = (e1, Inr i)" "i \<noteq> []"
      and p: "(if enable then startContainer dk i e1 else stopContainer dk i e1) = (e', None)"
    by (auto simp: controlSidecarContainer_def split: if_splits prod.splits sum.splits)
  from find_first [OF assms(1) f(1)] f(2) obtain c cs where
      "filter (\<lambda>c. ctService c = sidecarDockerService kind) (view e) = c # cs" "ctID c = i"
    by (auto split: list.splits)
  moreover have "view e' = setRunning i enable (view e1)"
    using p post_view [OF assms(1)] by (cases enable) auto
  moreover have "view e1 = view e" by (rule find_view [OF assms(1) f(1)])
  ultimately show "\<exists>c cs. filter (\<lambda>c. ctService c = sidecarDockerService kind) (view e) = c # cs \<and>
      view e' = setRunning (ctID c) enable (view e)"
    by metis
next
  assume "res = LeftAsIs"
  with assms(2) find_view [OF assms(1)] show "view e' = view e"
    by (fastforce simp: controlSidecarContainer_def split: if_splits prod.splits sum.splits)
qed

text \<open>
  An engine that is up in a state: the socket is there, before and after a list; the list is
  answered with status 200; and the start or stop of each container of the service is answered
  with 204 or 304.
\<close>

definition engine_answers :: "'e docker \<Rightarrow> ('e \<Rightarrow> container list) \<Rightarrow> string \<Rightarrow> bool \<Rightarrow> 'e \<Rightarrow> bool" where
  "engine_answers dk view svc enable e \<longleftrightarrow>
     dkSocket dk e \<and>
     (\<exists>e1 r. dkDo dk ''GET'' (listURL svc) e = (e1, Inr r) \<and> drStatus r = 200 \<and> dkSocket dk e1 \<and>
        (\<forall>c \<in> set (view e). ctService c = svc \<longrightarrow>
           (\<exists>e2 r2. dkDo dk ''POST'' (containerURL (ctID c) (if enable then ''/start'' else ''/stop?t=5'')) e1 = (e2, Inr r2) \<and>
              drStatus r2 \<in> {204, 304})))"

lemma answered_find:
  assumes "engine_laws dk view" "engine_answers dk view svc enable e"
    and "filter (\<lambda>c. ctService c = svc) (view e) = c # cs"
  obtains e1 e2 where "findContainerByService dk svc e = (e1, Inr (ctID c))"
    "(if enable then startContainer dk (ctID c) e1 else stopContainer dk (ctID c) e1) = (e2, None)"
proof -
  have c: "c \<in> set (view e)" "ctService c = svc" using assms(3) by (auto dest: filter_eq_ConsD)
  with assms(2) obtain e1 r e2 r2 where up: "dkSocket dk e" "dkDo dk ''GET'' (listURL svc) e = (e1, Inr r)" "drStatus r = 200"
      "dkSocket dk e1" "drStatus r2 \<in> {204, 304}"
      "dkDo dk ''POST'' (containerURL (ctID c) (if enable then ''/start'' else ''/stop?t=5'')) e1 = (e2, Inr r2)"
    unfolding engine_answers_def by blast
  from up(2,3) assms(1) have "drIDs r = Some (map ctID (filter (\<lambda>c. ctService c = svc) (view e)))"
    unfolding engine_laws_def by blast
  with up(1-3) assms(3) have "findContainerByService dk svc e = (e1, Inr (ctID c))"
    by (simp add: findContainerByService_def)
  moreover have "(if enable then startContainer dk (ctID c) e1 else stopContainer dk (ctID c) e1) = (e2, None)"
    using up(4-6) by (auto simp: startContainer_def stopContainer_def containerPost_def split: if_splits)
  ultimately show thesis by (rule that)
qed

text \<open>
  With an engine that answers, a toggle does its work: the first container of the service is
  started or stopped.
\<close>

lemma control_works:
  assumes "engine_laws dk view" "engine_answers dk view (sidecarDockerService kind) enable e"
    and "filter (\<lambda>c. ctService c = sidecarDockerService kind) (view e) = c # cs" "12 \<le> length (ctID c)"
  shows "\<exists>e'. controlSidecarContainer dk kind enable e = (e', Controlled) \<and>
    view e' = setRunning (ctID c) enable (view e)"
proof -
  obtain e1 e2 where f: "findContainerByService dk (sidecarDockerService kind) e = (e1, Inr (ctID c))"
      "(if enable then startContainer dk (ctID c) e1 else stopContainer dk (ctID c) e1) = (e2, None)"
    by (rule answered_find [OF assms(1-3)])
  moreover have "dkSocket dk e" using assms(2) by (simp add: engine_answers_def)
  moreover have "ctID c \<noteq> []" using assms(4) by auto
  ultimately have r: "controlSidecarContainer dk kind enable e = (e2, Controlled)"
    using assms(4) by (simp add: controlSidecarContainer_def)
  with control_outcome(1) [OF assms(1) r] assms(3) show ?thesis by auto
qed

text \<open>Without a container of the service, nothing is done, whatever the engine answers.\<close>

lemma control_nothing:
  assumes "engine_laws dk view" "filter (\<lambda>c. ctService c = sidecarDockerService kind) (view e) = []"
  shows "\<exists>e'. controlSidecarContainer dk kind enable e = (e', LeftAsIs) \<and> view e' = view e"
proof -
  obtain e1 x where f: "findContainerByService dk (sidecarDockerService kind) e = (e1, x)" by fastforce
  have "x = Inr i \<Longrightarrow> i = []" for i using find_first [OF assms(1)] f assms(2) by fastforce
  with f find_view [OF assms(1) f] show ?thesis
    by (cases x) (auto simp: controlSidecarContainer_def)
qed

section \<open>A small engine\<close>

text \<open>
  An engine whose state is its containers: it answers every list, and a start or stop of a
  container it has. The path of a request ends in the verb.
\<close>

definition smallEngine :: "(container list) docker" where
  "smallEngine =
     \<lparr>dkSocket = (\<lambda>_. True),
      dkDo = (\<lambda>meth url cs.
        if meth = ''GET'' then
          (cs, Inr \<lparr>drStatus = 200, drLine = ''200 OK'',
                    drIDs = Some (map ctID (filter (\<lambda>c. listURL (ctService c) = url) cs))\<rparr>)
        else
          (let i = drop 25 url; ok = Inr \<lparr>drStatus = 204, drLine = ''204 No Content'', drIDs = None\<rparr>
           in if hasSuffix url ''/start'' then (setRunning (trimSuffix i ''/start'') True cs, ok)
              else if hasSuffix url ''/stop?t=5'' then (setRunning (trimSuffix i ''/stop?t=5'') False cs, ok)
              else (cs, Inl ''no such request'')))\<rparr>"

lemma queryEscape_inj: "queryEscape a = queryEscape b \<Longrightarrow> a = b"
  by (metis option.inject unescape_queryEscape)

lemma listURL_inj [simp]: "listURL a = listURL b \<longleftrightarrow> a = b"
proof
  assume "listURL a = listURL b"
  note queryEscape_inj [OF this [unfolded listURL_def same_append_eq]]
  then show "a = b" by (simp only: same_append_eq append_same_eq)
qed simp

lemma containerURL_parts:
  "\<not> hasSuffix (containerURL i ''/stop?t=5'') ''/start''" "trimSuffix (drop 25 (containerURL i v)) v = i"
  "hasSuffix (containerURL i v) v"
  by (auto simp: hasSuffix_append containerURL_def trimSuffix_def dest!: arg_cong [where f = last])

lemma smallEngine_laws: "engine_laws smallEngine (\<lambda>cs. cs)"
  unfolding engine_laws_def smallEngine_def by (auto simp: containerURL_parts Let_def split: if_splits)

lemma smallEngine_answers: "engine_answers smallEngine view svc enable cs"
  by (simp add: engine_answers_def smallEngine_def containerURL_parts Let_def)

lemma smallEngine_calls:
  "dkSocket smallEngine cs"
  "findContainerByService smallEngine nm cs =
     (cs, Inr (case filter (\<lambda>c. ctService c = nm) cs of [] \<Rightarrow> [] | c # _ \<Rightarrow> ctID c))"
  "startContainer smallEngine i cs = (setRunning i True cs, None)"
  "stopContainer smallEngine i cs = (setRunning i False cs, None)"
  by (simp_all add: smallEngine_def findContainerByService_def startContainer_def stopContainer_def containerPost_def
      containerURL_parts Let_def split: list.split)

end
