(* ===== verification/Api_Live.thy ===== *)
theory Api_Live
  imports Api_Sources Logbus Docker "HOL-Library.List_Lexorder" "HOL-Library.Char_ord"
begin

text \<open>
  The handlers of \<open>api/api.go\<close> that report on the running program: endpoints, sources,
  counters, flows, logs, addresses and diagnostics, and the hub that pushes updates to the
  WebSocket clients.
\<close>

section \<open>Replies\<close>

text \<open>
  A map is a function here, so the encoder is told the keys it has. Encoded structures have the
  names of their tags, or of their fields where there are none.
\<close>

definition endpointJSON :: "(config \<Rightarrow> string list) \<Rightarrow> endpoint \<Rightarrow> json" where
  "endpointJSON keys e = JObj
     [(''ID'', JStr (ID e)), (''Protocol'', JStr (Protocol e)), (''Name'', JStr (Name e)),
      (''Address'', JStr (Address e)), (''RawURI'', JStr (RawURI e)), (''Source'', JStr (Source e)),
      (''Config'', JObj (map (\<lambda>k. (k, JStr (cget (Config e) k))) (keys (Config e)))),
      (''Priority'', JNum (Priority e)), (''Enabled'', JBool (Enabled e)),
      (''LatencyMs'', JNum (LatencyMs e)), (''Status'', JStr (Status e))]"

definition endpointsJSON :: "(config \<Rightarrow> string list) \<Rightarrow> endpoint list \<Rightarrow> json" where
  "endpointsJSON keys eps = JObj [(''endpoints'', JArr (map (endpointJSON keys) eps))]"

definition handleEndpoints :: "(config \<Rightarrow> string list) \<Rightarrow> balancer \<Rightarrow> response" where
  "handleEndpoints keys b = writeJSON (endpointsJSON keys (endpoints b))"

definition handleHealth :: response where
  "handleHealth = writeJSON (JObj [(''ok'', JBool True)])"

definition flowJSON :: "flow \<Rightarrow> json" where
  "flowJSON fl = JObj
     ([(''id'', JNum (int (fID fl))), (''opened_unix'', JNum (OpenedUnix fl))] @
      (if ClosedUnix fl \<noteq> 0 then [(''closed_unix'', JNum (ClosedUnix fl))] else []) @
      [(''client'', JStr (Client fl)), (''dest'', JStr (Dest fl)), (''endpoint_id'', JStr (EndpointID fl)),
       (''protocol'', JStr (fProtocol fl)), (''bytes_up'', JNum (fBytesUp fl)),
       (''bytes_down'', JNum (fBytesDown fl)), (''result'', JStr (Result fl))])"

definition handleFlows :: "balancer \<Rightarrow> response" where
  "handleFlows b = writeJSON (JObj [(''flows'', JArr (map flowJSON (flowSnapshot (bflows b))))])"

section \<open>Counters\<close>

definition statFields :: "endpoint_stat \<Rightarrow> (string \<times> json) list" where
  "statFields st =
     [(''id'', JStr (sID st)), (''dials'', JNum (Dials st)), (''dial_errors'', JNum (DialErrors st)),
      (''failovers'', JNum (Failovers st)), (''bytes_up'', JNum (sBytesUp st)), (''bytes_down'', JNum (sBytesDown st)),
      (''last_dial_unix'', JNum (LastDialUnix st)), (''last_error_unix'', JNum (LastErrorUnix st))] @
     optField ''last_error'' (LastError st)"

text \<open>
  A row joins the counters with the endpoint of that identifier, the last one in the pool; the
  counters of an endpoint that is gone have empty fields.
\<close>

definition endpointByID :: "endpoint list \<Rightarrow> string \<Rightarrow> endpoint option" where
  "endpointByID eps = map_of (map (\<lambda>e. (ID e, e)) (rev eps))"

definition statRow :: "endpoint list \<Rightarrow> endpoint_stat \<Rightarrow> json" where
  "statRow eps st =
     (let e = (case endpointByID eps (sID st) of Some e \<Rightarrow> e | None \<Rightarrow> zero_endpoint)
      in JObj (statFields st @
           [(''name'', JStr (Name e)), (''protocol'', JStr (Protocol e))] @
           optField ''sidecar_kind'' (cget (Config e) ''sidecar_kind'') @ optField ''source'' (Source e) @
           [(''address'', JStr (Address e)), (''status'', JStr (Status e)), (''latency_ms'', JNum (LatencyMs e))]))"

definition handleStats :: "balancer \<Rightarrow> response" where
  "handleStats b = writeJSON (JObj
     [(''strategy'', JStr (strategy b)),
      (''rows'', JArr (map (statRow (endpoints b)) (statsSnapshot (bstats b))))])"

section \<open>Strategy and logs\<close>

definition handleStrategy :: "http_req \<Rightarrow> balancer \<Rightarrow> balancer \<times> response" where
  "handleStrategy req b =
     (if hqMethod req \<noteq> ''POST'' then (b, httpError ''POST required'' 405)
      else (case hqBody req of
              StrategyBody s \<Rightarrow>
                if s \<in> {''latency'', ''priority'', ''weighted''} then
                  (setStrategy s b, okNote [(''strategy'', JStr s)])
                else (b, httpError ''strategy must be latency|priority|weighted'' 400)
            | _ \<Rightarrow> (b, httpError ''invalid JSON'' 400)))"

definition eventJSON :: "event \<Rightarrow> json" where
  "eventJSON ev = JObj
     [(''ts'', JNum (evTs ev)), (''level'', JStr (evLevel ev)), (''source'', JStr (evSource ev)),
      (''message'', JStr (evMessage ev))]"

definition wantedEvents :: "string \<Rightarrow> event list \<Rightarrow> event list" where
  "wantedEvents want evs =
     (if want = [] then evs
      else filter (\<lambda>ev. evLevel ev \<in> set (map trimSpace (splitOn (CHR '','') want))) evs)"

definition handleLogs :: "http_req \<Rightarrow> bus \<Rightarrow> response" where
  "handleLogs req lb = writeJSON (JObj
     [(''events'', JArr (map eventJSON (wantedEvents (cget (hqQuery req) ''level'') (busSnapshot lb))))])"

section \<open>Sources\<close>

text \<open>What the YAML decoder reads of the configuration; a sidecar is its kind and \<open>config.source\<close>.\<close>

record listed_source =
  lsName :: string
  lsURL :: string
  lsFile :: string
  lsWireGuard :: "string list"
  lsOrigin :: string

record sources_view =
  svURL :: string
  svFile :: string
  svWireGuard :: "string list"
  svSources :: "listed_source list"
  svSidecars :: "(string \<times> string) list"

definition tagsFor :: "(string \<times> string) list \<Rightarrow> string \<Rightarrow> string \<Rightarrow> string \<Rightarrow> string list \<Rightarrow> string list" where
  "tagsFor sidecars nm file url wg =
     (if file \<noteq> [] \<or> url \<noteq> [] then [''subscription''] else []) @
     (if wg \<noteq> [] then [''wireguard''] else []) @
     sort (map fst (filter (\<lambda>(kind, src). src \<noteq> [] \<and> src = nm) sidecars))"

definition endpointsBySource :: "endpoint list \<Rightarrow> string \<Rightarrow> nat" where
  "endpointsBySource eps nm = length (filter (\<lambda>e. Source e = nm) eps)"

definition healthyBySource :: "endpoint list \<Rightarrow> string \<Rightarrow> nat" where
  "healthyBySource eps nm = length (filter (\<lambda>e. Source e = nm \<and> Status e = ''ok'' \<and> Enabled e) eps)"

record source_row =
  rwName :: string
  rwFile :: string
  rwURL :: string
  rwWGFiles :: "string list"
  rwTags :: "string list"
  rwIsMoav :: bool
  rwEndpoints :: nat
  rwHealthy :: nat

definition sourceRow ::
  "sources_view \<Rightarrow> endpoint list \<Rightarrow> bool \<Rightarrow> string \<Rightarrow> string \<Rightarrow> string \<Rightarrow> string list \<Rightarrow> source_row" where
  "sourceRow v eps moav nm file url wg =
     \<lparr>rwName = nm, rwFile = file, rwURL = url, rwWGFiles = wg, rwTags = tagsFor (svSidecars v) nm file url wg,
      rwIsMoav = moav, rwEndpoints = endpointsBySource eps nm, rwHealthy = healthyBySource eps nm\<rparr>"

definition sourceRows :: "sources_view \<Rightarrow> endpoint list \<Rightarrow> source_row list" where
  "sourceRows v eps =
     (if svFile v \<noteq> [] \<or> svURL v \<noteq> [] \<or> svWireGuard v \<noteq> []
      then [sourceRow v eps True ''default'' (svFile v) (svURL v) (svWireGuard v)] else []) @
     map (\<lambda>s. sourceRow v eps (lsOrigin s \<noteq> ''custom'') (lsName s) (lsFile s) (lsURL s) (lsWireGuard s)) (svSources v)"

definition rowJSON :: "source_row \<Rightarrow> json" where
  "rowJSON r = JObj
     ([(''name'', JStr (rwName r))] @ optField ''file'' (rwFile r) @ optField ''url'' (rwURL r) @
      (if rwWGFiles r \<noteq> [] then [(''wireguard_files'', strings (rwWGFiles r))] else []) @
      [(''tags'', strings (rwTags r)), (''is_moav'', JBool (rwIsMoav r)),
       (''endpoints'', JNum (int (rwEndpoints r))), (''healthy'', JNum (int (rwHealthy r)))])"

definition handleSources ::
  "api_env \<Rightarrow> (string \<Rightarrow> sources_view option) \<Rightarrow> http_req \<Rightarrow> endpoint list \<Rightarrow> disk \<Rightarrow> disk \<times> response" where
  "handleSources env unmarshal req eps d =
     (if hqMethod req = ''POST'' then handleAddSource env req d
      else (d, case d (configPath env) of
                 None \<Rightarrow> httpError ''read config'' 500
               | Some raw \<Rightarrow>
                   (case unmarshal raw of
                      None \<Rightarrow> httpError ''parse config'' 500
                    | Some v \<Rightarrow> writeJSON (JObj
                        [(''sources'', JArr (map rowJSON (sourceRows v eps))),
                         (''note'', JStr ''Editing requires moav-client restart to fully reload subscriptions.'')]))))"

section \<open>Addresses\<close>

text \<open>The body of the trace reply, \<open>None\<close> when it could not be read.\<close>

fun traceLines :: "string list \<Rightarrow> string \<times> string \<Rightarrow> string \<times> string" where
  "traceLines [] st = st"
| "traceLines (line # rest) (ip, cc) =
     traceLines rest
       (if hasPrefix line ''ip='' then (trimSpace (trimPrefix line ''ip=''), cc)
        else if hasPrefix line ''loc='' then (ip, trimSpace (trimPrefix line ''loc=''))
        else (ip, cc))"

definition lookupIPCountry :: "string option \<Rightarrow> string \<times> string" where
  "lookupIPCountry body =
     (case body of
        None \<Rightarrow> ([], [])
      | Some raw \<Rightarrow>
          (case traceLines (splitOn (CHR 0x0A) (take 4096 raw)) ([], []) of (ip, cc) \<Rightarrow> (ip, toUpper cc)))"

text \<open>An address, its country, when it was learnt (nanoseconds), and whether a lookup is under way.\<close>

record ip_cache =
  icIP :: string
  icCountry :: string
  icAt :: int
  icRefreshing :: bool

definition cacheRead :: "ip_cache \<Rightarrow> string \<times> string" where
  "cacheRead c = (icIP c, icCountry c)"

definition ipTTL :: int where
  "ipTTL = 5 * 60 * 10 ^ 9"

text \<open>\<open>MaybeRefresh\<close>: whether a lookup is started, and what it does when it ends.\<close>

definition maybeRefresh :: "int \<Rightarrow> ip_cache \<Rightarrow> ip_cache \<times> bool" where
  "maybeRefresh now c =
     (if icRefreshing c \<or> (now - icAt c < ipTTL \<and> icIP c \<noteq> []) then (c, False)
      else (c\<lparr>icRefreshing := True\<rparr>, True))"

definition refreshDone :: "int \<Rightarrow> string \<times> string \<Rightarrow> ip_cache \<Rightarrow> ip_cache" where
  "refreshDone now found c =
     (case found of (ip, cc) \<Rightarrow>
        (if ip \<noteq> [] then c\<lparr>icIP := ip, icCountry := cc, icAt := now, icRefreshing := False\<rparr>
         else c\<lparr>icRefreshing := False\<rparr>))"

record build_info =
  biVersion :: string
  biCommit :: string

definition versionJSON :: "build_info \<Rightarrow> int \<Rightarrow> ip_cache \<Rightarrow> ip_cache \<Rightarrow> json" where
  "versionJSON bi uptime direct prx = JObj
     [(''version'', JStr (biVersion bi)), (''commit'', JStr (biCommit bi)), (''uptime_sec'', JNum uptime),
      (''public_ip'', JStr (fst (cacheRead direct))), (''direct_ip'', JStr (fst (cacheRead direct))),
      (''direct_country'', JStr (snd (cacheRead direct))), (''proxy_ip'', JStr (fst (cacheRead prx))),
      (''proxy_country'', JStr (snd (cacheRead prx)))]"

section \<open>Diagnostics\<close>

text \<open>
  What the machine answers: dials, directly and through a SOCKS5 address (after which the SOCKS5
  package refused to build a dialer), name lookups, which trace programs there are and what they
  print, and dials with a limited TTL. An error is its text.
\<close>

record diag_env =
  dgRTT :: int
  dgDial :: "string \<Rightarrow> string option"
  dgSocks :: "string \<Rightarrow> string option"
  dgSocksDial :: "string \<Rightarrow> string \<Rightarrow> string option"
  dgLookup :: "string \<Rightarrow> string + string list"
  dgHas :: "string \<Rightarrow> bool"
  dgRun :: "string \<Rightarrow> string \<Rightarrow> string \<times> string option"
  dgTTL :: "nat \<Rightarrow> string \<Rightarrow> string + string"

definition diagResult :: "(string \<times> json) list \<Rightarrow> string option \<Rightarrow> response" where
  "diagResult kvs err =
     writeJSON (JObj (kvs @ (case err of Some e \<Rightarrow> [(''ok'', JBool False), (''error'', JStr e)] | None \<Rightarrow> [(''ok'', JBool True)])))"

definition diagTCP :: "diag_env \<Rightarrow> endpoint list \<Rightarrow> string \<Rightarrow> string \<Rightarrow> response" where
  "diagTCP dg eps target via =
     (let res = [(''type'', JStr ''tcp''), (''target'', JStr target), (''via'', JStr via), (''rtt_ms'', JNum (dgRTT dg))]
      in if via = [] then diagResult res (dgDial dg target)
         else (case find (\<lambda>e. ID e = via) eps of
                 None \<Rightarrow> httpError (''no such endpoint: '' @ via) 404
               | Some picked \<Rightarrow>
                   (let socksAddr = cget (Config picked) ''socks5_addr''
                    in if socksAddr = [] then httpError ''endpoint has no socks5_addr (can't dial through it)'' 400
                       else (case dgSocks dg socksAddr of
                               Some _ \<Rightarrow> httpError ''build SOCKS5 dialer'' 500
                             | None \<Rightarrow> diagResult res (dgSocksDial dg socksAddr target)))))"

definition diagDNS :: "diag_env \<Rightarrow> string \<Rightarrow> response" where
  "diagDNS dg hostName =
     (let res = (\<lambda>found. [(''type'', JStr ''dns''), (''target'', JStr hostName), (''rtt_ms'', JNum (dgRTT dg)), (''ips'', found)])
      in case dgLookup dg hostName of
           Inl e \<Rightarrow> diagResult (res JNull) (Some e)
         | Inr addrs \<Rightarrow> diagResult (res (strings addrs)) None)"

definition traceBinaries :: "string list" where
  "traceBinaries = [''/usr/bin/traceroute'', ''/usr/sbin/traceroute'', ''/bin/tracepath'', ''/usr/bin/tracepath'']"

definition diagTrace :: "diag_env \<Rightarrow> string \<Rightarrow> response" where
  "diagTrace dg target =
     (let hostName = (case splitHostPort target of Inr (h, _) \<Rightarrow> h | Inl _ \<Rightarrow> target)
      in case find (dgHas dg) traceBinaries of
           Some bin \<Rightarrow>
             (case dgRun dg bin hostName of
                (out, err) \<Rightarrow> writeJSON (JObj
                  [(''type'', JStr ''trace''), (''target'', JStr target), (''binary'', JStr bin), (''output'', JStr out),
                   (''ok'', JBool (err = None)), (''error'', JStr (case err of Some e \<Rightarrow> e | None \<Rightarrow> []))]))
         | None \<Rightarrow> writeJSON (JObj
             [(''type'', JStr ''trace''), (''target'', JStr target),
              (''binary'', JStr (''(none '' @ [CHR 0xE2, CHR 0x80, CHR 0x94] @ '' using TCP-TTL fallback)'')),
              (''hops'', JArr (map (\<lambda>ttl. JObj
                 ([(''ttl'', JNum (int ttl)), (''rtt_ms'', JNum (dgRTT dg))] @
                  (case dgTTL dg ttl target of
                     Inl e \<Rightarrow> [(''error'', JStr e)]
                   | Inr peer \<Rightarrow> [(''ok'', JBool True), (''peer'', JStr peer)]))) [1..<9]))]))"

text \<open>A target without a port gets \<open>:443\<close> where a port is needed.\<close>

definition diagTarget :: "string \<Rightarrow> string \<Rightarrow> string" where
  "diagTarget kind target =
     (if kind \<in> {[], ''tcp'', ''trace''} then (case splitHostPort target of Inr _ \<Rightarrow> target | Inl _ \<Rightarrow> target @ '':443'')
      else target)"

definition handleDiag :: "diag_env \<Rightarrow> http_req \<Rightarrow> endpoint list \<Rightarrow> response" where
  "handleDiag dg req eps =
     (let target0 = trimSpace (cget (hqQuery req) ''target''); kind = cget (hqQuery req) ''type'';
          via = cget (hqQuery req) ''via''; target = diagTarget kind target0
      in if target0 = [] then httpError ''target query required'' 400
         else if kind = [] \<or> kind = ''tcp'' then diagTCP dg eps target via
         else if kind = ''dns'' then diagDNS dg (case splitHostPort target of Inr (h, _) \<Rightarrow> h | Inl _ \<Rightarrow> target)
         else if kind = ''trace'' then diagTrace dg target
         else httpError ''type must be tcp|dns|trace'' 400)"

section \<open>The hub\<close>

text \<open>
  The clients of the WebSocket hub, by the number of their connection: the frames queued for
  each, and its subscription to the log bus.
\<close>

record ws_client =
  wcConn :: nat
  wcQueue :: "json list"
  wcLog :: nat

definition queueCap :: nat where
  "queueCap = 8"

text \<open>A frame for every client; one whose queue is full misses it.\<close>

definition broadcast :: "json \<Rightarrow> ws_client list \<Rightarrow> ws_client list" where
  "broadcast frame cs =
     map (\<lambda>c. if length (wcQueue c) < queueCap then c\<lparr>wcQueue := wcQueue c @ [frame]\<rparr> else c) cs"

text \<open>
  \<open>handleWebSocket\<close> in steps: the client joins, with its first frame; it is sent one frame of
  its queue or one event of its log channel; or it leaves, when a send fails. Leaving releases
  the subscription, and a release that panics ends the process (\<open>None\<close>).
\<close>

definition wsJoin :: "nat \<Rightarrow> ws_client list \<times> bus \<Rightarrow> ws_client list \<times> bus" where
  "wsJoin conn st =
     (case st of (cs, lb) \<Rightarrow>
        (case subscribe 64 lb of (lb', i) \<Rightarrow> (cs @ [\<lparr>wcConn = conn, wcQueue = [], wcLog = i\<rparr>], lb')))"

definition wsTake :: "nat \<Rightarrow> ws_client list \<times> bus \<Rightarrow> (ws_client list \<times> bus) \<times> json option" where
  "wsTake conn st =
     (case st of (cs, lb) \<Rightarrow>
        (case find (\<lambda>c. wcConn c = conn) cs of
           None \<Rightarrow> (st, None)
         | Some c \<Rightarrow>
             (case wcQueue c of
                [] \<Rightarrow> (st, None)
              | f # fs \<Rightarrow> ((update_first (\<lambda>c. wcConn c = conn) (\<lambda>c. c\<lparr>wcQueue := fs\<rparr>) cs, lb), Some f))))"

definition wsTakeLog :: "nat \<Rightarrow> ws_client list \<times> bus \<Rightarrow> (ws_client list \<times> bus) \<times> json option" where
  "wsTakeLog conn st =
     (case st of (cs, lb) \<Rightarrow>
        (case find (\<lambda>c. wcConn c = conn) cs of
           None \<Rightarrow> (st, None)
         | Some c \<Rightarrow>
             (case chBuf (chans lb ! wcLog c) of
                [] \<Rightarrow> (st, None)
              | ev # _ \<Rightarrow> ((cs, receive (wcLog c) lb), Some (JObj [(''log'', eventJSON ev)])))))"

definition wsLeave :: "nat \<Rightarrow> ws_client list \<times> bus \<Rightarrow> (ws_client list \<times> bus) option" where
  "wsLeave conn st =
     (case st of (cs, lb) \<Rightarrow>
        (case find (\<lambda>c. wcConn c = conn) cs of
           None \<Rightarrow> Some st
         | Some c \<Rightarrow>
             map_option (\<lambda>lb'. (filter (\<lambda>c. wcConn c \<noteq> conn) cs, lb')) (release (wcLog c) lb)))"

end
