(* ===== verification/Api_Config.thy ===== *)
theory Api_Config
  imports Api_Sources
begin

text \<open>
  What edits of \<open>config.yaml\<close> from the dashboard keep and what a restart makes of them.
\<close>

section \<open>One edit\<close>

lemma editConfig_Written:
  assumes "editConfig env fn d = (d', Written)"
  obtains doc root root' out where
    "parseDoc (aeYAML env) (configPath env) d = Some doc" "root = documentRoot doc" "fn root = Some root'"
    "yMarshal (aeYAML env) (withRoot root' doc) = Some out" "d' = d(configPath env \<mapsto> out)"
  using assms
  by (auto simp: editConfig_def editYAMLFile_def split: option.splits prod.splits if_splits dest!: writeFile_ok)

lemma editConfig_unwritten: "editConfig env fn d = (d', res) \<Longrightarrow> res \<notin> {Written, WriteError} \<Longrightarrow> d' = d"
  by (auto simp: editConfig_def editYAMLFile_def split: option.splits prod.splits if_splits)

text \<open>A document that \<open>yaml.v3\<close> has written is not empty and is read back as it was.\<close>

definition reads_back :: "yaml_lib \<Rightarrow> ynode \<Rightarrow> bool" where
  "reads_back y doc \<longleftrightarrow> (\<forall>out. yMarshal y doc = Some out \<longrightarrow> out \<noteq> [] \<and> yUnmarshal y out = Some doc)"

lemma documentRoot_withRoot [simp]: "documentRoot (withRoot r doc) = r"
  by (auto simp: documentRoot_def withRoot_def)

lemma withRoot_twice [simp]: "withRoot r (withRoot r' doc) = withRoot r doc"
  by (simp add: withRoot_def)

lemma withRoot_same: "documentRoot doc = r \<Longrightarrow> r \<noteq> emptyMap \<Longrightarrow> withRoot r doc = doc"
  by (cases doc) (auto simp: documentRoot_def withRoot_def split: if_splits list.splits)

lemma parseDoc_written:
  assumes "reads_back (aeYAML env) doc" "yMarshal (aeYAML env) doc = Some out"
  shows "parseDoc (aeYAML env) (configPath env) (d(configPath env \<mapsto> out)) = Some doc"
  using assms by (auto simp: parseDoc_def reads_back_def)

lemma configRoot_written:
  assumes "reads_back (aeYAML env) (withRoot r doc)" "yMarshal (aeYAML env) (withRoot r doc) = Some out"
  shows "configRoot env (d(configPath env \<mapsto> out)) = Some r"
  using parseDoc_written [OF assms] by (simp add: configRoot_def)

section \<open>Sources\<close>

lemma childAt_onSources [simp]:
  "wf_map root \<Longrightarrow> childAt ''subscription'' (onChild ''subscription'' (onSeq ''sources'' f) root) =
     onSeq ''sources'' f (childAt ''subscription'' root)"
  using onSeq_meta(1) [of "''sources''" f "childAt ''subscription'' root"]
  by (auto simp: childAt_def emptyMap_def split: option.splits)

lemma seqAt_onSeq [simp]:
  "wf_map m \<Longrightarrow> seqAt k (onSeq k f m) = withContent (f (nContent (seqAt k m))) (seqAt k m)"
  by (auto simp: seqAt_def [of k "onSeq k f m"]) (auto simp: seqAt_def emptySeq_def split: option.splits if_splits)

definition wf_root :: "ynode \<Rightarrow> bool" where
  "wf_root root \<longleftrightarrow> wf_map root \<and> wf_map (childAt ''subscription'' root)"

text \<open>
  Two trees that differ at most in the entries of the list of sources: node by node, with the key
  nodes and the order, except that a section or a list that was not there has been made.
\<close>

definition same_but_sources :: "ynode \<Rightarrow> ynode \<Rightarrow> bool" where
  "same_but_sources r r' \<longleftrightarrow>
     (let sub = childAt ''subscription'' r; sub' = childAt ''subscription'' r'
      in same_but_at ''subscription'' r r' \<and> same_but_at ''sources'' sub sub' \<and>
         seqAt ''sources'' sub' = withContent (sourcesOf r') (seqAt ''sources'' sub))"

text \<open>The section and the list are there.\<close>

definition has_sources :: "ynode \<Rightarrow> bool" where
  "has_sources r \<longleftrightarrow>
     (let sub = childAt ''subscription'' r
      in yget ''subscription'' r = Some sub \<and> yget ''sources'' sub = Some (seqAt ''sources'' sub))"

lemma onSources:
  assumes "wf_root root" "root' = onChild ''subscription'' (onSeq ''sources'' f) root"
  shows "sourcesOf root' = f (sourcesOf root) \<and> same_but_sources root root' \<and> wf_root root'"
  using assms by (simp add: sourcesOf_def same_but_sources_def wf_root_def)

lemma onSources_id:
  assumes "wf_root root" "has_sources root"
  shows "onChild ''subscription'' (onSeq ''sources'' (\<lambda>c. c)) root = root"
  using assms setNode_same by (simp add: onChild_eq onSeq_eq has_sources_def wf_root_def Let_def)

lemma has_sources_doc:
  assumes "has_sources (documentRoot doc)"
  shows "withRoot (documentRoot doc) doc = doc"
proof (rule withRoot_same)
  show "documentRoot doc \<noteq> emptyMap" using assms by (auto simp: has_sources_def Let_def)
qed simp

lemma handleAddSource_ok:
  assumes "handleAddSource env req d = (d', r)" "rsStatus r = 200" "hqBody req = SourceBody body"
    and "sanitizeSourceName (sbName body) = nm" "pastedSource body = (url, uris)"
  shows "nm \<noteq> [] \<and>
    editConfig env (addSourceEdit nm (yNodeOf (aeYAML env) (sourceEntry nm url)))
      (if url \<noteq> [] then d else d(sourceFile nm \<mapsto> uris @ [CHR 0x0A])) = (d', Written)"
  using assms
  by (auto simp: handleAddSource_def httpError_def Let_def split: if_splits prod.splits bool.splits edit_res.splits
      dest!: writeFile_ok)

text \<open>Removing the source that was added last undoes the addition, up to what it had to make.\<close>

lemma removeSource_added:
  assumes "removeSource y nm (appendSource item root) = Removed root2" "nm \<noteq> ''default''" "wf_root root"
    and "isSourceNamed nm item" "\<not> list_ex (isSourceNamed nm) (sourcesOf root)"
  shows "root2 = onChild ''subscription'' (onSeq ''sources'' (\<lambda>c. c)) root"
proof -
  let ?r = "appendSource item root" and ?S = "childAt ''subscription'' root"
  let ?Q = "seqAt ''sources'' ?S"
  from assms(1,2) obtain sub srcs where s: "yget ''subscription'' ?r = Some sub" "nKind sub = MappingNode"
      "yget ''sources'' sub = Some srcs" "nKind srcs = SequenceNode"
      "root2 = setNode ''subscription''
         (setNode ''sources'' (withContent (filter (\<lambda>i. \<not> isSourceNamed nm i) (nContent srcs)) srcs) sub) ?r"
    by (auto simp: removeSource_def split: option.splits if_splits)
  have w: "wf_map root" "wf_map ?S" using assms(3) by (simp_all add: wf_root_def)
  have "childAt ''subscription'' ?r = sub" using s(1,2) by (simp add: childAt_def)
  then have sub: "sub = onSeq ''sources'' (\<lambda>c. c @ [item]) ?S" using w by (simp add: appendSource_def)
  moreover have "seqAt ''sources'' sub = srcs" using s(3,4) by (simp add: seqAt_def)
  ultimately have "srcs = withContent (nContent ?Q @ [item]) ?Q" using w by simp
  moreover have "filter (\<lambda>i. \<not> isSourceNamed nm i) (nContent ?Q @ [item]) = nContent ?Q"
    using assms(4,5) by (simp add: sourcesOf_def filter_id_conv list_ex_iff)
  ultimately show ?thesis
    using w by (simp add: s(5) sub onChild_eq onSeq_eq appendSource_def setNode_twice)
qed

lemma handleSourceByName_ok:
  assumes "handleSourceByName env req d = (d', r)" "rsStatus r = 200" "hqMethod req = ''DELETE''"
    and "hqPath req = ''/api/sources/'' @ nm"
  shows "editConfig env (removeEdit (aeYAML env) nm) d = (d', Written) \<and>
    (\<exists>root root'. configRoot env d = Some root \<and> removeSource (aeYAML env) nm root = Removed root')"
proof -
  have "trimPrefix (hqPath req) ''/api/sources/'' = nm" by (simp add: assms(4) trimPrefix_def hasPrefix_def)
  then show ?thesis
    using assms(1-3)
    by (auto simp: handleSourceByName_def httpError_def Let_def split: if_splits prod.splits option.splits remove_res.splits)
qed

definition nodeOf_named :: "yaml_lib \<Rightarrow> bool" where
  "nodeOf_named y \<longleftrightarrow> (\<forall>nm rest. isSourceNamed nm (yNodeOf y (YMap ((''name'', YStr nm) # rest))))"

text \<open>
  C27. Adding a source and removing it again leaves \<open>config.yaml\<close> as it was. After the addition the
  list of sources has one entry more, at its end, and every other node of the document, the keys
  and their comments included, is the same at the same place; after the removal the list is the old
  one and the rest still the same, so that, when the file had a list of sources, the whole
  document is node by node the old one. (When it had none, the empty list that was made stays.) No
  file but \<open>config.yaml\<close> and the one of a pasted source is written. The name is not \<open>default\<close>,
  which stands for the main subscription, and the two documents written are read back as they were.
\<close>

theorem source_add_remove:
  assumes "parseDoc (aeYAML env) (configPath env) d = Some doc" "root = documentRoot doc" "wf_root root"
    and "nm = sanitizeSourceName (sbName body)" "sourceFile nm \<noteq> configPath env" "nm \<noteq> ''default''"
    and "item = yNodeOf (aeYAML env) (sourceEntry nm (fst (pastedSource body)))" "nodeOf_named (aeYAML env)"
    and "doc1 = withRoot (appendSource item root) doc" "reads_back (aeYAML env) doc1"
    and "doc2 = withRoot (onChild ''subscription'' (onSeq ''sources'' (\<lambda>c. c)) root) doc" "reads_back (aeYAML env) doc2"
    and "handleAddSource env add d = (d1, r1)" "rsStatus r1 = 200" "hqBody add = SourceBody body"
    and "hqMethod del = ''DELETE''" "hqPath del = ''/api/sources/'' @ nm"
    and "handleSourceByName env del d1 = (d2, r2)" "rsStatus r2 = 200"
  shows "parseDoc (aeYAML env) (configPath env) d1 = Some doc1 \<and> isSourceNamed nm item \<and>
    sourcesOf (documentRoot doc1) = sourcesOf root @ [item] \<and> same_but_sources root (documentRoot doc1) \<and>
    parseDoc (aeYAML env) (configPath env) d2 = Some doc2 \<and>
    sourcesOf (documentRoot doc2) = sourcesOf root \<and> same_but_sources root (documentRoot doc2) \<and>
    (has_sources root \<longrightarrow> doc2 = doc) \<and>
    (\<forall>p. p \<noteq> configPath env \<and> p \<noteq> sourceFile nm \<longrightarrow> d2 p = d p)"
proof -
  obtain url uris where p: "pastedSource body = (url, uris)" by fastforce
  let ?d = "if url \<noteq> [] then d else d(sourceFile nm \<mapsto> uris @ [CHR 0x0A])"
  let ?root2 = "onChild ''subscription'' (onSeq ''sources'' (\<lambda>c. c)) root"
  have item: "isSourceNamed nm item" using assms(7,8) by (simp add: nodeOf_named_def sourceEntry_def)
  have e1: "editConfig env (addSourceEdit nm item) ?d = (d1, Written)"
    using handleAddSource_ok [OF assms(13,14,15) assms(4) [symmetric] p] assms(7) p by simp
  have "parseDoc (aeYAML env) (configPath env) ?d = Some doc" using assms(1,5) by (simp add: parseDoc_def)
  with e1 assms(2) obtain root1 out1 where w1: "addSourceEdit nm item root = Some root1"
      "yMarshal (aeYAML env) (withRoot root1 doc) = Some out1" "d1 = ?d(configPath env \<mapsto> out1)"
    by (auto elim!: editConfig_Written)
  from w1(1) have root1: "root1 = appendSource item root" "\<not> list_ex (isSourceNamed nm) (sourcesOf root)"
    by (simp_all add: addSourceEdit_def split: if_splits)
  have p1: "parseDoc (aeYAML env) (configPath env) d1 = Some doc1"
    unfolding w1(3) by (rule parseDoc_written [OF assms(10)]) (use w1(2) root1(1) assms(9) in simp)
  then have c1: "configRoot env d1 = Some root1" by (simp add: configRoot_def assms(9) root1(1))
  obtain root2 where e2: "editConfig env (removeEdit (aeYAML env) nm) d1 = (d2, Written)"
      "removeSource (aeYAML env) nm root1 = Removed root2"
    using handleSourceByName_ok [OF assms(18,19,16,17)] c1 by auto
  have root2: "root2 = ?root2"
    by (rule removeSource_added [OF e2(2) [unfolded root1(1)] assms(6,3) item root1(2)])
  from e2 p1 obtain out2 where w2: "yMarshal (aeYAML env) (withRoot root2 doc) = Some out2" "d2 = d1(configPath env \<mapsto> out2)"
    by (auto simp: assms(9) root1(1) removeEdit_def elim!: editConfig_Written)
  have p2: "parseDoc (aeYAML env) (configPath env) d2 = Some doc2"
    unfolding w2(2) by (rule parseDoc_written [OF assms(12)]) (use w2(1) root2 assms(11) in simp)
  have "doc2 = doc" if "has_sources root"
    using that assms(2,3) by (simp add: assms(11) onSources_id has_sources_doc)
  moreover have "d2 q = d q" if "q \<noteq> configPath env" "q \<noteq> sourceFile nm" for q
    using that by (simp add: w1(3) w2(2))
  ultimately show ?thesis
    using p1 p2 item onSources [OF assms(3) appendSource_def] onSources [OF assms(3) refl, of "\<lambda>c. c"]
    by (simp add: assms(9,11))
qed

section \<open>A concrete file\<close>

fun encodeValue :: "yval \<Rightarrow> ynode" where
  "encodeValue (YStr s) = YNode ScalarNode ''!!str'' s [] []"
| "encodeValue (YInt i) = YNode ScalarNode ''!!int'' (strconvItoa i) [] []"
| "encodeValue (YBool b) = YNode ScalarNode ''!!bool'' (if b then ''true'' else ''false'') [] []"
| "encodeValue (YList vs) = YNode SequenceNode ''!!seq'' [] [] (map encodeValue vs)"
| "encodeValue (YMap kvs) = YNode MappingNode ''!!map'' [] [] (concat (map (\<lambda>(k, v). [keyNode k, encodeValue v]) kvs))"
| "encodeValue YNull = YNode ScalarNode ''!!null'' [] [] []"

definition exampleDoc :: ynode where
  "exampleDoc = YNode DocumentNode [] [] []
     [YNode MappingNode ''!!map'' [] ''# my settings''
        [keyNode ''proxy'', encodeValue (YMap []),
         YNode ScalarNode ''!!str'' ''subscription'' ''# where the endpoints come from'' [],
         YNode MappingNode ''!!map'' [] []
           [YNode ScalarNode ''!!str'' ''sources'' ''# sources live here'' [],
            YNode SequenceNode ''!!seq'' [] [] [encodeValue (sourceEntry ''alpha'' ''https://a.example/s'')]]]]"

definition exampleSource :: "ynode" where
  "exampleSource = encodeValue (sourceEntry ''friends'' [])"

definition addedDoc :: ynode where
  "addedDoc = withRoot (appendSource exampleSource (documentRoot exampleDoc)) exampleDoc"

text \<open>A library that knows two documents.\<close>

definition exampleYAML :: yaml_lib where
  "exampleYAML =
     \<lparr>yUnmarshal = (\<lambda>s. if s = ''added'' then Some addedDoc else Some exampleDoc),
      yMarshal = (\<lambda>n. if n = addedDoc then Some ''added'' else if n = exampleDoc then Some ''old'' else None),
      yNodeOf = encodeValue\<rparr>"

definition exampleApi :: api_env where
  "exampleApi = \<lparr>aeYAML = exampleYAML, aeValueOf = (\<lambda>_. None), aeMarshalValue = (\<lambda>_. None), aeFiles = all_ok,
     aeCwd = None, aeCfgPath = []\<rparr>"

definition apiRequest :: "string \<Rightarrow> string \<Rightarrow> req_body \<Rightarrow> http_req" where
  "apiRequest meth path body = \<lparr>hqMethod = meth, hqPath = path, hqQuery = Map.empty, hqBasicAuth = None, hqBody = body\<rparr>"

definition pasteBody :: source_body where
  "pasteBody = \<lparr>sbName = '' friends!'', sbURL = [], sbText = ''ss://k@h:1''\<rparr>"

lemma exampleYAML_laws: "reads_back exampleYAML doc" "nodeOf_named exampleYAML"
proof -
  show "reads_back exampleYAML doc" by (auto simp: reads_back_def exampleYAML_def)
  show "nodeOf_named exampleYAML"
    by (simp add: nodeOf_named_def exampleYAML_def isSourceNamed_def scalarString_def yget_def keyNode_def)
qed

lemma example_add:
  "handleAddSource exampleApi (apiRequest ''POST'' ''/api/sources'' (SourceBody pasteBody)) [''config.yaml'' \<mapsto> ''old''] =
     ([''config.yaml'' \<mapsto> ''old'', ''data/friends/subscription.txt'' \<mapsto> ''ss://k@h:1'' @ [CHR 0x0A], ''config.yaml'' \<mapsto> ''added''],
      okNote [(''name'', JStr ''friends''), (''note'', JStr ''Source added. Hit Reload to load its endpoints.''), (''kind'', JStr ''file'')])"
proof -
  have n: "sanitizeSourceName (sbName pasteBody) = ''friends''" "pastedSource pasteBody = ([], ''ss://k@h:1'')"
    "sourceFile ''friends'' = ''data/friends/subscription.txt''" "configPath exampleApi = ''config.yaml''"
    "mkdirOk (aeFiles exampleApi) x" "writeRes (aeFiles exampleApi) x = WroteAll" for x
    by (code_simp | simp add: exampleApi_def all_ok_def)+
  have e: "addSourceEdit ''friends'' exampleSource (documentRoot exampleDoc) = Some (appendSource exampleSource (documentRoot exampleDoc))"
    by code_simp
  have s: "yNodeOf (aeYAML exampleApi) (sourceEntry ''friends'' []) = exampleSource"
    by (simp add: exampleApi_def exampleYAML_def exampleSource_def)
  show ?thesis
    by (simp add: handleAddSource_def apiRequest_def n writeFile_def editConfig_def editYAMLFile_def parseDoc_def s)
      (simp add: exampleApi_def exampleYAML_def e addedDoc_def [symmetric] writeFile_def)
qed

lemma example_remove:
  assumes "d ''config.yaml'' = Some ''added''"
  shows "handleSourceByName exampleApi (apiRequest ''DELETE'' ''/api/sources/friends'' BadBody) d =
     (d(''config.yaml'' \<mapsto> ''old''),
      okNote [(''removed'', JStr ''friends''),
        (''note'', JStr ''Source removed from config.yaml. POST /api/sources/reload (or restart proxy-core) to unload its endpoints.'')])"
proof -
  have p: "trimPrefix ''/api/sources/friends'' ''/api/sources/'' = ''friends''" "configPath exampleApi = ''config.yaml''"
      "writeRes (aeFiles exampleApi) x = WroteAll" for x
    by (code_simp | simp add: exampleApi_def all_ok_def)+
  have e: "map_option (\<lambda>r. withRoot r addedDoc) (removeEdit exampleYAML ''friends'' (documentRoot addedDoc)) = Some exampleDoc"
    by code_simp
  then obtain r where r: "removeEdit exampleYAML ''friends'' (documentRoot addedDoc) = Some r" "withRoot r addedDoc = exampleDoc"
    by auto
  then have rs: "removeSource exampleYAML ''friends'' (documentRoot addedDoc) = Removed r"
    by (auto simp: removeEdit_def split: remove_res.splits)
  have y: "aeYAML exampleApi = exampleYAML" "yUnmarshal exampleYAML ''added'' = Some addedDoc"
    by (simp_all add: exampleApi_def exampleYAML_def)
  have "exampleDoc \<noteq> addedDoc" by code_simp
  then have m: "yMarshal exampleYAML exampleDoc = Some ''old''" by (simp add: exampleYAML_def)
  have "parseDoc exampleYAML ''config.yaml'' d = Some addedDoc" using assms y(2) by (simp add: parseDoc_def)
  then show ?thesis
    by (simp add: handleSourceByName_def apiRequest_def p y editConfig_def editYAMLFile_def r m configRoot_def rs writeFile_def)
qed

theorem source_add_remove_witness:
  "\<exists>d1 d2 r1 r2.
     handleAddSource exampleApi (apiRequest ''POST'' ''/api/sources'' (SourceBody pasteBody)) [''config.yaml'' \<mapsto> ''old''] = (d1, r1) \<and>
     handleSourceByName exampleApi (apiRequest ''DELETE'' (''/api/sources/'' @ ''friends'') BadBody) d1 = (d2, r2) \<and>
     parseDoc exampleYAML ''config.yaml'' d1 = Some addedDoc \<and> parseDoc exampleYAML ''config.yaml'' d2 = Some exampleDoc \<and>
     same_but_sources (documentRoot exampleDoc) (documentRoot addedDoc)"
proof -
  let ?add = "apiRequest ''POST'' ''/api/sources'' (SourceBody pasteBody)" and ?d = "[''config.yaml'' \<mapsto> ''old'']"
  let ?del = "apiRequest ''DELETE'' (''/api/sources/'' @ ''friends'') BadBody" and ?root = "documentRoot exampleDoc"
  obtain d1 r1 where h1: "handleAddSource exampleApi ?add ?d = (d1, r1)" "rsStatus r1 = 200" "d1 ''config.yaml'' = Some ''added''"
    using example_add by (simp add: okNote_def writeJSON_def)
  obtain d2 r2 where h2: "handleSourceByName exampleApi ?del d1 = (d2, r2)" "rsStatus r2 = 200"
    using example_remove [of d1, OF h1(3)] by (simp add: okNote_def writeJSON_def)
  have c: "parseDoc (aeYAML exampleApi) (configPath exampleApi) ?d = Some exampleDoc"
      "configPath exampleApi = ''config.yaml''" "aeYAML exampleApi = exampleYAML"
    by (simp_all add: parseDoc_def exampleApi_def configPath_def exampleYAML_def)
  have n: "''friends'' = sanitizeSourceName (sbName pasteBody)" "sourceFile ''friends'' \<noteq> ''config.yaml''"
      "pastedSource pasteBody = ([], ''ss://k@h:1'')" "wf_root ?root" "has_sources ?root" "''friends'' \<noteq> ''default''"
    by code_simp+
  have i: "exampleSource = yNodeOf (aeYAML exampleApi) (sourceEntry ''friends'' (fst (pastedSource pasteBody)))"
    by (simp add: n(3) c(3) exampleYAML_def exampleSource_def)
  have rq: "hqBody ?add = SourceBody pasteBody" "hqMethod ?del = ''DELETE''" "hqPath ?del = ''/api/sources/'' @ ''friends''"
    by (simp_all add: apiRequest_def)
  have y: "reads_back (aeYAML exampleApi) x" "nodeOf_named (aeYAML exampleApi)" for x
    by (simp_all add: c(3) exampleYAML_laws)
  have s: "sourceFile ''friends'' \<noteq> configPath exampleApi" using n(2) by (simp add: c(2))
  from source_add_remove [OF c(1) refl n(4,1) s n(6) i y(2) addedDoc_def y(1) refl y(1) h1(1,2) rq h2] n(5) h1(1) h2(1)
  show ?thesis by (auto simp: c(2,3))
qed

end
