(* ===== verification/Api_Server.thy ===== *)
theory Api_Server
  imports Api_Live Api_Config
begin

text \<open>
  The API server as a whole (\<open>api/api.go\<close>): its state, the remaining handlers, the tasks they
  leave in the background, and the mux behind the gate. A handler is one step here; what it
  starts with \<open>go\<close> is a task that runs at any later moment.
\<close>

unbundle bit_operations_syntax

section \<open>The address shown for the LAN\<close>

definition isLoopback :: "ip \<Rightarrow> bool" where
  "isLoopback a = (case to4 a of Some b \<Rightarrow> b ! 0 = 127 | None \<Rightarrow> a = replicate 15 0 @ [1])"

text \<open>\<open>IsPrivate\<close> of a four-byte address.\<close>

definition isPrivate4 :: "ip \<Rightarrow> bool" where
  "isPrivate4 b \<longleftrightarrow> b ! 0 = 10 \<or> (b ! 0 = 172 \<and> b ! 1 AND 0xF0 = 16) \<or> (b ! 0 = 192 \<and> b ! 1 = 168)"

definition dotted :: "ip \<Rightarrow> string" where
  "dotted b = joinWith ''.'' (map (\<lambda>x. strconvItoa (uint x)) b)"

text \<open>
  The addresses of the interfaces, \<open>None\<close> for one that is not an \<open>IPNet\<close>: the first private IPv4
  address that is not a loopback address.
\<close>

fun firstPrivate :: "ip option list \<Rightarrow> string" where
  "firstPrivate [] = []"
| "firstPrivate (None # rest) = firstPrivate rest"
| "firstPrivate (Some a # rest) =
     (if isLoopback a then firstPrivate rest
      else case to4 a of
             None \<Rightarrow> firstPrivate rest
           | Some b \<Rightarrow> if isPrivate4 b then dotted b else firstPrivate rest)"

definition localLANIP :: "(ip option list) option \<Rightarrow> string" where
  "localLANIP addrs = (case addrs of None \<Rightarrow> [] | Some l \<Rightarrow> firstPrivate l)"

lemma localLANIP_private:
  assumes "localLANIP (Some addrs) \<noteq> []"
  shows "\<exists>a b. Some a \<in> set addrs \<and> to4 a = Some b \<and> isPrivate4 b \<and> localLANIP (Some addrs) = dotted b"
  using assms by (induction addrs rule: firstPrivate.induct) (auto simp: localLANIP_def split: if_splits option.splits)

section \<open>State and surroundings\<close>

datatype task =
    ProbeTask "endpoint list"
  | SidecarTask string bool
  | ReloadTask
  | ApplyTask
  | DirectIPTask
  | ProxyIPTask

text \<open>\<open>avGate\<close> is the \<open>.env\<close> file as it was when the server started, which the gate keeps.\<close>

record 'e api_server =
  avBalancer :: balancer
  avEngine :: engine
  avDisk :: disk
  avTickets :: tickets
  avHub :: "ws_client list"
  avConns :: nat
  avBus :: bus
  avDirectIP :: ip_cache
  avProxyIP :: ip_cache
  avDocker :: 'e
  avTasks :: "task list"
  avGate :: config

text \<open>
  The surroundings of one request: the libraries, how its writes end, the clock, the token drawn
  for a ticket, the process environment.
\<close>

record 'e api_params =
  apEnv :: api_env
  apDocker :: "'e docker"
  apKeys :: "config \<Rightarrow> string list"
  apStatePath :: string
  apEncodeState :: "saved_state \<Rightarrow> string option"
  apStateFault :: io_fault
  apNow :: int
  apLater :: int
  apToken :: string
  apOSEnv :: config
  apTemplates :: json
  apBuild :: build_info
  apUptime :: int
  apSources :: "string \<Rightarrow> sources_view option"
  apDiag :: diag_env
  apRootStat :: "disk \<Rightarrow> string \<Rightarrow> root_stat"
  apZip :: "zip_entry list \<Rightarrow> string"
  apAddrs :: "(ip option list) option"
  apEnvWrite :: write_res

definition startTasks :: "task list \<Rightarrow> 'e api_server \<Rightarrow> 'e api_server" where
  "startTasks ts s = s\<lparr>avTasks := avTasks s @ ts\<rparr>"

section \<open>Patching an endpoint\<close>

definition persistEndpointState :: "'e api_params \<Rightarrow> 'e api_server \<Rightarrow> 'e api_server" where
  "persistEndpointState ap s =
     (if apStatePath ap = [] then s
      else s\<lparr>avDisk := fst (saveState (apEncodeState ap) (apStateFault ap) (apStatePath ap)
               \<lparr>LastProbeAt = apNow ap, SavedEndpoints = endpoints (avBalancer s)\<rparr> (avDisk s))\<rparr>)"

definition broadcastPool :: "'e api_params \<Rightarrow> endpoint list \<Rightarrow> 'e api_server \<Rightarrow> 'e api_server" where
  "broadcastPool ap eps s = s\<lparr>avHub := broadcast (endpointsJSON (apKeys ap) eps) (avHub s)\<rparr>"

text \<open>Whether an enabled sidecar has no container, which is asked before answering.\<close>

definition sidecarMissing :: "'e docker \<Rightarrow> string \<Rightarrow> bool \<Rightarrow> 'e \<Rightarrow> 'e \<times> bool" where
  "sidecarMissing dk kind enable e =
     (if enable \<and> dkSocket dk e then
        (case findContainerByService dk (sidecarDockerService kind) e of (e', x) \<Rightarrow> (e', x = Inr []))
      else (e, False))"

definition sidecarEffects :: "'e api_params \<Rightarrow> endpoint \<Rightarrow> bool option \<Rightarrow> 'e api_server \<Rightarrow> 'e api_server \<times> bool" where
  "sidecarEffects ap updated enabled s =
     (case enabled of
        Some v \<Rightarrow>
          if Protocol updated = ''sidecar'' then
            (let kind = cget (Config updated) ''sidecar_kind''
             in case sidecarMissing (apDocker ap) kind v (avDocker s) of
                  (e', missing) \<Rightarrow> (startTasks [SidecarTask kind v] (s\<lparr>avDocker := e'\<rparr>), missing))
          else (s, False)
      | None \<Rightarrow> (s, False))"

definition patchReply :: "'e api_params \<Rightarrow> endpoint \<Rightarrow> bool \<Rightarrow> response" where
  "patchReply ap updated missing =
     (let kind = cget (Config updated) ''sidecar_kind''
      in okNote ([(''endpoint'', endpointJSON (apKeys ap) updated)] @
           (if missing then [(''sidecar_missing'', JBool True), (''sidecar_kind'', JStr kind),
              (''note'', JStr (''Image not built '' @ [CHR 0xE2, CHR 0x80, CHR 0x94] @ '' run: moav-client sidecar add '' @ kind))]
            else [])))"

definition handleEndpointPatch :: "'e api_params \<Rightarrow> http_req \<Rightarrow> 'e api_server \<Rightarrow> 'e api_server \<times> response" where
  "handleEndpointPatch ap req s =
     (if hqMethod req \<noteq> ''PATCH'' \<and> hqMethod req \<noteq> ''POST'' then (s, httpError ''PATCH required'' 405)
      else
        (let i = trimPrefix (hqPath req) ''/api/endpoints/''
         in if i = [] then (s, httpError ''id required'' 400)
            else (case hqBody req of
                    PatchBody p \<Rightarrow>
                      (case patchEndpoint i p (avBalancer s) of
                         (b', None) \<Rightarrow> (s\<lparr>avBalancer := b'\<rparr>, httpError ''no such endpoint'' 404)
                       | (b', Some updated) \<Rightarrow>
                           (case sidecarEffects ap updated (pEnabled p) (s\<lparr>avBalancer := b'\<rparr>) of
                              (s1, missing) \<Rightarrow>
                                (broadcastPool ap (endpoints b') (persistEndpointState ap s1),
                                 patchReply ap updated missing)))
                  | _ \<Rightarrow> (s, httpError ''invalid JSON'' 400))))"

section \<open>Probing, versions and restarts\<close>

text \<open>The probe runs on the pool as it is now.\<close>

definition handleProbe :: "http_req \<Rightarrow> 'e api_server \<Rightarrow> 'e api_server \<times> response" where
  "handleProbe req s =
     (if hqMethod req \<noteq> ''POST'' then (s, httpError ''POST required'' 405)
      else (startTasks [ProbeTask (endpoints (avBalancer s))] s,
            (writeJSON (JObj [(''status'', JStr ''probing'')]))\<lparr>rsStatus := 202\<rparr>))"

definition handleVersion :: "'e api_params \<Rightarrow> 'e api_server \<Rightarrow> 'e api_server \<times> response" where
  "handleVersion ap s =
     (case (maybeRefresh (apNow ap) (avDirectIP s), maybeRefresh (apNow ap) (avProxyIP s)) of
        ((d, startD), (p, startP)) \<Rightarrow>
          (startTasks ((if startD then [DirectIPTask] else []) @ (if startP then [ProxyIPTask] else []))
             (s\<lparr>avDirectIP := d, avProxyIP := p\<rparr>),
           writeJSON (versionJSON (apBuild ap) (apUptime ap) d p)))"

definition handleSourcesReload :: "'e api_params \<Rightarrow> http_req \<Rightarrow> 'e api_server \<Rightarrow> 'e api_server \<times> response" where
  "handleSourcesReload ap req s =
     (if hqMethod req \<noteq> ''POST'' then (s, httpError ''POST required'' 405)
      else if \<not> dkSocket (apDocker ap) (avDocker s) then
        (s, writeJSON (JObj [(''ok'', JBool False),
           (''note'', JStr ''docker socket not mounted; restart proxy-core manually (./moav-client restart) to pick up subscription changes.'')]))
      else (startTasks [ReloadTask] s,
            okNote [(''note'', JStr ''Restarting proxy-core to reload subscriptions. The dashboard will reconnect in a few seconds.'')]))"

definition handleExposureApply :: "'e api_params \<Rightarrow> http_req \<Rightarrow> 'e api_server \<Rightarrow> 'e api_server \<times> response" where
  "handleExposureApply ap req s =
     (if hqMethod req \<noteq> ''POST'' then (s, httpError ''POST required'' 405)
      else if \<not> dkSocket (apDocker ap) (avDocker s) then
        (s, writeJSON (JObj [(''ok'', JBool False),
           (''note'', JStr ''docker socket not mounted; run: docker compose up -d --force-recreate proxy-core web-ui'')]))
      else (startTasks [ApplyTask] s,
            okNote [(''note'', JStr (''Applying '' @ [CHR 0xE2, CHR 0x80, CHR 0x94] @
              '' restarting dashboard and proxy. Reconnecting in a few seconds (you may be asked to log in if you set a dashboard password).''))]))"

section \<open>The WebSocket handshake\<close>

text \<open>The password is looked up in the \<open>.env\<close> file of the moment; a client that is let in joins the hub.\<close>

definition handleWS :: "'e api_params \<Rightarrow> http_req \<Rightarrow> 'e api_server \<Rightarrow> 'e api_server \<times> response" where
  "handleWS ap req s =
     (case handleWSUpgrade (dashboardAuthConfigured (apOSEnv ap) (readEnvKV (avDisk s ''.env''))) (apNow ap) req (avTickets s) of
        (m, Some r) \<Rightarrow> (s\<lparr>avTickets := m\<rparr>, r)
      | (m, None) \<Rightarrow>
          (case wsJoin (avConns s) (avHub s, avBus s) of
             (hub, lb) \<Rightarrow>
               (s\<lparr>avTickets := m, avHub := hub, avBus := lb, avConns := Suc (avConns s)\<rparr>,
                (writeJSON (endpointsJSON (apKeys ap) (endpoints (avBalancer s))))\<lparr>rsStatus := 101\<rparr>)))"

section \<open>The routes\<close>

datatype route =
    Endpoints | EndpointPatch | Probe | Health | Version | ConfigFile | StatsPage | StrategyPage | LogsPage
  | PluginsPage | BlockDirectPage | SourcesPage | SourceByName | SourcesReload | ExposureApply | Bundles
  | Backup | Restore | FlowsPage | Diag | SNISpoof | Exposure | WSTicketPage | WS

definition exactRoutes :: "(string \<times> route) list" where
  "exactRoutes =
     [(''/api/endpoints'', Endpoints), (''/api/probe'', Probe), (''/api/healthz'', Health), (''/api/version'', Version),
      (''/api/config'', ConfigFile), (''/api/stats'', StatsPage), (''/api/strategy'', StrategyPage), (''/api/logs'', LogsPage),
      (''/api/plugins'', PluginsPage), (''/api/block-direct'', BlockDirectPage), (''/api/sources'', SourcesPage),
      (''/api/sources/reload'', SourcesReload), (''/api/exposure/apply'', ExposureApply), (''/api/bundles'', Bundles),
      (''/api/backup'', Backup), (''/api/restore'', Restore), (''/api/flows'', FlowsPage), (''/api/diag'', Diag),
      (''/api/snispoof'', SNISpoof), (''/api/exposure'', Exposure), (''/api/ws-ticket'', WSTicketPage), (''/api/ws'', WS)]"

text \<open>A pattern that ends in a slash takes every path below it, unless a longer one does.\<close>

definition routeOf :: "string \<Rightarrow> route option" where
  "routeOf path =
     (case map_of exactRoutes path of
        Some r \<Rightarrow> Some r
      | None \<Rightarrow>
          if hasPrefix path ''/api/endpoints/'' then Some EndpointPatch
          else if hasPrefix path ''/api/sources/'' then Some SourceByName
          else None)"

definition onDisk :: "(disk \<Rightarrow> disk \<times> response) \<Rightarrow> 'e api_server \<Rightarrow> 'e api_server \<times> response" where
  "onDisk h s = (case h (avDisk s) of (d, r) \<Rightarrow> (s\<lparr>avDisk := d\<rparr>, r))"

fun routeHandler :: "'e api_params \<Rightarrow> route \<Rightarrow> http_req \<Rightarrow> 'e api_server \<Rightarrow> 'e api_server \<times> response" where
  "routeHandler ap Endpoints req s = (s, handleEndpoints (apKeys ap) (avBalancer s))"
| "routeHandler ap EndpointPatch req s = handleEndpointPatch ap req s"
| "routeHandler ap Probe req s = handleProbe req s"
| "routeHandler ap Health req s = (s, handleHealth)"
| "routeHandler ap Version req s = handleVersion ap s"
| "routeHandler ap ConfigFile req s = onDisk (handleConfig (apEnv ap) req) s"
| "routeHandler ap StatsPage req s = (s, handleStats (avBalancer s))"
| "routeHandler ap StrategyPage req s =
     (case handleStrategy req (avBalancer s) of (b, r) \<Rightarrow> (s\<lparr>avBalancer := b\<rparr>, r))"
| "routeHandler ap LogsPage req s = (s, handleLogs req (avBus s))"
| "routeHandler ap PluginsPage req s =
     (case handlePlugins (apEnv ap) (apTemplates ap) req (avEngine s, avDisk s) of
        ((eng, d), r) \<Rightarrow> (s\<lparr>avEngine := eng, avDisk := d\<rparr>, r))"
| "routeHandler ap BlockDirectPage req s =
     (case handleBlockDirect (apEnv ap) req (avBalancer s, avEngine s, avDisk s) of
        ((b, eng, d), r) \<Rightarrow> (s\<lparr>avBalancer := b, avEngine := eng, avDisk := d\<rparr>, r))"
| "routeHandler ap SourcesPage req s = onDisk (handleSources (apEnv ap) (apSources ap) req (endpoints (avBalancer s))) s"
| "routeHandler ap SourceByName req s = onDisk (handleSourceByName (apEnv ap) req) s"
| "routeHandler ap SourcesReload req s = handleSourcesReload ap req s"
| "routeHandler ap ExposureApply req s = handleExposureApply ap req s"
| "routeHandler ap Bundles req s = onDisk (handleBundleUpload (apEnv ap) req) s"
| "routeHandler ap Backup req s = (s, handleBackup (apRootStat ap (avDisk s)) (apZip ap) req)"
| "routeHandler ap Restore req s = onDisk (handleRestore (apEnv ap) req) s"
| "routeHandler ap FlowsPage req s = (s, handleFlows (avBalancer s))"
| "routeHandler ap Diag req s = (s, handleDiag (apDiag ap) req (endpoints (avBalancer s)))"
| "routeHandler ap SNISpoof req s = onDisk (handleSNISpoof (apEnv ap) req (endpoints (avBalancer s))) s"
| "routeHandler ap Exposure req s = onDisk (handleExposure (localLANIP (apAddrs ap)) (apEnvWrite ap) req) s"
| "routeHandler ap WSTicketPage req s =
     (case handleWSTicket (apToken ap) (apNow ap) (apLater ap) (avTickets s) of (m, r) \<Rightarrow> (s\<lparr>avTickets := m\<rparr>, r))"
| "routeHandler ap WS req s = handleWS ap req s"

text \<open>The mux of \<open>net/http\<close>: a path that is not in its clean form is redirected to it.\<close>

definition cleanURLPath :: "string \<Rightarrow> string" where
  "cleanURLPath p =
     (if p = [] then ''/''
      else (let p1 = (if hd p \<noteq> CHR ''/'' then CHR ''/'' # p else p); np = pathClean p1
            in if last p1 = CHR ''/'' \<and> np \<noteq> ''/'' then np @ ''/'' else np))"

definition apiMux :: "'e api_params \<Rightarrow> http_req \<Rightarrow> 'e api_server \<Rightarrow> 'e api_server \<times> response" where
  "apiMux ap req s =
     (if hqMethod req \<noteq> ''CONNECT'' \<and> cleanURLPath (hqPath req) \<noteq> hqPath req then (s, httpError ''Moved Permanently'' 301)
      else (case routeOf (hqPath req) of
              None \<Rightarrow> (s, httpError ''404 page not found'' 404)
            | Some r \<Rightarrow> routeHandler ap r req s))"

definition apiServe :: "'e api_params \<Rightarrow> http_req \<Rightarrow> 'e api_server \<Rightarrow> 'e api_server \<times> response" where
  "apiServe ap req s = withCORS (withBasicAuth (apOSEnv ap) (avGate s) (apiMux ap)) req s"

section \<open>The tasks\<close>

text \<open>
  What a task finds: the network of its probes, the bodies of the address lookups, the clock.
\<close>

record 'e task_params =
  tpProbe :: "nat \<Rightarrow> probe_env"
  tpKeys :: "config \<Rightarrow> string list"
  tpTrace :: "string option"
  tpNow :: int
  tpDocker :: "'e docker"

text \<open>The process ends when a sidecar's task panics (\<open>None\<close>).\<close>

fun runTask :: "'e task_params \<Rightarrow> task \<Rightarrow> 'e api_server \<Rightarrow> 'e api_server option" where
  "runTask tp (ProbeTask eps) s =
     (let updated = probeAll (tpProbe tp) [] eps
      in Some (s\<lparr>avBalancer := setEndpoints updated (avBalancer s),
                 avHub := broadcast (endpointsJSON (tpKeys tp) updated) (avHub s)\<rparr>))"
| "runTask tp (SidecarTask kind enable) s =
     (case controlSidecarContainer (tpDocker tp) kind enable (avDocker s) of
        (e', res) \<Rightarrow> if res = ControlPanics then None else Some (s\<lparr>avDocker := e'\<rparr>))"
| "runTask tp ReloadTask s = Some (s\<lparr>avDocker := reloadTask (tpDocker tp) (avDocker s)\<rparr>)"
| "runTask tp ApplyTask s = Some (s\<lparr>avDocker := applyTask (tpDocker tp) (avDocker s)\<rparr>)"
| "runTask tp DirectIPTask s =
     Some (s\<lparr>avDirectIP := refreshDone (tpNow tp) (lookupIPCountry (tpTrace tp)) (avDirectIP s)\<rparr>)"
| "runTask tp ProxyIPTask s =
     Some (s\<lparr>avProxyIP := refreshDone (tpNow tp) (lookupIPCountry (tpTrace tp)) (avProxyIP s)\<rparr>)"

definition dropNth :: "nat \<Rightarrow> 'a list \<Rightarrow> 'a list" where
  "dropNth i xs = take i xs @ drop (Suc i) xs"

definition finishTask :: "'e task_params \<Rightarrow> nat \<Rightarrow> 'e api_server \<Rightarrow> 'e api_server option" where
  "finishTask tp i s =
     (if i < length (avTasks s) then runTask tp (avTasks s ! i) (s\<lparr>avTasks := dropNth i (avTasks s)\<rparr>)
      else Some s)"

end
