(* ===== verification/Api_Invariants.thy ===== *)
theory Api_Invariants
  imports Api_Server
begin

text \<open>
  What every request and every task of the API server keeps: the endpoints of the pool, the one
  kill-switch, one address lookup at a time, and the clients of the hub.
\<close>

section \<open>The pool\<close>

text \<open>What of an endpoint is fixed when the pool is built.\<close>

definition frozen :: "endpoint \<Rightarrow> string \<times> string \<times> string \<times> string \<times> string \<times> string \<times> config" where
  "frozen e = (ID e, Protocol e, Name e, Address e, RawURI e, Source e, Config e)"

definition poolIdentity :: "'e api_server \<Rightarrow> (string \<times> string \<times> string \<times> string \<times> string \<times> string \<times> config) list" where
  "poolIdentity s = map frozen (endpoints (avBalancer s))"

lemma frozen_upd [simp]:
  "frozen (e\<lparr>Enabled := v\<rparr>) = frozen e" "frozen (e\<lparr>Priority := n\<rparr>) = frozen e"
  "frozen (e\<lparr>Status := st\<rparr>) = frozen e" "frozen (e\<lparr>LatencyMs := n\<rparr>) = frozen e"
  by (simp_all add: frozen_def)

lemma frozen_applyPatch [simp]: "frozen (applyPatch p e) = frozen e"
  by (auto simp: applyPatch_def Let_def split: option.split)

lemma frozen_probeOne [simp]: "frozen (probeOne w t e) = frozen e"
  by (auto simp: probeOne_def Let_def split: prod.splits)

lemma frozen_probeAll [simp]: "map frozen (probeAll w t eps) = map frozen eps"
  by (rule nth_equalityI) (simp_all add: probeAll_nth)

lemma frozen_merged [simp]: "frozen (merged probed e) = frozen e"
  by (simp add: merged_def split: option.split)

lemma frozen_patchEndpoint [simp]:
  "map frozen (endpoints (fst (patchEndpoint i p b))) = map frozen (endpoints b)"
  by (simp add: patchEndpoint_def Let_def)

lemma frozen_markError [simp]: "map frozen (endpoints (markError i b)) = map frozen (endpoints b)"
  by (simp add: markError_def)

lemma patchEndpoint_frame [simp]:
  "blockDirect (fst (patchEndpoint i p b)) = blockDirect b" "strategy (fst (patchEndpoint i p b)) = strategy b"
  by (simp_all add: patchEndpoint_def Let_def)

section \<open>What the handlers leave alone\<close>

lemma startTasks_frame [simp]:
  "avBalancer (startTasks ts s) = avBalancer s" "avEngine (startTasks ts s) = avEngine s"
  "avDisk (startTasks ts s) = avDisk s" "avHub (startTasks ts s) = avHub s" "avBus (startTasks ts s) = avBus s"
  "avConns (startTasks ts s) = avConns s" "avDirectIP (startTasks ts s) = avDirectIP s"
  "avProxyIP (startTasks ts s) = avProxyIP s" "avTasks (startTasks ts s) = avTasks s @ ts"
  "avGate (startTasks ts s) = avGate s" "avTickets (startTasks ts s) = avTickets s"
  "avDocker (startTasks ts s) = avDocker s"
  by (simp_all add: startTasks_def)

lemma persist_frame [simp]:
  "avBalancer (persistEndpointState ap s) = avBalancer s" "avEngine (persistEndpointState ap s) = avEngine s"
  "avHub (persistEndpointState ap s) = avHub s" "avBus (persistEndpointState ap s) = avBus s"
  "avConns (persistEndpointState ap s) = avConns s" "avDirectIP (persistEndpointState ap s) = avDirectIP s"
  "avProxyIP (persistEndpointState ap s) = avProxyIP s" "avTasks (persistEndpointState ap s) = avTasks s"
  "avGate (persistEndpointState ap s) = avGate s" "avTickets (persistEndpointState ap s) = avTickets s"
  "avDocker (persistEndpointState ap s) = avDocker s"
  by (simp_all add: persistEndpointState_def)

lemma broadcastPool_frame [simp]:
  "avBalancer (broadcastPool ap eps s) = avBalancer s" "avEngine (broadcastPool ap eps s) = avEngine s"
  "avHub (broadcastPool ap eps s) = broadcast (endpointsJSON (apKeys ap) eps) (avHub s)"
  "avBus (broadcastPool ap eps s) = avBus s" "avConns (broadcastPool ap eps s) = avConns s"
  "avDirectIP (broadcastPool ap eps s) = avDirectIP s" "avProxyIP (broadcastPool ap eps s) = avProxyIP s"
  "avTasks (broadcastPool ap eps s) = avTasks s" "avGate (broadcastPool ap eps s) = avGate s"
  "avTickets (broadcastPool ap eps s) = avTickets s" "avDocker (broadcastPool ap eps s) = avDocker s"
  "avDisk (broadcastPool ap eps s) = avDisk s"
  by (simp_all add: broadcastPool_def)

lemma sidecarEffects_frame:
  "sidecarEffects ap e en s = (s', m) \<Longrightarrow>
   avBalancer s' = avBalancer s \<and> avEngine s' = avEngine s \<and> avHub s' = avHub s \<and> avBus s' = avBus s \<and>
   avConns s' = avConns s \<and> avDirectIP s' = avDirectIP s \<and> avProxyIP s' = avProxyIP s \<and> avDisk s' = avDisk s \<and>
   avGate s' = avGate s \<and> avTickets s' = avTickets s \<and>
   (\<exists>ts. avTasks s' = avTasks s @ ts \<and> (\<forall>t \<in> set ts. \<exists>k v. t = SidecarTask k v))"
  by (auto simp: sidecarEffects_def Let_def split: option.splits if_splits prod.splits)

text \<open>The outcome of a PATCH: refused with nothing changed, or the endpoint patched.\<close>

lemma handleEndpointPatch_cases:
  assumes "handleEndpointPatch ap req s = (s', r)"
  obtains
    (refused) "s' = s" "rsStatus r \<in> {400, 404, 405}"
  | (patched) i p b' e s1 missing where
      "hqPath req = ''/api/endpoints/'' @ i \<or> i = hqPath req" "hqBody req = PatchBody p"
      "patchEndpoint i p (avBalancer s) = (b', Some e)"
      "sidecarEffects ap e (pEnabled p) (s\<lparr>avBalancer := b'\<rparr>) = (s1, missing)"
      "s' = broadcastPool ap (endpoints b') (persistEndpointState ap s1)" "r = patchReply ap e missing"
proof (cases "\<exists>i p b' e. hqBody req = PatchBody p \<and> i = trimPrefix (hqPath req) ''/api/endpoints/'' \<and> i \<noteq> [] \<and>
    (hqMethod req = ''PATCH'' \<or> hqMethod req = ''POST'') \<and> patchEndpoint i p (avBalancer s) = (b', Some e)")
  case True
  then obtain i p b' e where h: "hqBody req = PatchBody p" "i = trimPrefix (hqPath req) ''/api/endpoints/''" "i \<noteq> []"
      "hqMethod req = ''PATCH'' \<or> hqMethod req = ''POST''" "patchEndpoint i p (avBalancer s) = (b', Some e)" by blast
  obtain s1 missing where e: "sidecarEffects ap e (pEnabled p) (s\<lparr>avBalancer := b'\<rparr>) = (s1, missing)" by fastforce
  from assms h e have "s' = broadcastPool ap (endpoints b') (persistEndpointState ap s1)" "r = patchReply ap e missing"
    by (auto simp: handleEndpointPatch_def)
  moreover have "hqPath req = ''/api/endpoints/'' @ i \<or> i = hqPath req"
    unfolding h(2) by (metis append_take_drop_id hasPrefix_def trimPrefix_def)
  ultimately show thesis using h e patched by blast
next
  case False
  have nochange: "s\<lparr>avBalancer := b'\<rparr> = s" if "patchEndpoint i p (avBalancer s) = (b', None)" for i p b'
  proof -
    have "find (\<lambda>e. ID e = i) (update_first (\<lambda>e. ID e = i) (applyPatch p) (endpoints (avBalancer s))) = None"
      using that by (simp add: patchEndpoint_def Let_def)
    then have "\<forall>e \<in> set (endpoints (avBalancer s)). ID e \<noteq> i"
      by (simp add: find_update_first find_None_iff)
    then have "b' = avBalancer s" using that by (auto simp: patchEndpoint_def Let_def)
    then show ?thesis by simp
  qed
  from False assms nochange have "s' = s \<and> rsStatus r \<in> {400, 404, 405}"
    by (auto simp: handleEndpointPatch_def httpError_def Let_def split: if_splits req_body.splits prod.splits option.splits)
  then show thesis using refused by blast
qed

lemma onDisk_frame [simp]:
  "avBalancer (fst (onDisk h s)) = avBalancer s" "avEngine (fst (onDisk h s)) = avEngine s"
  "avHub (fst (onDisk h s)) = avHub s" "avBus (fst (onDisk h s)) = avBus s" "avConns (fst (onDisk h s)) = avConns s"
  "avDirectIP (fst (onDisk h s)) = avDirectIP s" "avProxyIP (fst (onDisk h s)) = avProxyIP s"
  "avTasks (fst (onDisk h s)) = avTasks s" "avGate (fst (onDisk h s)) = avGate s"
  "avTickets (fst (onDisk h s)) = avTickets s" "avDocker (fst (onDisk h s)) = avDocker s"
  by (simp_all add: onDisk_def split: prod.split)

lemma setRules_flag: "setRules rs e = Some e' \<Longrightarrow> engBlockDirect e' = engBlockDirect e"
  by (auto simp: setRules_def)

lemma handlePlugins_flag:
  "handlePlugins env tj req (eng, d) = ((eng', d'), r) \<Longrightarrow> engBlockDirect eng' = engBlockDirect eng"
  by (auto simp: handlePlugins_def setRules_flag split: if_splits req_body.splits option.splits prod.splits)

lemma handleBlockDirect_frame:
  assumes "handleBlockDirect env req (b, eng, d) = ((b', eng', d'), r)"
  shows "endpoints b' = endpoints b \<and> (engBlockDirect eng = blockDirect b \<longrightarrow> engBlockDirect eng' = blockDirect b') \<and>
    rules eng' = rules eng"
  using assms
  by (auto simp: handleBlockDirect_def setBlockDirect_def setEngBlockDirect_def split: if_splits req_body.splits prod.splits)

lemma handleStrategy_frame:
  "handleStrategy req b = (b', r) \<Longrightarrow> endpoints b' = endpoints b \<and> blockDirect b' = blockDirect b"
  by (auto simp: handleStrategy_def setStrategy_def split: if_splits req_body.splits)

section \<open>One lookup at a time, and the hub\<close>

definition countTask :: "task \<Rightarrow> task list \<Rightarrow> nat" where
  "countTask t ts = length (filter (\<lambda>x. x = t) ts)"

lemma countTask_simps [simp]:
  "countTask t [] = 0" "countTask t (x # xs) = (if x = t then Suc (countTask t xs) else countTask t xs)"
  "countTask t (xs @ ys) = countTask t xs + countTask t ys"
  by (simp_all add: countTask_def)

lemma countTask_dropNth:
  "i < length ts \<Longrightarrow> countTask t ts = countTask t (dropNth i ts) + (if ts ! i = t then 1 else 0)"
  unfolding dropNth_def by (subst id_take_nth_drop [of i ts]) simp_all

definition flight_ok :: "ip_cache \<Rightarrow> nat \<Rightarrow> bool" where
  "flight_ok c n \<longleftrightarrow> n = (if icRefreshing c then 1 else 0)"

definition lookups_ok :: "'e api_server \<Rightarrow> bool" where
  "lookups_ok s \<longleftrightarrow> flight_ok (avDirectIP s) (countTask DirectIPTask (avTasks s)) \<and>
     flight_ok (avProxyIP s) (countTask ProxyIPTask (avTasks s))"

text \<open>
  Each client has a connection of its own, at most eight frames waiting, and its own open
  subscription to the log bus; the bus has no other subscriber.
\<close>

definition hub_ok :: "ws_client list \<Rightarrow> nat \<Rightarrow> bus \<Rightarrow> bool" where
  "hub_ok cs n lb \<longleftrightarrow> maxPer lb = 800 \<and> distinct (map wcConn cs) \<and> (\<forall>c \<in> set cs. wcConn c < n \<and> length (wcQueue c) \<le> queueCap) \<and>
     subs lb = map wcLog cs \<and> bus_wf lb \<and> rings_ok lb"

lemma map_broadcast [simp]:
  "map wcConn (broadcast f cs) = map wcConn cs" "map wcLog (broadcast f cs) = map wcLog cs"
  by (simp_all add: broadcast_def)

lemma hub_broadcast [inv_intros]: "hub_ok cs n lb \<Longrightarrow> hub_ok (broadcast f cs) n lb"
proof -
  assume h: "hub_ok cs n lb"
  have "wcConn c < n \<and> length (wcQueue c) \<le> queueCap" if "c \<in> set (broadcast f cs)" for c
    using that h by (auto simp: hub_ok_def broadcast_def queueCap_def)
  with h show "hub_ok (broadcast f cs) n lb" by (simp add: hub_ok_def)
qed

lemma busOp_kept:
  "bus_wf b \<Longrightarrow> rings_ok b \<Longrightarrow> op_ok a b \<Longrightarrow> \<exists>b'. busOp a b = Some b' \<and> bus_wf b' \<and> rings_ok b' \<and> maxPer b' = maxPer b"
  using busOp_wf by blast

lemma hub_join [inv_intros]:
  assumes "hub_ok cs n lb" "wsJoin n (cs, lb) = (cs', lb')"
  shows "hub_ok cs' (Suc n) lb'"
proof -
  have lb': "lb' = fst (subscribe 64 lb)" "cs' = cs @ [\<lparr>wcConn = n, wcQueue = [], wcLog = length (chans lb)\<rparr>]"
      "subs lb' = subs lb @ [length (chans lb)]"
    using assms(2) by (auto simp: wsJoin_def subscribe_def Let_def)
  have "bus_wf lb' \<and> rings_ok lb' \<and> maxPer lb' = maxPer lb"
    using assms(1) lb'(1) busOp_kept [of lb "Subscribe 64"] by (simp add: hub_ok_def)
  moreover have "\<forall>c \<in> set cs. wcConn c < Suc n" using assms(1) by (auto simp: hub_ok_def less_SucI)
  ultimately show ?thesis
    using assms(1) by (auto simp: hub_ok_def lb'(2,3) queueCap_def)
qed

text \<open>What a client does, and a line of the log; none of it panics.\<close>

lemma hub_take [inv_intros]:
  assumes "hub_ok cs n lb" "wsTake conn (cs, lb) = ((cs', lb'), f)"
  shows "hub_ok cs' n lb'"
proof -
  have "hub_ok (update_first (\<lambda>c. wcConn c = conn) (\<lambda>c. c\<lparr>wcQueue := fs\<rparr>) cs) n lb" if "length fs \<le> queueCap" for fs
    using assms(1) that by (auto simp: hub_ok_def dest!: set_update_first)
  moreover have "length fs \<le> queueCap" if "find (\<lambda>c. wcConn c = conn) cs = Some c" "wcQueue c = f # fs" for c f fs
    using assms(1) that by (force simp: hub_ok_def dest!: find_SomeD)
  ultimately show ?thesis using assms by (auto simp: wsTake_def split: option.splits list.splits)
qed

lemma hub_take_log [inv_intros]:
  assumes "hub_ok cs n lb" "wsTakeLog conn (cs, lb) = ((cs', lb'), f)"
  shows "hub_ok cs' n lb'"
proof -
  have "hub_ok cs n (receive (wcLog c) lb)" if "c \<in> set cs" for c
  proof -
    have "wcLog c \<in> set (subs lb)" using assms(1) that by (simp add: hub_ok_def)
    then have "op_ok (Receive (wcLog c)) lb" using assms(1) by (auto simp: hub_ok_def bus_wf_def)
    from busOp_kept [OF _ _ this] assms(1) show ?thesis by (auto simp: hub_ok_def receive_def)
  qed
  with assms show ?thesis
    by (auto simp: wsTakeLog_def split: option.splits list.splits dest: find_SomeD)
qed

lemma hub_leave [inv_intros]:
  assumes "hub_ok cs n lb"
  shows "\<exists>cs' lb'. wsLeave conn (cs, lb) = Some (cs', lb') \<and> hub_ok cs' n lb' \<and> conn \<notin> wcConn ` set cs'"
proof (cases "find (\<lambda>c. wcConn c = conn) cs")
  case None
  then have "wsLeave conn (cs, lb) = Some (cs, lb)" "conn \<notin> wcConn ` set cs"
    by (simp add: wsLeave_def) (use None in \<open>auto simp: find_None_iff\<close>)
  then show ?thesis using assms by blast
next
  case (Some c)
  then have c: "c \<in> set cs" "wcConn c = conn" by (auto dest: find_SomeD)
  then have "op_ok (Release (wcLog c)) lb" using assms by (simp add: hub_ok_def)
  from busOp_kept [OF _ _ this] assms obtain lb' where
      lb': "release (wcLog c) lb = Some lb'" "bus_wf lb'" "rings_ok lb'" "maxPer lb' = maxPer lb" by (auto simp: hub_ok_def)
  then have subs: "subs lb' = filter (\<lambda>j. j \<noteq> wcLog c) (subs lb)" by (auto simp: release_def split: if_splits)
  have d: "distinct (map wcLog cs)" "distinct (map wcConn cs)"
    using assms by (auto simp: hub_ok_def bus_wf_def)
  have "(wcLog x \<noteq> wcLog c) = (wcConn x \<noteq> conn)" if "x \<in> set cs" for x
    using d c that by (auto simp: distinct_map inj_on_def)
  then have "filter (\<lambda>x. wcLog x \<noteq> wcLog c) cs = filter (\<lambda>x. wcConn x \<noteq> conn) cs"
    by (intro filter_cong) simp_all
  then have "filter (\<lambda>j. j \<noteq> wcLog c) (map wcLog cs) = map wcLog (filter (\<lambda>c. wcConn c \<noteq> conn) cs)"
    by (simp add: filter_map o_def)
  with assms lb' subs have "hub_ok (filter (\<lambda>c. wcConn c \<noteq> conn) cs) n lb'"
    by (auto simp: hub_ok_def distinct_map_filter)
  with Some lb'(1) show ?thesis by (auto simp: wsLeave_def)
qed

lemma hub_publish [inv_intros]:
  assumes "hub_ok cs n lb"
  shows "\<exists>lb'. publish now ev lb = Some lb' \<and> hub_ok cs n lb'"
proof -
  have "op_ok (Publish now ev) lb" by simp
  from busOp_kept [OF _ _ this] assms obtain lb' where
      lb': "publish now ev lb = Some lb'" "bus_wf lb'" "rings_ok lb'" "maxPer lb' = maxPer lb" by (auto simp: hub_ok_def)
  moreover have "subs lb' = subs lb" using lb'(1) by (auto simp: publish_def Let_def)
  ultimately show ?thesis using assms by (auto simp: hub_ok_def)
qed

section \<open>The invariant of the server\<close>

text \<open>The pool a probe was started on is the pool of now, but for what probes and users change.\<close>

definition probes_ok :: "'e api_server \<Rightarrow> bool" where
  "probes_ok s \<longleftrightarrow> (\<forall>eps. ProbeTask eps \<in> set (avTasks s) \<longrightarrow> map frozen eps = poolIdentity s)"

definition server_inv :: "'e api_server \<Rightarrow> bool" where
  "server_inv s \<longleftrightarrow> probes_ok s \<and> lookups_ok s \<and> hub_ok (avHub s) (avConns s) (avBus s) \<and>
     engBlockDirect (avEngine s) = blockDirect (avBalancer s)"

text \<open>What one step may do: keep the pool's identity, and add tasks or not.\<close>

definition good_step :: "'e api_server \<Rightarrow> 'e api_server \<Rightarrow> bool" where
  "good_step s s' \<longleftrightarrow> poolIdentity s' = poolIdentity s \<and> avGate s' = avGate s \<and>
     (\<forall>eps. ProbeTask eps \<in> set (avTasks s') \<longrightarrow> ProbeTask eps \<in> set (avTasks s) \<or> map frozen eps = poolIdentity s) \<and>
     (lookups_ok s \<longrightarrow> lookups_ok s') \<and>
     (hub_ok (avHub s) (avConns s) (avBus s) \<longrightarrow> hub_ok (avHub s') (avConns s') (avBus s')) \<and>
     (engBlockDirect (avEngine s) = blockDirect (avBalancer s) \<longrightarrow>
      engBlockDirect (avEngine s') = blockDirect (avBalancer s'))"

lemma good_step_inv: "good_step s s' \<Longrightarrow> server_inv s \<Longrightarrow> server_inv s' \<and> poolIdentity s' = poolIdentity s"
  by (auto simp: good_step_def server_inv_def probes_ok_def)

lemma good_step_refl [simp]: "good_step s s"
  by (simp add: good_step_def)

text \<open>A step that leaves alone everything the invariant looks at.\<close>

lemma good_step_frame:
  assumes "poolIdentity s' = poolIdentity s" "avGate s' = avGate s" "avTasks s' = avTasks s"
    and "avDirectIP s' = avDirectIP s" "avProxyIP s' = avProxyIP s"
    and "avHub s' = avHub s" "avConns s' = avConns s" "avBus s' = avBus s"
    and "engBlockDirect (avEngine s) = blockDirect (avBalancer s) \<Longrightarrow>
      engBlockDirect (avEngine s') = blockDirect (avBalancer s')"
  shows "good_step s s'"
  using assms by (simp add: good_step_def lookups_ok_def)

lemma good_onDisk: "good_step s (fst (onDisk h s))"
  by (rule good_step_frame) (simp_all add: poolIdentity_def)

lemma good_patch:
  assumes "handleEndpointPatch ap req s = (s', r)"
  shows "good_step s s'"
  using assms
proof (cases rule: handleEndpointPatch_cases)
  case (patched i p b' e s1 missing)
  note f = sidecarEffects_frame [OF patched(4)]
  then obtain ts where ts: "avTasks s1 = avTasks s @ ts" "\<forall>t \<in> set ts. \<exists>k v. t = SidecarTask k v" by auto
  then have n: "countTask DirectIPTask ts = 0" "countTask ProxyIPTask ts = 0" "\<And>eps. ProbeTask eps \<notin> set ts"
    by (auto simp: countTask_def filter_empty_conv)
  have b: "b' = fst (patchEndpoint i p (avBalancer s))" by (simp add: patched(3))
  have "map frozen (endpoints b') = map frozen (endpoints (avBalancer s))" "blockDirect b' = blockDirect (avBalancer s)"
    by (simp_all add: b)
  with f ts n show ?thesis
    by (auto simp: good_step_def patched(5) poolIdentity_def lookups_ok_def intro: hub_broadcast)
qed simp

lemma good_version: "good_step s (fst (handleVersion ap s))"
proof -
  have c: "flight_ok c n \<Longrightarrow> flight_ok (fst (maybeRefresh now c)) (n + (if snd (maybeRefresh now c) then 1 else 0))" for c n now
    by (auto simp: flight_ok_def maybeRefresh_def)
  obtain d sd p sp where m: "maybeRefresh (apNow ap) (avDirectIP s) = (d, sd)" "maybeRefresh (apNow ap) (avProxyIP s) = (p, sp)"
    by fastforce
  show ?thesis
    using c [of "avDirectIP s" "countTask DirectIPTask (avTasks s)" "apNow ap"]
      c [of "avProxyIP s" "countTask ProxyIPTask (avTasks s)" "apNow ap"]
    by (auto simp: good_step_def handleVersion_def m poolIdentity_def lookups_ok_def)
qed

lemma good_ws: "good_step s (fst (handleWS ap req s))"
  using hub_join [of "avHub s" "avConns s" "avBus s"]
  by (auto simp: handleWS_def good_step_def poolIdentity_def lookups_ok_def split: prod.split option.split)

lemma good_start:
  assumes "\<forall>t \<in> set ts. t = ReloadTask \<or> t = ApplyTask \<or> t = ProbeTask (endpoints (avBalancer s))"
  shows "good_step s (startTasks ts s)"
proof -
  have "countTask DirectIPTask ts = 0" "countTask ProxyIPTask ts = 0"
    using assms by (auto simp: countTask_def filter_empty_conv)
  with assms show ?thesis by (auto simp: good_step_def poolIdentity_def lookups_ok_def)
qed

lemma good_route: "good_step s (fst (routeHandler ap r req s))"
proof (cases r)
  case EndpointPatch
  then show ?thesis using good_patch by (metis prod.collapse routeHandler.simps(2))
next
  case StrategyPage
  obtain b' x where b: "handleStrategy req (avBalancer s) = (b', x)" by fastforce
  then show ?thesis
    using handleStrategy_frame [OF b]
    by (intro good_step_frame) (simp_all add: StrategyPage b poolIdentity_def)
next
  case PluginsPage
  obtain eng d x where h: "handlePlugins (apEnv ap) (apTemplates ap) req (avEngine s, avDisk s) = ((eng, d), x)"
    by (metis prod.collapse)
  then show ?thesis
    using handlePlugins_flag [OF h] by (intro good_step_frame) (simp_all add: PluginsPage h poolIdentity_def)
next
  case BlockDirectPage
  obtain b eng d x where h: "handleBlockDirect (apEnv ap) req (avBalancer s, avEngine s, avDisk s) = ((b, eng, d), x)"
    by (metis prod.collapse)
  then show ?thesis
    using handleBlockDirect_frame [OF h] by (intro good_step_frame) (simp_all add: BlockDirectPage h poolIdentity_def)
next
  case WSTicketPage
  then show ?thesis by (intro good_step_frame) (simp_all add: poolIdentity_def handleWSTicket_def)
qed (simp_all add: good_onDisk good_version good_ws handleProbe_def handleSourcesReload_def handleExposureApply_def
    good_start split: prod.split)

lemma good_serve: "good_step s (fst (apiServe ap req s))"
  using good_route
  by (auto simp: apiServe_def withCORS_def withBasicAuth_def apiMux_def split: option.split)

lemma flight_done: "flight_ok c (Suc n) \<Longrightarrow> flight_ok (refreshDone now found c) n"
  by (auto simp: flight_ok_def refreshDone_def split: if_splits prod.split)

text \<open>A task that ends takes its place out of the queue.\<close>

lemma good_task:
  assumes "finishTask tp i s = Some s'" "probes_ok s"
  shows "good_step s s'"
proof (cases "i < length (avTasks s)")
  case False
  then show ?thesis using assms(1) by (simp add: finishTask_def)
next
  case True
  let ?t = "avTasks s ! i" and ?s = "s\<lparr>avTasks := dropNth i (avTasks s)\<rparr>"
  have sub: "set (dropNth i (avTasks s)) \<subseteq> set (avTasks s)"
    by (auto simp: dropNth_def dest: in_set_takeD in_set_dropD)
  note cnt = countTask_dropNth [OF True]
  have run: "runTask tp ?t ?s = Some s'" using assms(1) True by (simp add: finishTask_def)
  show ?thesis
  proof (cases ?t)
    case (ProbeTask eps)
    then have "ProbeTask eps \<in> set (avTasks s)" using True by (metis nth_mem)
    then have "map frozen eps = poolIdentity s" using assms(2) by (simp add: probes_ok_def)
    with run sub cnt [of DirectIPTask] cnt [of ProxyIPTask] show ?thesis
      by (auto simp: ProbeTask good_step_def poolIdentity_def setEndpoints_def lookups_ok_def Let_def
          intro: hub_broadcast)
  next
    case DirectIPTask
    then show ?thesis
      using run sub cnt [of DirectIPTask] cnt [of ProxyIPTask]
      by (auto simp: good_step_def poolIdentity_def lookups_ok_def flight_done)
  next
    case ProxyIPTask
    then show ?thesis
      using run sub cnt [of DirectIPTask] cnt [of ProxyIPTask]
      by (auto simp: good_step_def poolIdentity_def lookups_ok_def flight_done)
  qed (use run sub cnt [of DirectIPTask] cnt [of ProxyIPTask] in
       \<open>auto simp: good_step_def poolIdentity_def lookups_ok_def split: prod.splits if_splits\<close>)
qed

end
