(* ===== verification/Process.thy ===== *)
theory Process
  imports Api_Invariants
begin

text \<open>
  The running process: the API server, the two listeners, the connections they carry, the probing
  loop of \<open>main.go\<close> and the WebSocket clients, one step at a time. Each step is a call of the
  code that takes the locks it needs; what \<open>Dial_Steps\<close> shows of interleaved dials is not
  repeated here.
\<close>

section \<open>Steps\<close>

text \<open>
  The listeners share their rule engine with the API. \<open>prPrev\<close> is what the probing loop
  remembers of each endpoint; \<open>prInitial\<close> the pool the initial probe was started on, until it
  ends; \<open>prLoop\<close> the loop that is started then.
\<close>

record 'e process =
  prApi :: "'e api_server"
  prCache :: list_cache
  prServer :: server
  prPrev :: config
  prInitial :: "endpoint list option"
  prLoop :: probe_loop

text \<open>How the state of a probe is saved.\<close>

record save_env =
  svPath :: string
  svNow :: int
  svEncode :: "saved_state \<Rightarrow> string option"
  svFault :: io_fault

definition savePool :: "save_env \<Rightarrow> endpoint list \<Rightarrow> 'e api_server \<Rightarrow> 'e api_server" where
  "savePool v eps s =
     s\<lparr>avDisk := fst (saveState (svEncode v) (svFault v) (svPath v) \<lparr>LastProbeAt = svNow v, SavedEndpoints = eps\<rparr> (avDisk s))\<rparr>"

datatype 'e happening =
    Request "'e api_params" http_req
  | TaskEnds "'e task_params" nat
  | SocksConn proxy_env string string
  | SocksData counting_conn bool int
  | SocksClosed counting_conn int
  | HttpConn proxy_env hijack "(bool \<times> int) list" int string string
  | InitialProbeEnds "nat \<Rightarrow> probe_env" save_env
  | ProbeFetch
  | ProbePass "nat \<Rightarrow> probe_env"
  | ProbeCycle save_env
  | LogLine int event
  | ClientReads nat
  | ClientReadsLog nat
  | ClientLeaves nat

datatype outcome = Replied response | SocksGot socks_result | HttpGot http_result | Frame "json option" | Silent

definition liveServer :: "'e process \<Rightarrow> server" where
  "liveServer p = (prServer p)\<lparr>srvEngine := Some (avEngine (prApi p))\<rparr>"

definition setPool :: "balancer \<times> list_cache \<Rightarrow> 'e process \<Rightarrow> 'e process" where
  "setPool st p = p\<lparr>prApi := (prApi p)\<lparr>avBalancer := fst st\<rparr>, prCache := snd st\<rparr>"

definition setHub :: "ws_client list \<times> bus \<Rightarrow> 'e process \<Rightarrow> 'e process" where
  "setHub st p = p\<lparr>prApi := (prApi p)\<lparr>avHub := fst st, avBus := snd st\<rparr>\<rparr>"

definition livePool :: "'e process \<Rightarrow> balancer \<times> list_cache" where
  "livePool p = (avBalancer (prApi p), prCache p)"

definition liveHub :: "'e process \<Rightarrow> ws_client list \<times> bus" where
  "liveHub p = (avHub (prApi p), avBus (prApi p))"

text \<open>\<open>None\<close>: a panic outside a request, which ends the process.\<close>

fun procStep :: "'e happening \<Rightarrow> 'e process \<Rightarrow> ('e process \<times> outcome) option" where
  "procStep (Request ap req) p =
     (case apiServe ap req (prApi p) of (s, r) \<Rightarrow> Some (p\<lparr>prApi := s\<rparr>, Replied r))"
| "procStep (TaskEnds tp i) p = map_option (\<lambda>s. (p\<lparr>prApi := s\<rparr>, Silent)) (finishTask tp i (prApi p))"
| "procStep (SocksConn env network addr) p =
     (case socks5Dial env (liveServer p) network addr (livePool p) of (st, r) \<Rightarrow> Some (setPool st p, SocksGot r))"
| "procStep (SocksData c isRead n) p =
     (let b = avBalancer (prApi p)
      in Some (setPool (if isRead then connRead c n b else connWrite c n b, prCache p) p, Silent))"
| "procStep (SocksClosed c now) p = Some (setPool (connClose now c (avBalancer (prApi p)), prCache p) p, Silent)"
| "procStep (HttpConn env hj transfers now meth addr) p =
     (case serveHTTP env (liveServer p) hj transfers now meth addr (livePool p) of
        (st, r) \<Rightarrow> Some (setPool st p, HttpGot r))"
| "procStep (InitialProbeEnds w v) p =
     (case prInitial p of
        None \<Rightarrow> Some (p, Silent)
      | Some eps \<Rightarrow>
          (let updated = probeAll w [] eps; b = initialProbeEnds updated (avBalancer (prApi p))
           in Some (p\<lparr>prApi := savePool v updated ((prApi p)\<lparr>avBalancer := b\<rparr>), prInitial := None,
                      prLoop := loopStart (prLoop p)\<rparr>, Silent)))"
| "procStep ProbeFetch p = Some (p\<lparr>prLoop := loopFetch (endpoints (avBalancer (prApi p))) (prLoop p)\<rparr>, Silent)"
| "procStep (ProbePass w) p = Some (p\<lparr>prLoop := loopSend w [] (prLoop p)\<rparr>, Silent)"
| "procStep (ProbeCycle v) p =
     (case loopRecv (prLoop p) of
        (lo, None) \<Rightarrow> Some (p, Silent)
      | (lo, Some eps) \<Rightarrow>
          (let b0 = avBalancer (prApi p); current = endpoints b0; b = mergeWrite eps (prPrev p) current b0
           in Some (p\<lparr>prApi := savePool v (endpoints b) ((prApi p)\<lparr>avBalancer := b\<rparr>),
                      prPrev := fst (snd (mergeProbe (probedMap eps) current (prPrev p))), prLoop := lo\<rparr>, Silent)))"
| "procStep (LogLine now ev) p =
     map_option (\<lambda>lb. (setHub (avHub (prApi p), lb) p, Silent)) (publish now ev (avBus (prApi p)))"
| "procStep (ClientReads conn) p =
     (case wsTake conn (liveHub p) of (st, f) \<Rightarrow> Some (setHub st p, Frame f))"
| "procStep (ClientReadsLog conn) p =
     (case wsTakeLog conn (liveHub p) of (st, f) \<Rightarrow> Some (setHub st p, Frame f))"
| "procStep (ClientLeaves conn) p = map_option (\<lambda>st. (setHub st p, Silent)) (wsLeave conn (liveHub p))"

fun procRun :: "'e happening list \<Rightarrow> 'e process \<Rightarrow> ('e process \<times> outcome list) option" where
  "procRun [] p = Some (p, [])"
| "procRun (h # hs) p =
     (case procStep h p of
        None \<Rightarrow> None
      | Some (p', x) \<Rightarrow> map_option (\<lambda>(p'', xs). (p'', x # xs)) (procRun hs p'))"

section \<open>The kill-switch, for the whole process\<close>

definition noDirect :: "engine \<Rightarrow> bool" where
  "noDirect eng \<longleftrightarrow> (\<forall>r \<in> set (rules eng). rEnabled r \<longrightarrow> rAction r \<noteq> DecisionDirect)"

lemma evaluateRules_noDirect:
  "(\<forall>r \<in> set rs. rEnabled r \<longrightarrow> rAction r \<noteq> DecisionDirect) \<Longrightarrow> fst (evaluateRules fs cache rs q) \<noteq> DecisionDirect"
  by (induction fs cache rs q rule: evaluateRules.induct) (auto split: prod.splits bool.splits)

text \<open>A dial changes statuses, counters and flows only.\<close>

definition sameShape :: "balancer \<Rightarrow> balancer \<Rightarrow> bool" where
  "sameShape b b' \<longleftrightarrow> blockDirect b' = blockDirect b \<and> map frozen (endpoints b') = map frozen (endpoints b)"

lemma sameShape_refl [simp]: "sameShape b b"
  by (simp add: sameShape_def)

lemma sameShape_trans: "sameShape b b1 \<Longrightarrow> sameShape b1 b2 \<Longrightarrow> sameShape b b2"
  by (simp add: sameShape_def)

lemma sameShape_dial:
  "sameShape b (dialFailed w n ep err b)" "sameShape b (fst (dialSucceeded w n addr ep c b))"
  by (simp_all add: sameShape_def)

lemma dialAttempts_shape: "sameShape b (fst (dialAttempts v w network addr n left tried b))"
proof (induction left arbitrary: n tried b)
  case (Suc left)
  have s: "sameShape b b1" if "dialSucceeded w n addr ep c b = (b1, cc)" for ep c b1 cc
    using sameShape_dial(2) [of b w n addr ep c] that by simp
  have t: "sameShape b (fst (dialAttempts v w network addr m left tr (dialFailed w n ep err b)))" for m tr ep err
    by (rule sameShape_trans [OF sameShape_dial(1) Suc.IH])
  show ?case by (auto simp: s t split: sum.split pick_error.split prod.split)
qed simp

lemma dialContext_shape: "sameShape b (fst (dialContext v w network addr b))"
proof -
  obtain b1 tried r1 where run: "dialAttempts v w network addr 0 maxDialAttempts [] b = (b1, tried, r1)"
    by (metis prod_cases3)
  then have "sameShape b b1" using dialAttempts_shape by (metis fst_conv)
  moreover have "sameShape b1 (fst (directFallback w network addr b1))"
    by (simp add: directFallback_def sameShape_def Let_def split: sum.split prod.split)
  ultimately show ?thesis
    using run by (auto simp: dialContext_def intro: sameShape_trans split: option.split)
qed

text \<open>
  With the kill-switch on, a dial does not read the direct dial, and leaves the switch on; no
  assumption on the pool is needed.
\<close>

lemma dialContext_blocked:
  assumes "blockDirect b"
  shows "dialContext v (w\<lparr>directDial := d\<rparr>) network addr b = dialContext v w network addr b"
proof -
  obtain b1 tried r1 where run: "dialAttempts v w network addr 0 maxDialAttempts [] b = (b1, tried, r1)"
    by (metis prod_cases3)
  then have "blockDirect b1" using dialAttempts_shape assms by (metis fst_conv sameShape_def)
  then show ?thesis
    using run by (simp add: dialContext_def dialAttempts_directDial directFallback_def split: option.splits)
qed

lemma conn_frame [simp]:
  "blockDirect (connRead c n b) = blockDirect b" "blockDirect (connWrite c n b) = blockDirect b"
  "blockDirect (connClose now c b) = blockDirect b" "endpoints (connRead c n b) = endpoints b"
  "endpoints (connWrite c n b) = endpoints b" "endpoints (connClose now c b) = endpoints b"
  by (simp_all add: connRead_def connWrite_def connClose_def)

lemma tunnel_frame [simp]: "blockDirect (tunnel ts c b) = blockDirect b" "endpoints (tunnel ts c b) = endpoints b"
  unfolding tunnel_def by (induction ts arbitrary: b) (auto split: prod.splits)

lemma servePooled_frame [simp]:
  "blockDirect (fst (servePooled hj ts now c b)) = blockDirect b" "endpoints (fst (servePooled hj ts now c b)) = endpoints b"
  by (cases hj; simp add: servePooled_def)+

abbreviation redirect :: "(string \<Rightarrow> string \<Rightarrow> string + nat) \<Rightarrow> proxy_env \<Rightarrow> proxy_env" where
  "redirect d env \<equiv> env\<lparr>net := (net env)\<lparr>directDial := d\<rparr>\<rparr>"

lemma pluginDecide_noDirect:
  "srvEngine s = Some eng \<Longrightarrow> noDirect eng \<Longrightarrow> fst (pluginDecide fs s q cache) \<noteq> DecisionDirect"
  using evaluateRules_noDirect by (auto simp: pluginDecide_def evaluate_def noDirect_def)

lemma socks5Dial_shape: "sameShape b (fst (fst (socks5Dial env s network addr (b, cache))))"
  using dialContext_shape by (auto simp: socks5Dial_def split: prod.split decision.split) (metis fst_conv)

lemma servePooled_shape: "sameShape b (fst (servePooled hj ts now c b))"
  by (simp add: sameShape_def)

lemma serveHTTP_shape: "sameShape b (fst (fst (serveHTTP env s hj ts now meth addr (b, cache))))"
proof -
  have d: "sameShape b b'" if "dialContext v w network addr b = (b', r)" for v w network b' r
    using dialContext_shape that by (metis fst_conv)
  have "sameShape b (fst (servePooled hj ts now c b'))" if "dialContext v w network addr b = (b', r)" for v w network b' r c
    using sameShape_trans [OF d [OF that] servePooled_shape] .
  then show ?thesis
    using d by (auto simp: serveHTTP_def handleConnect_def split: prod.split decision.split dial_result.split) (metis fst_conv)
qed

lemma socks5Dial_blocked:
  assumes "srvEngine s = Some eng" "noDirect eng" "blockDirect b"
  shows "socks5Dial (redirect d env) s network addr (b, cache) = socks5Dial env s network addr (b, cache)"
proof -
  obtain v cache' where v: "pluginDecide (files env) s (socks5Request env network addr) cache = (v, cache')" by fastforce
  then have "v \<noteq> DecisionDirect" using pluginDecide_noDirect [OF assms(1,2)] by (metis fst_conv)
  moreover have "socks5Request (redirect d env) network addr = socks5Request env network addr"
    by (simp add: socks5Request_def)
  ultimately show ?thesis
    using v dialContext_blocked [OF assms(3)] by (cases v) (simp_all add: socks5Dial_def)
qed

lemma serveHTTP_blocked:
  assumes "srvEngine s = Some eng" "noDirect eng" "blockDirect b"
  shows "serveHTTP (redirect d env) s hj ts now meth addr (b, cache) = serveHTTP env s hj ts now meth addr (b, cache)"
proof -
  obtain v cache' where v: "pluginDecide (files env) s (httpRequest env addr) cache = (v, cache')" by fastforce
  then have "v \<noteq> DecisionDirect" using pluginDecide_noDirect [OF assms(1,2)] by (metis fst_conv)
  moreover have "httpRequest (redirect d env) addr = httpRequest env addr" by (simp add: httpRequest_def)
  ultimately show ?thesis
    using v dialContext_blocked [OF assms(3)]
    by (cases v) (simp_all add: serveHTTP_def handleConnect_def decide_pluginDecide)
qed

text \<open>The action a rule gets when it is put in the engine: its name counts before its value.\<close>

definition givenAction :: "rule \<Rightarrow> decision" where
  "givenAction r = (if rActionName r = [] then rAction r else decisionFromName (rActionName r))"

lemma setRule_given: "setRule i r = Some r' \<Longrightarrow> rAction r' = givenAction r \<and> rEnabled r' = rEnabled r"
  by (cases "rActionName r = []") (auto simp: setRule_Some givenAction_def)

lemma setRules_noDirect:
  assumes "setRules rs e = Some e'" "\<forall>r \<in> set rs. rEnabled r \<longrightarrow> givenAction r \<noteq> DecisionDirect"
  shows "noDirect e'"
proof -
  have "rEnabled r' \<longrightarrow> rAction r' \<noteq> DecisionDirect" if r': "r' \<in> set (rules e')" for r'
  proof -
    from r' obtain i where i: "i < length (rules e')" "r' = rules e' ! i" by (auto simp: in_set_conv_nth)
    with assms(1) have "i < length rs" "setRule i (rs ! i) = Some r'" by (auto simp: setRules_nth)
    then show ?thesis using setRule_given assms(2) nth_mem by metis
  qed
  then show ?thesis by (simp add: noDirect_def)
qed

text \<open>
  A happening that does not open the process: no request turns the switch off or enables a
  direct rule.
\<close>

fun keepsClosed :: "'e happening \<Rightarrow> bool" where
  "keepsClosed (Request ap req) =
     (case hqBody req of
        BlockBody v \<Rightarrow> v
      | RulesBody rs \<Rightarrow> (\<forall>r \<in> set rs. rEnabled r \<longrightarrow> givenAction r \<noteq> DecisionDirect)
      | _ \<Rightarrow> True)"
| "keepsClosed _ = True"

fun redirected :: "(string \<Rightarrow> string \<Rightarrow> string + nat) \<Rightarrow> 'e happening \<Rightarrow> 'e happening" where
  "redirected d (SocksConn env network addr) = SocksConn (redirect d env) network addr"
| "redirected d (HttpConn env hj ts now meth addr) = HttpConn (redirect d env) hj ts now meth addr"
| "redirected d h = h"

definition closedToDirect :: "'e process \<Rightarrow> bool" where
  "closedToDirect p \<longleftrightarrow> blockDirect (avBalancer (prApi p)) \<and> noDirect (avEngine (prApi p))"

lemma handleEndpointPatch_closed:
  assumes "handleEndpointPatch ap req s = (s', r)"
  shows "avEngine s' = avEngine s \<and> blockDirect (avBalancer s') = blockDirect (avBalancer s)"
  using assms
proof (cases rule: handleEndpointPatch_cases)
  case (patched i p b' e s1 missing)
  have "blockDirect b' = blockDirect (avBalancer s)" using patchEndpoint_frame(1) patched(3) by (metis fst_conv)
  with sidecarEffects_frame [OF patched(4)] show ?thesis by (simp add: patched(5))
qed simp

lemma routeHandler_closed:
  assumes "keepsClosed (Request ap req)" "noDirect (avEngine s)" "blockDirect (avBalancer s)"
  shows "noDirect (avEngine (fst (routeHandler ap r req s))) \<and> blockDirect (avBalancer (fst (routeHandler ap r req s)))"
proof (cases r)
  case EndpointPatch
  obtain s' x where h: "handleEndpointPatch ap req s = (s', x)" by fastforce
  then show ?thesis using handleEndpointPatch_closed [OF h] assms(2,3) by (simp add: EndpointPatch)
next
  case StrategyPage
  obtain b' x where b: "handleStrategy req (avBalancer s) = (b', x)" by fastforce
  then show ?thesis using handleStrategy_frame [OF b] assms(2,3) by (simp add: StrategyPage b)
next
  case PluginsPage
  obtain eng d x where h: "handlePlugins (apEnv ap) (apTemplates ap) req (avEngine s, avDisk s) = ((eng, d), x)"
    by (metis prod.collapse)
  then have "eng = avEngine s \<or> (\<exists>rs. hqBody req = RulesBody rs \<and> setRules rs (avEngine s) = Some eng)"
    by (auto simp: handlePlugins_def split: if_splits req_body.splits option.splits prod.splits)
  then have "noDirect eng" using assms(1,2) setRules_noDirect by auto
  then show ?thesis using assms(3) by (simp add: PluginsPage h)
next
  case BlockDirectPage
  obtain b eng d x where h: "handleBlockDirect (apEnv ap) req (avBalancer s, avEngine s, avDisk s) = ((b, eng, d), x)"
    by (metis prod.collapse)
  then have "blockDirect b"
    using assms(1,3)
    by (auto simp: handleBlockDirect_def setBlockDirect_def split: if_splits req_body.splits prod.splits)
  then show ?thesis
    using handleBlockDirect_frame [OF h] assms(2) by (simp add: BlockDirectPage h noDirect_def)
next
  case Version
  then show ?thesis using assms(2,3) by (simp add: handleVersion_def split: prod.split)
next
  case WS
  then show ?thesis using assms(2,3) by (simp add: handleWS_def split: prod.split option.split)
next
  case WSTicketPage
  then show ?thesis using assms(2,3) by (simp add: handleWSTicket_def)
qed (use assms(2,3) in \<open>simp_all add: handleProbe_def handleSourcesReload_def handleExposureApply_def\<close>)

lemma apiServe_closed:
  assumes "keepsClosed (Request ap req)" "noDirect (avEngine s)" "blockDirect (avBalancer s)"
  shows "noDirect (avEngine (fst (apiServe ap req s))) \<and> blockDirect (avBalancer (fst (apiServe ap req s)))"
  using routeHandler_closed [OF assms] assms(2,3)
  by (auto simp: apiServe_def withCORS_def withBasicAuth_def apiMux_def split: option.split)

lemma runTask_closed:
  "runTask tp t s = Some s' \<Longrightarrow>
   avEngine s' = avEngine s \<and> blockDirect (avBalancer s') = blockDirect (avBalancer s)"
  by (cases t) (auto simp: setEndpoints_def Let_def split: prod.splits if_splits)

lemma procStep_closed:
  assumes "closedToDirect p" "keepsClosed h"
  shows "procStep (redirected d h) p = procStep h p"
    and "procStep h p = Some (p', x) \<Longrightarrow> closedToDirect p'"
proof -
  have c: "blockDirect (avBalancer (prApi p))" "noDirect (avEngine (prApi p))"
      "srvEngine (liveServer p) = Some (avEngine (prApi p))"
    using assms(1) by (simp_all add: closedToDirect_def liveServer_def)
  note sb = socks5Dial_blocked [OF c(3,2,1)] and hb = serveHTTP_blocked [OF c(3,2,1)]
  show "procStep (redirected d h) p = procStep h p"
    by (cases h) (simp_all add: livePool_def sb hb)
  assume step: "procStep h p = Some (p', x)"
  show "closedToDirect p'"
  proof (cases h)
    case (Request ap req)
    then show ?thesis
      using step apiServe_closed [of ap req "prApi p"] assms(2) c by (auto simp: closedToDirect_def split: prod.splits)
  next
    case (TaskEnds tp i)
    then show ?thesis
      using step c by (auto simp: closedToDirect_def finishTask_def dest!: runTask_closed split: if_splits)
  next
    case (SocksConn env network addr)
    then show ?thesis
      using step c socks5Dial_shape [of "avBalancer (prApi p)" env "liveServer p" network addr "prCache p"]
      by (auto simp: closedToDirect_def livePool_def setPool_def sameShape_def split: prod.splits)
  next
    case (HttpConn env hj ts now meth addr)
    then show ?thesis
      using step c serveHTTP_shape [of "avBalancer (prApi p)" env "liveServer p" hj ts now meth addr "prCache p"]
      by (auto simp: closedToDirect_def livePool_def setPool_def sameShape_def split: prod.splits)
  qed (use step c in \<open>auto simp: closedToDirect_def setPool_def setHub_def savePool_def initialProbeEnds_def
      mergeWrite_def setEndpoints_def loopRecv_def Let_def split: option.splits prod.splits if_splits\<close>)
qed

lemma procRun_closed:
  "closedToDirect p \<Longrightarrow> \<forall>h \<in> set hs. keepsClosed h \<Longrightarrow> procRun (map (redirected d) hs) p = procRun hs p"
proof (induction hs arbitrary: p)
  case (Cons h hs)
  have h: "keepsClosed h" "\<forall>h \<in> set hs. keepsClosed h" using Cons.prems(2) by simp_all
  show ?case
  proof (cases "procStep h p")
    case (Some y)
    obtain p' x where y: "procStep h p = Some (p', x)" using Some by (cases y) auto
    from Cons.IH [OF procStep_closed(2) [OF Cons.prems(1) h(1) y] h(2)]
    show ?thesis using procStep_closed(1) [OF Cons.prems(1) h(1), of d] y by simp
  qed (use procStep_closed(1) [OF Cons.prems(1) h(1), of d] in simp)
qed simp

section \<open>Starting\<close>

definition freshCache :: ip_cache where
  "freshCache = \<lparr>icIP = [], icCountry = [], icAt = 0, icRefreshing = False\<rparr>"

text \<open>
  The log bus keeps 800 events of each level; the initial probe takes the pool it finds. The
  \<open>.env\<close> file is read after the generators wrote their files, none of which is \<open>.env\<close>.
\<close>

definition startProcess ::
  "serve_env \<Rightarrow> app_config \<Rightarrow> endpoint list \<Rightarrow> config \<Rightarrow> disk \<Rightarrow> 'e \<Rightarrow> 'e process option" where
  "startProcess se cfg saved osEnv d0 e =
     (case serve se cfg saved osEnv (readDotEnv (d0 ''.env'')) d0 of
        None \<Rightarrow> None
      | Some (b, srv, d) \<Rightarrow>
          (case srvEngine srv of
             None \<Rightarrow> None
           | Some eng \<Rightarrow> Some
               \<lparr>prApi = \<lparr>avBalancer = b, avEngine = eng, avDisk = d, avTickets = Map.empty, avHub = [], avConns = 0,
                         avBus = newBus 800, avDirectIP = freshCache, avProxyIP = freshCache, avDocker = e,
                         avTasks = [], avGate = readEnvKV (d ''.env'')\<rparr>,
                prCache = Map.empty, prServer = srv, prPrev = Map.empty,
                prInitial = (if lbProbeOnStart (acLoadBalancing cfg) \<and> endpoints b \<noteq> [] then Some (endpoints b) else None),
                prLoop = loopIdle\<rparr>))"

lemma startProcess_serve:
  assumes "startProcess se cfg saved osEnv d0 e = Some p"
  obtains b srv d eng where "serve se cfg saved osEnv (readDotEnv (d0 ''.env'')) d0 = Some (b, srv, d)"
    "srvEngine srv = Some eng" "avBalancer (prApi p) = b" "avEngine (prApi p) = eng" "avHub (prApi p) = []"
    "avBus (prApi p) = newBus 800" "avTasks (prApi p) = []" "avDirectIP (prApi p) = freshCache"
    "avProxyIP (prApi p) = freshCache" "prInitial p \<in> {None, Some (endpoints b)}" "prLoop p = loopIdle"
  using assms by (auto simp: startProcess_def split: option.splits prod.splits)

lemma serve_engine:
  assumes "serve se cfg saved osEnv envFile d0 = Some (b, srv, d)"
  obtains eng where "srvEngine srv = Some eng"
    "startEngine (plRoutingRules (acPlugins cfg)) (plBlockDirect (acPlugins cfg)) = Some eng"
    "blockDirect b = plBlockDirect (acPlugins cfg)"
proof -
  obtain eng where eng: "startEngine (plRoutingRules (acPlugins cfg)) (plBlockDirect (acPlugins cfg)) = Some eng"
      "srv = startServer osEnv envFile (acProxy cfg) eng (plTorrentBlock (acPlugins cfg))"
      "blockDirect b = plBlockDirect (acPlugins cfg)"
    using assms
    by (auto simp: serve_def startBalancer_def setBlockDirect_def Let_def split: option.splits prod.splits)
  have "srvEngine srv = Some eng"
    by (simp add: eng(2) startServer_def withAuth_def newServer_def Let_def split: prod.split)
  with eng that show thesis by blast
qed

lemma started_engine:
  assumes "startProcess se cfg saved osEnv d0 e = Some p"
  shows "startEngine (plRoutingRules (acPlugins cfg)) (plBlockDirect (acPlugins cfg)) = Some (avEngine (prApi p))"
    and "blockDirect (avBalancer (prApi p)) = plBlockDirect (acPlugins cfg)"
proof -
  from assms obtain b srv d eng where st: "serve se cfg saved osEnv (readDotEnv (d0 ''.env'')) d0 = Some (b, srv, d)"
    "srvEngine srv = Some eng" "avBalancer (prApi p) = b" "avEngine (prApi p) = eng" by (rule startProcess_serve)
  from st(1) obtain eng' where "srvEngine srv = Some eng'"
    "startEngine (plRoutingRules (acPlugins cfg)) (plBlockDirect (acPlugins cfg)) = Some eng'"
    "blockDirect b = plBlockDirect (acPlugins cfg)" by (rule serve_engine)
  with st show "startEngine (plRoutingRules (acPlugins cfg)) (plBlockDirect (acPlugins cfg)) = Some (avEngine (prApi p))"
    "blockDirect (avBalancer (prApi p)) = plBlockDirect (acPlugins cfg)" by simp_all
qed

text \<open>
  C1. A process started with \<open>block_direct\<close> and without an enabled \<open>direct\<close> rule sends no client's
  connection around the pool, whatever happens to it: connections, dashboard requests, probes and
  clients in any order, as long as no request turns the switch off or enables a \<open>direct\<close> rule.
  Everything any client is answered, and the state of the process, is the same whatever direct
  dials of the listeners would have answered. (The diagnostics page and the lookup of the
  machine's own address dial directly by design; they are not connections of a client.)
\<close>

theorem process_kill_switch:
  assumes "startProcess se cfg saved osEnv d0 e = Some p" "plBlockDirect (acPlugins cfg)"
    and "\<And>rc. rc \<in> set (plRoutingRules (acPlugins cfg)) \<Longrightarrow> rcAction rc = ''direct'' \<Longrightarrow> rcEnabled rc = Some False"
    and "\<forall>h \<in> set hs. keepsClosed h"
  shows "procRun (map (redirected d) hs) p = procRun hs p"
proof (rule procRun_closed [OF _ assms(4)])
  note eng = started_engine [OF assms(1)]
  have "rAction r \<noteq> DecisionDirect" if "r \<in> set (rules (avEngine (prApi p)))" "rEnabled r" for r
    using startEngine_rules(2) [OF eng(1) that(1)] that(2) assms(3)
    by (force simp: configRule_def Let_def split: if_splits)
  then show "closedToDirect p"
    using eng(2) assms(2) by (simp add: closedToDirect_def noDirect_def)
qed

section \<open>The invariant of the process\<close>

definition proc_inv :: "'e process \<Rightarrow> bool" where
  "proc_inv p \<longleftrightarrow> server_inv (prApi p) \<and>
     (\<forall>eps. Some eps \<in> {prInitial p, loPool (prLoop p), loChan (prLoop p)} \<longrightarrow> map frozen eps = poolIdentity (prApi p))"

text \<open>The pools that a probe holds on to have the endpoints of the pool.\<close>

lemma loop_holds:
  assumes "\<forall>eps. Some eps \<in> {loPool lo, loChan lo} \<longrightarrow> map frozen eps = k"
  shows "map frozen pool = k \<Longrightarrow> Some eps \<in> {loPool (loopFetch pool lo), loChan (loopFetch pool lo)} \<Longrightarrow> map frozen eps = k"
    and "Some eps \<in> {loPool (loopSend w t lo), loChan (loopSend w t lo)} \<Longrightarrow> map frozen eps = k"
  using assms by (auto simp: loopFetch_def loopSend_def frozen_probeAll split: if_splits option.splits)

lemma server_inv_frame:
  assumes "server_inv s" "avTasks s' = avTasks s" "avDirectIP s' = avDirectIP s" "avProxyIP s' = avProxyIP s"
    and "poolIdentity s' = poolIdentity s" "hub_ok (avHub s') (avConns s') (avBus s')"
    and "engBlockDirect (avEngine s') = engBlockDirect (avEngine s)"
    and "blockDirect (avBalancer s') = blockDirect (avBalancer s)"
  shows "server_inv s'"
  using assms by (simp add: server_inv_def probes_ok_def lookups_ok_def)

lemma savePool_frame [simp]:
  "avTasks (savePool v eps s) = avTasks s" "avDirectIP (savePool v eps s) = avDirectIP s"
  "avProxyIP (savePool v eps s) = avProxyIP s" "avHub (savePool v eps s) = avHub s"
  "avConns (savePool v eps s) = avConns s" "avBus (savePool v eps s) = avBus s"
  "avEngine (savePool v eps s) = avEngine s" "avBalancer (savePool v eps s) = avBalancer s"
  "poolIdentity (savePool v eps s) = poolIdentity s"
  by (simp_all add: savePool_def poolIdentity_def)

text \<open>A step of the pool alone, and one of the hub alone.\<close>

lemma inv_setPool:
  assumes "proc_inv p" "sameShape (avBalancer (prApi p)) (fst st)"
  shows "proc_inv (setPool st p)" "poolIdentity (prApi (setPool st p)) = poolIdentity (prApi p)"
proof -
  show id: "poolIdentity (prApi (setPool st p)) = poolIdentity (prApi p)"
    using assms(2) by (simp add: setPool_def poolIdentity_def sameShape_def)
  have "server_inv (prApi (setPool st p))"
    by (rule server_inv_frame [of "prApi p"])
      (use assms in \<open>auto simp: setPool_def poolIdentity_def sameShape_def proc_inv_def server_inv_def\<close>)
  then show "proc_inv (setPool st p)" using assms(1) id by (simp add: proc_inv_def) (simp add: setPool_def)
qed

lemma inv_setHub:
  assumes "proc_inv p" "hub_ok (fst st) (avConns (prApi p)) (snd st)"
  shows "proc_inv (setHub st p)" "poolIdentity (prApi (setHub st p)) = poolIdentity (prApi p)"
proof -
  show id: "poolIdentity (prApi (setHub st p)) = poolIdentity (prApi p)"
    by (simp add: setHub_def poolIdentity_def)
  have "server_inv (prApi (setHub st p))"
    by (rule server_inv_frame [of "prApi p"])
      (use assms in \<open>auto simp: setHub_def poolIdentity_def proc_inv_def server_inv_def\<close>)
  then show "proc_inv (setHub st p)" using assms(1) id by (simp add: proc_inv_def) (simp add: setHub_def)
qed

lemma loop_inv:
  "proc_inv p \<Longrightarrow> \<forall>eps. Some eps \<in> {loPool (prLoop p), loChan (prLoop p)} \<longrightarrow> map frozen eps = poolIdentity (prApi p)"
  by (simp add: proc_inv_def)

lemma inv_setLoop:
  "proc_inv p \<Longrightarrow> (\<And>eps. Some eps \<in> {loPool lo, loChan lo} \<Longrightarrow> map frozen eps = poolIdentity (prApi p)) \<Longrightarrow>
   proc_inv (p\<lparr>prLoop := lo\<rparr>)"
  by (simp add: proc_inv_def)

lemma procStep_inv:
  assumes "proc_inv p" "procStep h p = Some (p', x)"
  shows "proc_inv p' \<and> poolIdentity (prApi p') = poolIdentity (prApi p)"
proof -
  have inv: "server_inv (prApi p)" "hub_ok (avHub (prApi p)) (avConns (prApi p)) (avBus (prApi p))"
    using assms(1) by (simp_all add: proc_inv_def server_inv_def)
  show ?thesis
  proof (cases h)
    case (Request ap req)
    then show ?thesis
      using assms good_step_inv [OF good_serve inv(1), of ap req]
      by (auto simp: proc_inv_def split: prod.splits)
  next
    case (TaskEnds tp i)
    then obtain s where s: "finishTask tp i (prApi p) = Some s" "p' = p\<lparr>prApi := s\<rparr>" using assms(2) by auto
    have "probes_ok (prApi p)" using inv(1) by (simp add: server_inv_def)
    from good_step_inv [OF good_task [OF s(1) this] inv(1)] show ?thesis
      using assms(1) by (simp add: s(2) proc_inv_def)
  next
    case (SocksConn env network addr)
    obtain st r where d: "socks5Dial env (liveServer p) network addr (livePool p) = (st, r)" by fastforce
    have "sameShape (avBalancer (prApi p)) (fst st)"
      using socks5Dial_shape [of "avBalancer (prApi p)" env "liveServer p" network addr "prCache p"] d
      by (simp add: livePool_def)
    with inv_setPool [OF assms(1) this] assms(2) d show ?thesis by (auto simp: SocksConn)
  next
    case (HttpConn env hj ts now meth addr)
    obtain st r where d: "serveHTTP env (liveServer p) hj ts now meth addr (livePool p) = (st, r)" by fastforce
    have "sameShape (avBalancer (prApi p)) (fst st)"
      using serveHTTP_shape [of "avBalancer (prApi p)" env "liveServer p" hj ts now meth addr "prCache p"] d
      by (simp add: livePool_def)
    with inv_setPool [OF assms(1) this] assms(2) d show ?thesis by (auto simp: HttpConn)
  next
    case (SocksData c isRead n)
    then show ?thesis using assms inv_setPool [OF assms(1)] by (cases isRead) (auto simp: sameShape_def)
  next
    case (SocksClosed c now)
    then show ?thesis using assms inv_setPool [OF assms(1)] by (auto simp: sameShape_def)
  next
    case (LogLine now ev)
    then show ?thesis
      using assms(2) hub_publish [OF inv(2), of now ev] inv_setHub [OF assms(1)] by auto
  next
    case (ClientReads conn)
    obtain cs lb f where t: "wsTake conn (liveHub p) = ((cs, lb), f)" by (metis prod.collapse)
    with hub_take [OF inv(2)] inv_setHub [OF assms(1), of "(cs, lb)"] assms(2) show ?thesis
      by (auto simp: ClientReads liveHub_def)
  next
    case (ClientReadsLog conn)
    obtain cs lb f where t: "wsTakeLog conn (liveHub p) = ((cs, lb), f)" by (metis prod.collapse)
    with hub_take_log [OF inv(2)] inv_setHub [OF assms(1), of "(cs, lb)"] assms(2) show ?thesis
      by (auto simp: ClientReadsLog liveHub_def)
  next
    case (ClientLeaves conn)
    then show ?thesis
      using assms(2) hub_leave [OF inv(2), of conn] inv_setHub [OF assms(1)] by (auto simp: liveHub_def)
  next
    case (ProbeCycle v)
    show ?thesis
    proof (cases "loChan (prLoop p)")
      case (Some eps)
      let ?b = "mergeWrite eps (prPrev p) (endpoints (avBalancer (prApi p))) (avBalancer (prApi p))"
      have b: "sameShape (avBalancer (prApi p)) ?b"
        by (simp add: sameShape_def mergeWrite_def mergeProbe_endpoints setEndpoints_def)
      have "server_inv (savePool v (endpoints ?b) ((prApi p)\<lparr>avBalancer := ?b\<rparr>))"
        by (rule server_inv_frame [OF inv(1)]) (use b inv(2) in \<open>simp_all add: poolIdentity_def sameShape_def\<close>)
      moreover have "poolIdentity (savePool v (endpoints ?b) ((prApi p)\<lparr>avBalancer := ?b\<rparr>)) = poolIdentity (prApi p)"
        using b by (simp add: poolIdentity_def sameShape_def)
      moreover have "p' = p\<lparr>prApi := savePool v (endpoints ?b) ((prApi p)\<lparr>avBalancer := ?b\<rparr>),
          prPrev := fst (snd (mergeProbe (probedMap eps) (endpoints (avBalancer (prApi p))) (prPrev p))),
          prLoop := (prLoop p)\<lparr>loChan := None\<rparr>\<rparr>"
        using assms(2) Some by (simp add: ProbeCycle loopRecv_def Let_def)
      ultimately show ?thesis using assms(1) by (simp add: proc_inv_def)
    qed (use assms ProbeCycle in \<open>auto simp: loopRecv_def\<close>)
  next
    case ProbeFetch
    have "p' = p\<lparr>prLoop := loopFetch (endpoints (avBalancer (prApi p))) (prLoop p)\<rparr>" using assms(2) ProbeFetch by simp
    then show ?thesis
      using inv_setLoop [OF assms(1) loop_holds(1) [OF loop_inv [OF assms(1)] poolIdentity_def [symmetric]]] by simp
  next
    case (ProbePass w)
    have "p' = p\<lparr>prLoop := loopSend w [] (prLoop p)\<rparr>" using assms(2) ProbePass by simp
    then show ?thesis using inv_setLoop [OF assms(1) loop_holds(2) [OF loop_inv [OF assms(1)]]] by simp
  next
    case (InitialProbeEnds w v)
    show ?thesis
    proof (cases "prInitial p")
      case (Some eps)
      let ?b = "initialProbeEnds (probeAll w [] eps) (avBalancer (prApi p))"
      have b: "sameShape (avBalancer (prApi p)) ?b"
        using assms(1) Some by (simp add: sameShape_def initialProbeEnds_def setEndpoints_def proc_inv_def poolIdentity_def)
      have "server_inv (savePool v (probeAll w [] eps) ((prApi p)\<lparr>avBalancer := ?b\<rparr>))"
        by (rule server_inv_frame [OF inv(1)]) (use b inv(2) in \<open>simp_all add: poolIdentity_def sameShape_def\<close>)
      then show ?thesis using assms b Some by (auto simp: InitialProbeEnds proc_inv_def poolIdentity_def sameShape_def loopStart_def Let_def)
    qed (use assms InitialProbeEnds in auto)
  qed
qed

lemma procRun_inv:
  "proc_inv p \<Longrightarrow> procRun hs p = Some (p', xs) \<Longrightarrow> proc_inv p' \<and> poolIdentity (prApi p') = poolIdentity (prApi p)"
proof (induction hs arbitrary: p xs)
  case (Cons h hs)
  then obtain p1 x ys where "procStep h p = Some (p1, x)" "procRun hs p1 = Some (p', ys)"
    by (auto split: option.splits)
  with procStep_inv [OF Cons.prems(1)] Cons.IH show ?case by metis
qed simp

lemma newBus_ok: "bus_wf (newBus n)" "rings_ok (newBus n)" "subs (newBus n) = []" "maxPer (newBus 800) = 800"
  by (simp_all add: newBus_def bus_wf_def rings_ok_def)

lemma startProcess_inv:
  assumes "startProcess se cfg saved osEnv d0 e = Some p"
  shows "proc_inv p"
proof -
  from assms obtain b srv d eng where st:
    "serve se cfg saved osEnv (readDotEnv (d0 ''.env'')) d0 = Some (b, srv, d)" "srvEngine srv = Some eng"
    "avBalancer (prApi p) = b" "avEngine (prApi p) = eng" "avHub (prApi p) = []" "avBus (prApi p) = newBus 800"
    "avTasks (prApi p) = []" "avDirectIP (prApi p) = freshCache" "avProxyIP (prApi p) = freshCache"
    "prInitial p \<in> {None, Some (endpoints b)}" "prLoop p = loopIdle" by (rule startProcess_serve)
  have "engBlockDirect eng = blockDirect b"
    using startEngine_rules(1) [OF started_engine(1) [OF assms]] started_engine(2) [OF assms] st(3,4) by simp
  with st(3-11) newBus_ok show ?thesis
    by (auto simp: proc_inv_def server_inv_def probes_ok_def lookups_ok_def flight_ok_def freshCache_def hub_ok_def poolIdentity_def loopIdle_def)
qed

text \<open>
  C4. Nothing that happens to a running process adds, removes or reorders an endpoint, or changes
  anything of it but whether it is enabled, its priority, status and latency: requests, tasks that
  end late, dials and probe cycles in any order. The rule engine and the balancer agree on the
  kill-switch throughout.
\<close>

theorem pool_identity_fixed:
  assumes "startProcess se cfg saved osEnv d0 e = Some p" "procRun hs p = Some (p', xs)"
  shows "map frozen (endpoints (avBalancer (prApi p'))) = map frozen (endpoints (avBalancer (prApi p))) \<and>
    engBlockDirect (avEngine (prApi p')) = blockDirect (avBalancer (prApi p'))"
  using procRun_inv [OF startProcess_inv [OF assms(1)] assms(2)]
  by (simp add: poolIdentity_def proc_inv_def server_inv_def)

lemma procStep_alive:
  assumes "proc_inv p" "procStep h p = None"
  obtains tp i k v where "h = TaskEnds tp i" "i < length (avTasks (prApi p))" "avTasks (prApi p) ! i = SidecarTask k v"
proof -
  have inv: "hub_ok (avHub (prApi p)) (avConns (prApi p)) (avBus (prApi p))"
    using assms(1) by (simp add: proc_inv_def server_inv_def)
  have "publish now ev (avBus (prApi p)) \<noteq> None" "wsLeave conn (avHub (prApi p), avBus (prApi p)) \<noteq> None" for now ev conn
    using hub_publish [OF inv, of now ev] hub_leave [OF inv, of conn] by auto
  with assms(2) obtain tp i where h: "h = TaskEnds tp i" "finishTask tp i (prApi p) = None"
    by (cases h) (auto simp: liveHub_def loopRecv_def Let_def split: prod.splits option.splits)
  then have "i < length (avTasks (prApi p)) \<and> (\<exists>k v. avTasks (prApi p) ! i = SidecarTask k v)"
    by (cases "avTasks (prApi p) ! i") (auto simp: finishTask_def Let_def split: if_splits)
  with h(1) that show thesis by blast
qed


section \<open>A concrete run\<close>

fun isTaskEnd :: "'e happening \<Rightarrow> bool" where
  "isTaskEnd (TaskEnds tp i) = True"
| "isTaskEnd _ = False"

lemma procRun_total:
  "proc_inv p \<Longrightarrow> \<forall>h \<in> set hs. \<not> isTaskEnd h \<Longrightarrow> \<exists>p' xs. procRun hs p = Some (p', xs)"
proof (induction hs arbitrary: p)
  case (Cons h hs)
  have "procStep h p \<noteq> None"
    by (rule notI, rule procStep_alive [OF Cons.prems(1)]) (use Cons.prems(2) in auto)
  then obtain p1 x where step: "procStep h p = Some (p1, x)" by (cases "procStep h p") auto
  with procStep_inv [OF Cons.prems(1) step] Cons show ?case by fastforce
qed simp

definition exampleDiag :: diag_env where
  "exampleDiag = \<lparr>dgRTT = 3, dgDial = (\<lambda>_. None), dgSocks = (\<lambda>_. None), dgSocksDial = (\<lambda>_ _. None),
     dgLookup = (\<lambda>_. Inl ''no such host''), dgHas = (\<lambda>_. False), dgRun = (\<lambda>_ _. ([], None)), dgTTL = (\<lambda>_ _. Inl ''timeout'')\<rparr>"

definition exampleParams :: "(container list) api_params" where
  "exampleParams =
     \<lparr>apEnv = exampleApi, apDocker = smallEngine, apKeys = (\<lambda>_. []), apStatePath = ''data/state.json'',
      apEncodeState = (\<lambda>_. Some ''{state}''), apStateFault = NoFault, apNow = 10 ^ 18, apLater = 10 ^ 18, apToken = ''t1'',
      apOSEnv = Map.empty, apTemplates = JArr [], apBuild = \<lparr>biVersion = ''1.4.0'', biCommit = ''dev''\<rparr>, apUptime = 9,
      apSources = (\<lambda>_. None), apDiag = exampleDiag, apRootStat = (\<lambda>_ _. Absent), apZip = (\<lambda>_. []), apAddrs = None,
      apEnvWrite = WroteAll\<rparr>"

definition exampleRun :: "(container list) happening list" where
  "exampleRun =
     [Request exampleParams (apiRequest ''GET'' ''/api/ws'' BadBody), Request exampleParams (apiRequest ''GET'' ''/api/version'' BadBody),
      Request exampleParams (apiRequest ''PUT'' ''/api/block-direct'' (BlockBody True)), SocksConn env_down ''tcp'' ''x:1'',
      Request exampleParams (apiRequest ''POST'' ''/api/probe'' BadBody), ClientReads 0]"

lemma example_process:
  obtains p where "startProcess exampleServe blockedConfig exampleSaved Map.empty exampleDisk ([] :: container list) = Some p"
proof -
  obtain b s d where bs: "serve exampleServe blockedConfig exampleSaved Map.empty Map.empty exampleDisk = Some (b, s, d)"
    using blocked_start by (cases "serve exampleServe blockedConfig exampleSaved Map.empty Map.empty exampleDisk") auto
  moreover have "readDotEnv (exampleDisk ''.env'') = Map.empty" by (simp add: exampleDisk_def readDotEnv_def)
  moreover obtain eng where "srvEngine s = Some eng" using bs by (rule serve_engine)
  ultimately show thesis using that by (simp add: startProcess_def)
qed

lemma exampleRun_quiet: "\<forall>h \<in> set exampleRun. \<not> isTaskEnd h" "\<forall>h \<in> set exampleRun. keepsClosed h"
  by (simp_all add: exampleRun_def apiRequest_def)

theorem process_kill_switch_witness:
  "\<exists>p. startProcess exampleServe blockedConfig exampleSaved Map.empty exampleDisk ([] :: container list) = Some p \<and>
     (\<forall>d. procRun (map (redirected d) exampleRun) p = procRun exampleRun p)"
proof -
  obtain p where p: "startProcess exampleServe blockedConfig exampleSaved Map.empty exampleDisk ([] :: container list) = Some p"
    by (rule example_process)
  have "plBlockDirect (acPlugins blockedConfig)" "plRoutingRules (acPlugins blockedConfig) = []"
    by (simp_all add: blockedConfig_def)
  with process_kill_switch [OF p, of exampleRun] exampleRun_quiet(2) p show ?thesis by auto
qed

theorem pool_identity_fixed_witness:
  "\<exists>p p' xs. startProcess exampleServe blockedConfig exampleSaved Map.empty exampleDisk ([] :: container list) = Some p \<and>
     procRun exampleRun p = Some (p', xs) \<and>
     map frozen (endpoints (avBalancer (prApi p'))) = map frozen (endpoints (avBalancer (prApi p)))"
proof -
  obtain p where p: "startProcess exampleServe blockedConfig exampleSaved Map.empty exampleDisk ([] :: container list) = Some p"
    by (rule example_process)
  obtain p' xs where r: "procRun exampleRun p = Some (p', xs)"
    using procRun_total [OF startProcess_inv [OF p] exampleRun_quiet(1)] by blast
  from pool_identity_fixed [OF p r] p r show ?thesis by blast
qed


end
