(* ===== verification/Restart.thy ===== *)
theory Restart
  imports Process
begin

text \<open>
  What is left after a restart of what the dashboard did: the user's edits of endpoints through
  the state file, the routing rules through \<open>config.yaml\<close>; and what a toggle of a sidecar does
  to its container.
\<close>

section \<open>Endpoint edits\<close>

lemma sidecarEffects_disk:
  "sidecarEffects ap e en s = (s', m) \<Longrightarrow> avDisk s' = avDisk s \<and> avBalancer s' = avBalancer s"
  using sidecarEffects_frame by blast

text \<open>What a PATCH that is answered with 200 leaves in the pool and, when it can be saved, in the file.\<close>

lemma patch_outcome:
  assumes "handleEndpointPatch ap req s = (s', r)" "rsStatus r = 200"
    and "hqBody req = PatchBody p" "hqPath req = ''/api/endpoints/'' @ i"
  shows "\<exists>e. find (\<lambda>e. ID e = i) (endpoints (avBalancer s)) = Some e \<and>
    avBalancer s' = fst (patchEndpoint i p (avBalancer s)) \<and>
    (apStatePath ap \<noteq> [] \<longrightarrow>
       avDisk s' = fst (saveState (apEncodeState ap) (apStateFault ap) (apStatePath ap)
         \<lparr>LastProbeAt = apNow ap, SavedEndpoints = endpoints (avBalancer s')\<rparr> (avDisk s)))"
proof -
  have i: "trimPrefix (hqPath req) ''/api/endpoints/'' = i"
    by (simp add: assms(4) trimPrefix_def hasPrefix_def)
  from assms i obtain b' e where h: "patchEndpoint i p (avBalancer s) = (b', Some e)"
    by (auto simp: handleEndpointPatch_def httpError_def Let_def split: if_splits prod.splits option.splits)
  obtain s1 missing where s1: "sidecarEffects ap e (pEnabled p) (s\<lparr>avBalancer := b'\<rparr>) = (s1, missing)" by fastforce
  have m: "hqMethod req = ''PATCH'' \<or> hqMethod req = ''POST''" "i \<noteq> []"
    using assms i by (auto simp: handleEndpointPatch_def httpError_def Let_def split: if_splits)
  have s': "s' = broadcastPool ap (endpoints b') (persistEndpointState ap s1)"
    using assms(1,3) i h s1 m by (auto simp: handleEndpointPatch_def)
  have "find (\<lambda>e. ID e = i) (endpoints (avBalancer s)) \<noteq> None"
    using h by (auto simp: patchEndpoint_def Let_def find_update_first)
  then show ?thesis
    using h sidecarEffects_disk [OF s1] by (auto simp: s' persistEndpointState_def)
qed

lemma frozen_uris: "map frozen xs = map frozen ys \<Longrightarrow> map RawURI xs = map RawURI ys"
proof -
  have "map RawURI zs = map (\<lambda>(a, b, c, d, u, v). u) (map frozen zs)" for zs by (simp add: frozen_def o_def)
  then show "map frozen xs = map frozen ys \<Longrightarrow> map RawURI xs = map RawURI ys" by metis
qed

lemma stateByURI_found:
  assumes "distinct (map RawURI eps)" "e \<in> set eps"
  shows "stateByURI eps (RawURI e) = Some e"
proof -
  have "distinct (map fst (map (\<lambda>e. (RawURI e, e)) (rev eps)))"
    using assms(1) by (simp add: o_def flip: rev_map)
  with assms(2) show ?thesis unfolding stateByURI_def by (intro map_of_is_SomeI) auto
qed

text \<open>
  C5. What the user sets for an endpoint on the dashboard is there after a restart: when a PATCH is
  answered with 200 and the state could be saved, the pool that the next start collects, from
  whatever subscriptions it then reads, gives every endpoint with that URI the enabled flag of
  the PATCH and its priority, unless that is 0.
\<close>

theorem patch_survives_restart:
  assumes "handleEndpointPatch ap req s = (s', r)" "rsStatus r = 200"
    and "hqBody req = PatchBody p" "hqPath req = ''/api/endpoints/'' @ i"
    and "distinct (map RawURI (endpoints (avBalancer s)))"
    and "find (\<lambda>e. ID e = i) (endpoints (avBalancer s)) = Some e"
    and "apStatePath ap \<noteq> []" "apStateFault ap = NoFault"
    and "\<And>st out. apEncodeState ap st = Some out \<Longrightarrow> decode out = Some st"
    and "apEncodeState ap \<lparr>LastProbeAt = apNow ap, SavedEndpoints = endpoints (avBalancer s')\<rparr> \<noteq> None"
    and "collectPool env (savedAtStart decode (fileRead (avDisk s') (apStatePath ap))) sub sc = Some pool"
    and "e' \<in> set pool" "RawURI e' = RawURI e"
  shows "(\<forall>v. pEnabled p = Some v \<longrightarrow> Enabled e' = v) \<and>
    (\<forall>n. pPriority p = Some n \<longrightarrow> n \<noteq> 0 \<longrightarrow> Priority e' = n)"
proof -
  let ?eps = "endpoints (avBalancer s')"
  from patch_outcome [OF assms(1-4)] have b': "avBalancer s' = fst (patchEndpoint i p (avBalancer s))"
    and d': "avDisk s' = fst (saveState (apEncodeState ap) NoFault (apStatePath ap)
         \<lparr>LastProbeAt = apNow ap, SavedEndpoints = ?eps\<rparr> (avDisk s))"
    using assms(7,8) by auto
  obtain out where out: "apEncodeState ap \<lparr>LastProbeAt = apNow ap, SavedEndpoints = ?eps\<rparr> = Some out"
      "decode out = Some \<lparr>LastProbeAt = apNow ap, SavedEndpoints = ?eps\<rparr>" using assms(9,10) by blast
  have saved: "savedAtStart decode (fileRead (avDisk s') (apStatePath ap)) = ?eps"
    using out by (simp add: d' saveState_def writeAtomic_def fileRead_def savedAtStart_def loadState_def Let_def)
  have found: "find (\<lambda>e. ID e = i) ?eps = Some (applyPatch p e)"
    using assms(6) by (simp add: b' patchEndpoint_def Let_def find_update_first)
  have uris: "map RawURI ?eps = map RawURI (endpoints (avBalancer s))"
    unfolding b' by (rule frozen_uris [OF frozen_patchEndpoint])
  have "RawURI (applyPatch p e) = RawURI e" by (auto simp: applyPatch_def Let_def split: option.split)
  with stateByURI_found [of ?eps "applyPatch p e"] find_SomeD [OF found] uris assms(5)
  have st: "stateByURI ?eps (RawURI e) = Some (applyPatch p e)" by simp
  from assms(11) obtain acc where "acc_inv (stateByURI ?eps) acc" "pool = snd acc"
    unfolding saved by (rule collectPool_inv) blast
  then have "overrides_kept (stateByURI ?eps) e'" using assms(12) by (simp add: acc_inv_def)
  then show ?thesis
    using st assms(13) by (auto simp: overrides_kept_def applyPatch_def Let_def split: option.splits)
qed

section \<open>Routing rules\<close>

text \<open>What the YAML decoder makes of a rule, by the tags of \<open>config.RoutingRuleConfig\<close>.\<close>

definition strAt :: "string \<Rightarrow> yval \<Rightarrow> string" where
  "strAt k v = strOr (valueAt k v) []"

definition decodeRule :: "yval \<Rightarrow> rule_config" where
  "decodeRule v =
     (let m = (case valueAt ''match'' v of Some m \<Rightarrow> m | None \<Rightarrow> YNull)
      in \<lparr>rcMatch = \<lparr>mType = strAt ''type'' m, mValue = strAt ''value'' m\<rparr>, rcAction = strAt ''action'' v,
          rcEnabled = (case valueAt ''enabled'' v of Some (YBool b) \<Rightarrow> Some b | _ \<Rightarrow> None),
          rcNote = strAt ''note'' v\<rparr>)"

lemma nKind_childAt [simp]: "nKind (childAt k m) = MappingNode"
  by (simp add: childAt_def emptyMap_def split: option.split)

lemma childAt_onChild:
  "wf_map m \<Longrightarrow> nKind (f (childAt k m)) = MappingNode \<Longrightarrow> childAt k (onChild k f m) = f (childAt k m)"
  by (simp add: childAt_def [of k "onChild k f m"])

definition ruleKey :: "rule \<Rightarrow> match_expr \<times> decision \<times> bool" where
  "ruleKey r = (rMatch r, rAction r, rEnabled r)"

lemma evaluateRules_key:
  "map ruleKey rs = map ruleKey rs' \<Longrightarrow> evaluateRules fs cache rs q = evaluateRules fs cache rs' q"
proof (induction fs cache rs q arbitrary: rs' rule: evaluateRules.induct)
  case (2 fs cache r rs h pt hint)
  then obtain r' rs1 where rs': "rs' = r' # rs1" "ruleKey r' = ruleKey r" "map ruleKey rs = map ruleKey rs1"
    by (auto simp: Cons_eq_map_conv)
  then have "rMatch r' = rMatch r" "rAction r' = rAction r" "rEnabled r' = rEnabled r" by (simp_all add: ruleKey_def)
  with 2 rs' show ?case by (auto split: prod.split bool.split)
qed simp

lemma configRule_decodeRule:
  assumes "rAction r = givenAction r" "rActionName r \<noteq> []"
  shows "ruleKey (configRule (decodeRule (ruleValue r))) = ruleKey r"
    and "rActionName (configRule (decodeRule (ruleValue r))) = decisionName (rAction r)"
  using assms
  by (auto simp: configRule_def decodeRule_def ruleValue_def strAt_def strOr_def ruleKey_def givenAction_def
      decisionFromName_def Let_def)

lemma saved_rules_written:
  assumes "editConfig env (\<lambda>root. Some (onChild ''plugins'' (setNode ''routing_rules'' nd) root)) d = (d', Written)"
    and "parseDoc (aeYAML env) (configPath env) d = Some doc" "root = documentRoot doc" "wf_map root"
    and "wf_map (childAt ''plugins'' root)"
    and "reads_back (aeYAML env) (withRoot (onChild ''plugins'' (setNode ''routing_rules'' nd) root) doc)"
  shows "\<exists>root'. configRoot env d' = Some root' \<and> yget ''routing_rules'' (childAt ''plugins'' root') = Some nd"
proof -
  let ?edit = "onChild ''plugins'' (setNode ''routing_rules'' nd)"
  obtain out where e: "yMarshal (aeYAML env) (withRoot (?edit root) doc) = Some out" "d' = d(configPath env \<mapsto> out)"
    using assms(1-3) by (auto elim!: editConfig_Written)
  have "configRoot env d' = Some (?edit root)" unfolding e(2) by (rule configRoot_written [OF assms(6) e(1)])
  moreover have "childAt ''plugins'' (?edit root) = setNode ''routing_rules'' nd (childAt ''plugins'' root)"
    using childAt_onChild [OF assms(4), of "setNode ''routing_rules'' nd" "''plugins''"] by simp
  ultimately show ?thesis using assms(5) by simp
qed

lemma restarted_engine:
  assumes "setRules rs eng = Some eng'" "length rs < 10 ^ 16"
  shows "\<exists>eng2. startEngine (map decodeRule (map ruleValue (rules eng'))) block = Some eng2 \<and>
    (\<forall>fs cache q. evaluate fs cache eng2 q = evaluate fs cache eng' q)"
proof -
  let ?rcs = "map decodeRule (map ruleValue (rules eng'))"
  have len: "length (rules eng') = length rs" using assms(1) by (simp add: setRules_nth)
  have good: "rAction r = givenAction r \<and> rActionName r \<noteq> []" if "r \<in> set (rules eng')" for r
  proof -
    from that obtain j where j: "j < length rs" "r = rules eng' ! j" using len by (auto simp: in_set_conv_nth)
    with assms(1) have "setRule j (rs ! j) = Some r" by (simp add: setRules_nth)
    then show ?thesis by (auto simp: setRule_Some givenAction_def split: if_splits) (cases "rAction (rs ! j)"; simp)+
  qed
  obtain eng2 where eng2: "newEngine (map configRule ?rcs) = Some eng2"
    using setRules_accepts [of "map configRule ?rcs"] len assms(2) by (auto simp: newEngine_def)
  have key: "ruleKey (rules eng2 ! j) = ruleKey (rules eng' ! j)" if j: "j < length rs" for j
  proof -
    let ?r = "rules eng' ! j"
    have g: "rAction ?r = givenAction ?r" "rActionName ?r \<noteq> []" using good [of ?r] j len by simp_all
    have "setRule j (configRule (decodeRule (ruleValue ?r))) = Some (rules eng2 ! j)"
      using eng2 j len by (auto simp: newEngine_def setRules_nth)
    then have "ruleKey (rules eng2 ! j) = ruleKey (configRule (decodeRule (ruleValue ?r)))"
      using configRule_decodeRule(2) [OF g] configRule_decodeRule(1) [OF g]
      by (auto simp: setRule_Some ruleKey_def split: if_splits)
    then show ?thesis using configRule_decodeRule(1) [OF g] by simp
  qed
  have "length (rules eng2) = length rs" using eng2 len by (simp add: newEngine_def setRules_nth)
  with key len have "map ruleKey (rules eng2) = map ruleKey (rules eng')" by (intro nth_equalityI) simp_all
  note key2 = this
  have "evaluate fs cache (setEngBlockDirect block eng2) q = evaluate fs cache eng' q" for fs cache q
    using evaluateRules_key [OF key2] by (simp add: evaluate_def setEngBlockDirect_def)
  moreover have "startEngine ?rcs block = Some (setEngBlockDirect block eng2)"
    using eng2 by (simp add: startEngine_def)
  ultimately show "\<exists>eng2. startEngine ?rcs block = Some eng2 \<and> (\<forall>fs cache q. evaluate fs cache eng2 q = evaluate fs cache eng' q)"
    by blast
qed

text \<open>
  C12. The rules set on the dashboard mean the same after a restart. A PUT of the rules puts them
  into the running engine and, when it could be saved, writes the tree of these very rules into
  \<open>plugins.routing_rules\<close>; and the engine that a start builds from rules written that way exists
  and gives every request the verdict the running engine gives, with the same effect on the cache
  of list files.
\<close>

theorem rules_survive_restart:
  assumes "handlePlugins env tj req (eng, d) = ((eng', d'), r)" "hqMethod req = ''PUT''"
    and "hqBody req = RulesBody rs" "rsStatus r = 200" "length rs < 10 ^ 16"
    and "parseDoc (aeYAML env) (configPath env) d = Some doc" "root = documentRoot doc" "wf_map root"
    and "wf_map (childAt ''plugins'' root)" "nd = yNodeOf (aeYAML env) (YList (map ruleValue (rules eng')))"
    and "reads_back (aeYAML env) (withRoot (onChild ''plugins'' (setNode ''routing_rules'' nd) root) doc)"
  shows "(snd (persistRoutingRules env (rules eng') d) = Written \<longrightarrow>
      (\<exists>root'. configRoot env d' = Some root' \<and>
         yget ''routing_rules'' (childAt ''plugins'' root') = Some nd)) \<and>
    (\<exists>eng2. startEngine (map decodeRule (map ruleValue (rules eng'))) block = Some eng2 \<and>
       (\<forall>fs cache q. evaluate fs cache eng2 q = evaluate fs cache eng' q))"
proof (intro conjI impI)
  have set': "setRules rs eng = Some eng'" and d': "d' = fst (persistRoutingRules env (rules eng') d)"
    using assms(1-4) by (auto simp: handlePlugins_def panicked_def split: option.splits prod.splits)
  show "\<exists>root'. configRoot env d' = Some root' \<and>
      yget ''routing_rules'' (childAt ''plugins'' root') = Some nd"
    if "snd (persistRoutingRules env (rules eng') d) = Written"
    by (rule saved_rules_written [OF _ assms(6-9,11)])
      (use that d' assms(10) in \<open>simp add: persistRoutingRules_def prod_eq_iff\<close>)
  show "\<exists>eng2. startEngine (map decodeRule (map ruleValue (rules eng'))) block = Some eng2 \<and>
      (\<forall>fs cache q. evaluate fs cache eng2 q = evaluate fs cache eng' q)"
    by (rule restarted_engine [OF set' assms(5)])
qed

section \<open>Sidecars and their containers\<close>

lemma sidecar_task:
  assumes "engine_laws dk view" "tpDocker tp = dk"
  shows "case filter (\<lambda>c. ctService c = sidecarDockerService kind) (view (avDocker t)) of
      [] \<Rightarrow> \<exists>d. runTask tp (SidecarTask kind v) t = Some (t\<lparr>avDocker := d\<rparr>) \<and> view d = view (avDocker t)
    | c # _ \<Rightarrow> engine_answers dk view (sidecarDockerService kind) v (avDocker t) \<longrightarrow> 12 \<le> length (ctID c) \<longrightarrow>
        (\<exists>d. runTask tp (SidecarTask kind v) t = Some (t\<lparr>avDocker := d\<rparr>) \<and>
           view d = setRunning (ctID c) v (view (avDocker t)))"
  using control_nothing [OF assms(1), of kind "avDocker t" v] control_works [OF assms(1), of kind v "avDocker t"]
  by (fastforce simp: assms(2) split: list.split)

text \<open>
  C28. Toggling a sidecar on the dashboard: the pool has the new flag at once, no container changes
  before the answer is sent, and exactly one task is left behind. Whenever that task runs and
  whatever the containers then are, if the engine answers, it starts (or stops) the first container
  of the sidecar's compose service, touches no other and changes nothing else of the server; if the
  service has no container, none changes. In any case, an action that is reported done was on that
  first container, and one that did nothing changed no container. The identifier of the container
  has at least the twelve characters the log line shows.
\<close>

theorem sidecar_toggle:
  assumes "engine_laws (apDocker ap) view" "handleEndpointPatch ap req s = (s', r)" "rsStatus r = 200"
    and "hqBody req = PatchBody p" "hqPath req = ''/api/endpoints/'' @ i" "pEnabled p = Some v"
    and "find (\<lambda>e. ID e = i) (endpoints (avBalancer s)) = Some e" "Protocol e = ''sidecar''"
    and "cget (Config e) ''sidecar_kind'' = kind"
  shows "(\<exists>e'. find (\<lambda>e. ID e = i) (endpoints (avBalancer s')) = Some e' \<and> Enabled e' = v) \<and>
    view (avDocker s') = view (avDocker s) \<and>
    avTasks s' = avTasks s @ [SidecarTask kind v] \<and>
    (\<forall>tp t. tpDocker tp = apDocker ap \<longrightarrow>
       (case filter (\<lambda>c. ctService c = sidecarDockerService kind) (view (avDocker t)) of
          [] \<Rightarrow> \<exists>d. runTask tp (SidecarTask kind v) t = Some (t\<lparr>avDocker := d\<rparr>) \<and> view d = view (avDocker t)
        | c # _ \<Rightarrow> engine_answers (apDocker ap) view (sidecarDockerService kind) v (avDocker t) \<longrightarrow> 12 \<le> length (ctID c) \<longrightarrow>
            (\<exists>d. runTask tp (SidecarTask kind v) t = Some (t\<lparr>avDocker := d\<rparr>) \<and>
               view d = setRunning (ctID c) v (view (avDocker t))))) \<and>
    (\<forall>d d' res. controlSidecarContainer (apDocker ap) kind v d = (d', res) \<longrightarrow>
       (res = Controlled \<longrightarrow> (\<exists>c cs. filter (\<lambda>c. ctService c = sidecarDockerService kind) (view d) = c # cs \<and>
          view d' = setRunning (ctID c) v (view d))) \<and>
       (res = LeftAsIs \<longrightarrow> view d' = view d))"
proof -
  have i: "trimPrefix (hqPath req) ''/api/endpoints/'' = i"
    by (simp add: assms(5) trimPrefix_def hasPrefix_def)
  let ?e = "applyPatch p e"
  have e: "Protocol ?e = ''sidecar''" "Config ?e = Config e" "Enabled ?e = v"
    using assms(6,8) by (auto simp: applyPatch_def Let_def split: option.split)
  obtain b' where h: "patchEndpoint i p (avBalancer s) = (b', Some ?e)"
    using assms(7) by (simp add: patchEndpoint_def Let_def find_update_first)
  obtain d' missing where m: "sidecarMissing (apDocker ap) kind v (avDocker s) = (d', missing)" by fastforce
  have ok: "hqMethod req = ''PATCH'' \<or> hqMethod req = ''POST''" "i \<noteq> []"
    using assms(2-5) i by (auto simp: handleEndpointPatch_def httpError_def Let_def split: if_splits)
  have s': "s' = broadcastPool ap (endpoints b') (persistEndpointState ap
      (startTasks [SidecarTask kind v] ((s\<lparr>avBalancer := b'\<rparr>)\<lparr>avDocker := d'\<rparr>)))"
    using assms(2,4,6,9) i h m ok e by (auto simp: handleEndpointPatch_def sidecarEffects_def Let_def)
  have "view d' = view (avDocker s)"
    using m find_view [OF assms(1)] by (auto simp: sidecarMissing_def split: if_splits prod.splits)
  moreover have "find (\<lambda>e. ID e = i) (endpoints b') = Some ?e"
    using h by (auto simp: patchEndpoint_def Let_def)
  moreover have "case filter (\<lambda>c. ctService c = sidecarDockerService kind) (view (avDocker t)) of
        [] \<Rightarrow> \<exists>d. runTask tp (SidecarTask kind v) t = Some (t\<lparr>avDocker := d\<rparr>) \<and> view d = view (avDocker t)
      | c # _ \<Rightarrow> engine_answers (apDocker ap) view (sidecarDockerService kind) v (avDocker t) \<longrightarrow> 12 \<le> length (ctID c) \<longrightarrow>
          (\<exists>d. runTask tp (SidecarTask kind v) t = Some (t\<lparr>avDocker := d\<rparr>) \<and>
             view d = setRunning (ctID c) v (view (avDocker t)))" if "tpDocker tp = apDocker ap" for tp t
    by (rule sidecar_task [OF assms(1) that])
  ultimately show ?thesis
    using e(3) control_outcome [OF assms(1)] by (auto simp: s')
qed

section \<open>Concrete edits\<close>

definition exampleServer :: "endpoint list \<Rightarrow> container list \<Rightarrow> (container list) api_server" where
  "exampleServer eps cs =
     \<lparr>avBalancer = setEndpoints eps (newBalancer ''latency''), avEngine = \<lparr>rules = [], engBlockDirect = False\<rparr>,
      avDisk = [''data/sub.txt'' \<mapsto> feed2], avTickets = Map.empty, avHub = [], avConns = 0, avBus = newBus 500,
      avDirectIP = freshCache, avProxyIP = freshCache, avDocker = cs, avTasks = [], avGate = Map.empty\<rparr>"

definition torEndpoint :: endpoint where
  "torEndpoint = zero_endpoint\<lparr>ID := ''sidecar:tor'', Protocol := ''sidecar'', RawURI := ''sidecar://tor'',
     Config := [''sidecar_kind'' \<mapsto> ''tor''], Enabled := True, Status := ''ok''\<rparr>"

definition torBox :: container where
  "torBox = \<lparr>ctID = ''0123456789abcdef'', ctService = ''tor'', ctRunning = True\<rparr>"

definition toggleReq :: "bool \<Rightarrow> http_req" where
  "toggleReq v = apiRequest ''PATCH'' (''/api/endpoints/'' @ ''sidecar:tor'') (PatchBody \<lparr>pEnabled = Some v, pPriority = None\<rparr>)"

lemma example_toggle:
  "handleEndpointPatch exampleParams (toggleReq v) (exampleServer [torEndpoint] [torBox]) =
     (broadcastPool exampleParams [torEndpoint\<lparr>Enabled := v\<rparr>] (persistEndpointState exampleParams
        (startTasks [SidecarTask ''tor'' v] (exampleServer [torEndpoint\<lparr>Enabled := v\<rparr>] [torBox]))),
      patchReply exampleParams (torEndpoint\<lparr>Enabled := v\<rparr>) False)"
proof -
  have r: "hqMethod (toggleReq v) = ''PATCH''" "hqPath (toggleReq v) = ''/api/endpoints/sidecar:tor''"
      "hqBody (toggleReq v) = PatchBody \<lparr>pEnabled = Some v, pPriority = None\<rparr>" "apDocker exampleParams = smallEngine"
    by (simp_all add: toggleReq_def apiRequest_def exampleParams_def)
  have t: "trimPrefix ''/api/endpoints/sidecar:tor'' ''/api/endpoints/'' = ''sidecar:tor''" by code_simp
  have p: "patchEndpoint ''sidecar:tor'' \<lparr>pEnabled = Some v, pPriority = None\<rparr> (avBalancer (exampleServer [torEndpoint] [torBox])) =
      (avBalancer (exampleServer [torEndpoint\<lparr>Enabled := v\<rparr>] [torBox]), Some (torEndpoint\<lparr>Enabled := v\<rparr>))"
    by (simp add: patchEndpoint_def exampleServer_def setEndpoints_def newBalancer_def torEndpoint_def applyPatch_def)
  have k: "cget (Config torEndpoint) ''sidecar_kind'' = ''tor''" "Protocol torEndpoint = ''sidecar''"
      "sidecarDockerService ''tor'' = ''tor''"
    by (simp_all add: torEndpoint_def sidecarDockerService_def toLower_def lowerChar_def)
  have u: "exampleServer a cs\<lparr>avBalancer := avBalancer (exampleServer b cs)\<rparr> = exampleServer b cs"
      "exampleServer a cs\<lparr>avDocker := cs\<rparr> = exampleServer a cs" "avDocker (exampleServer a cs) = cs"
      "endpoints (avBalancer (exampleServer a cs)) = a" for a b cs
    by (simp_all add: exampleServer_def setEndpoints_def)
  have m: "sidecarMissing smallEngine ''tor'' v [torBox] = ([torBox], False)"
    by (simp add: sidecarMissing_def smallEngine_calls k) (simp add: torBox_def)
  have e: "sidecarEffects exampleParams (torEndpoint\<lparr>Enabled := v\<rparr>) (Some v) (exampleServer [torEndpoint\<lparr>Enabled := v\<rparr>] [torBox]) =
      (startTasks [SidecarTask ''tor'' v] (exampleServer [torEndpoint\<lparr>Enabled := v\<rparr>] [torBox]), False)"
    by (simp add: sidecarEffects_def k r(4) m u)
  show ?thesis by (simp add: handleEndpointPatch_def r t p u e)
qed

lemma control_tor:
  "controlSidecarContainer smallEngine ''tor'' v [torBox\<lparr>ctRunning := w\<rparr>] = ([torBox\<lparr>ctRunning := v\<rparr>], Controlled)"
  by (simp add: controlSidecarContainer_def smallEngine_calls sidecarDockerService_def toLower_def lowerChar_def
      torBox_def setRunning_def)

definition exampleTasks :: "(container list) task_params" where
  "exampleTasks = \<lparr>tpProbe = (\<lambda>_. probe_net), tpKeys = (\<lambda>_. []), tpTrace = None, tpNow = 0, tpDocker = smallEngine\<rparr>"

theorem sidecar_toggle_witness:
  "\<exists>s' r. handleEndpointPatch exampleParams (toggleReq False) (exampleServer [torEndpoint] [torBox]) = (s', r) \<and>
     avTasks s' = [SidecarTask ''tor'' False] \<and> avDocker s' = [torBox] \<and>
     runTask exampleTasks (SidecarTask ''tor'' False) s' = Some (s'\<lparr>avDocker := [torBox\<lparr>ctRunning := False\<rparr>]\<rparr>)"
proof -
  obtain s' r where h: "handleEndpointPatch exampleParams (toggleReq False) (exampleServer [torEndpoint] [torBox]) = (s', r)"
    by fastforce
  then have r: "rsStatus r = 200" by (auto simp: example_toggle patchReply_def okNote_def writeJSON_def Let_def)
  have q: "hqBody (toggleReq False) = PatchBody \<lparr>pEnabled = Some False, pPriority = None\<rparr>"
      "hqPath (toggleReq False) = ''/api/endpoints/'' @ ''sidecar:tor''"
    by (simp_all add: toggleReq_def apiRequest_def)
  have f: "find (\<lambda>e. ID e = ''sidecar:tor'') (endpoints (avBalancer (exampleServer [torEndpoint] [torBox]))) = Some torEndpoint"
      "Protocol torEndpoint = ''sidecar''" "cget (Config torEndpoint) ''sidecar_kind'' = ''tor''"
      "apDocker exampleParams = smallEngine" "avTasks (exampleServer [torEndpoint] [torBox]) = []"
      "avDocker (exampleServer [torEndpoint] [torBox]) = [torBox]"
    by (simp_all add: exampleServer_def setEndpoints_def torEndpoint_def exampleParams_def)
  have k: "sidecarDockerService ''tor'' = ''tor''" "ctService torBox = ''tor''" "12 \<le> length (ctID torBox)"
      "tpDocker exampleTasks = apDocker exampleParams" "setRunning (ctID torBox) False [torBox] = [torBox\<lparr>ctRunning := False\<rparr>]"
    by (simp_all add: sidecarDockerService_def toLower_def lowerChar_def torBox_def f(4) exampleTasks_def setRunning_def)
  have a: "engine_answers (apDocker exampleParams) (\<lambda>cs. cs) ''tor'' False [torBox]"
    unfolding f(4) by (rule smallEngine_answers)
  have l: "engine_laws (apDocker exampleParams) (\<lambda>cs. cs)" unfolding f(4) by (rule smallEngine_laws)
  have v: "pEnabled \<lparr>pEnabled = Some False, pPriority = None\<rparr> = Some False" by simp
  note toggled = sidecar_toggle [OF l h r q v f(1,2,3)]
  have s': "avTasks s' = [SidecarTask ''tor'' False]" "avDocker s' = [torBox]"
    using toggled by (simp_all only: f(5,6) append_Nil)
  have "\<exists>d. runTask exampleTasks (SidecarTask ''tor'' False) s' = Some (s'\<lparr>avDocker := d\<rparr>) \<and>
      d = setRunning (ctID torBox) False [torBox]"
    using toggled [THEN conjunct2, THEN conjunct2, THEN conjunct2, THEN conjunct1, rule_format, OF k(4), of s'] a k(1-3)
    by (simp only: s'(2) filter.simps simp_thms if_True list.case)
  then show ?thesis using h s' k(5) by (auto simp del: runTask.simps)
qed

text \<open>
  Two toggles in quick succession leave two tasks, and nothing orders them: when the later one
  runs first the pool has the sidecar enabled and its container is stopped.
\<close>

lemma sidecar_toggle_race:
  "let s1 = fst (handleEndpointPatch exampleParams (toggleReq False) (exampleServer [torEndpoint] [torBox]));
       (cs1, r1) = controlSidecarContainer smallEngine ''tor'' True (avDocker s1);
       (cs2, r2) = controlSidecarContainer smallEngine ''tor'' False cs1
   in avTasks s1 = [SidecarTask ''tor'' False] \<and> map ctRunning cs1 = [True] \<and> map ctRunning cs2 = [False]"
proof -
  have d: "avDocker (exampleServer eps cs) = cs" "avTasks (exampleServer eps cs) = []" for eps cs
    by (simp_all add: exampleServer_def)
  have t: "torBox = torBox\<lparr>ctRunning := True\<rparr>" by (simp add: torBox_def)
  have "controlSidecarContainer smallEngine ''tor'' True [torBox] = ([torBox\<lparr>ctRunning := True\<rparr>], Controlled)"
    using control_tor [of True True] t by simp
  then show ?thesis by (simp add: example_toggle d control_tor)
qed

definition feedEndpoint :: endpoint where
  "feedEndpoint = zero_endpoint\<lparr>ID := ''trojan:h.example:443'', Protocol := ''trojan'',
     RawURI := ''trojan://p%40ss@h.example:443?sni=s#N'', Enabled := True, Status := ''ok''\<rparr>"

definition editedState :: saved_state where
  "editedState = \<lparr>LastProbeAt = 10 ^ 18, SavedEndpoints = [feedEndpoint\<lparr>Enabled := False, Priority := 5\<rparr>]\<rparr>"

definition savingParams :: "(container list) api_params" where
  "savingParams = exampleParams\<lparr>apEncodeState := (\<lambda>st. if st = editedState then Some ''{edited}'' else None)\<rparr>"

definition editReq :: http_req where
  "editReq = apiRequest ''PATCH'' (''/api/endpoints/'' @ ''trojan:h.example:443'') (PatchBody \<lparr>pEnabled = Some False, pPriority = Some 5\<rparr>)"

lemma example_edit:
  obtains s' r where "handleEndpointPatch savingParams editReq (exampleServer [feedEndpoint] []) = (s', r)" "rsStatus r = 200"
    "endpoints (avBalancer s') = [feedEndpoint\<lparr>Enabled := False, Priority := 5\<rparr>]"
    "avDisk s' ''data/state.json'' = Some ''{edited}''"
proof -
  have t: "trimPrefix ''/api/endpoints/trojan:h.example:443'' ''/api/endpoints/'' = ''trojan:h.example:443''" by code_simp
  have sh: "apStatePath savingParams = ''data/state.json''" "apStateFault savingParams = NoFault" "apNow savingParams = 10 ^ 18"
      "apEncodeState savingParams \<lparr>LastProbeAt = 1000000000000000000,
         SavedEndpoints = [feedEndpoint\<lparr>Enabled := False, Priority := 5\<rparr>]\<rparr> = Some ''{edited}''"
    by (simp_all add: savingParams_def exampleParams_def editedState_def)
  obtain s' r where h: "handleEndpointPatch savingParams editReq (exampleServer [feedEndpoint] []) = (s', r)" by fastforce
  have p: "patchEndpoint ''trojan:h.example:443'' \<lparr>pEnabled = Some False, pPriority = Some 5\<rparr> (avBalancer (exampleServer [feedEndpoint] [])) =
      (avBalancer (exampleServer [feedEndpoint\<lparr>Enabled := False, Priority := 5\<rparr>] []), Some (feedEndpoint\<lparr>Enabled := False, Priority := 5\<rparr>))"
    by (simp add: patchEndpoint_def exampleServer_def setEndpoints_def newBalancer_def feedEndpoint_def applyPatch_def)
  have u: "exampleServer a cs\<lparr>avBalancer := avBalancer (exampleServer b cs)\<rparr> = exampleServer b cs"
      "endpoints (avBalancer (exampleServer a cs)) = a" for a b and cs :: "container list"
    by (simp_all add: exampleServer_def setEndpoints_def)
  have n: "Protocol feedEndpoint \<noteq> ''sidecar''" by (simp add: feedEndpoint_def)
  have "s' = broadcastPool savingParams [feedEndpoint\<lparr>Enabled := False, Priority := 5\<rparr>]
        (persistEndpointState savingParams (exampleServer [feedEndpoint\<lparr>Enabled := False, Priority := 5\<rparr>] []))"
      "r = patchReply savingParams (feedEndpoint\<lparr>Enabled := False, Priority := 5\<rparr>) False"
    using h by (simp_all add: editReq_def apiRequest_def handleEndpointPatch_def t p u sidecarEffects_def n)
  then show thesis
    using that h sh
    by (simp add: u persistEndpointState_def saveState_def writeAtomic_def Let_def patchReply_def okNote_def writeJSON_def)
qed

lemma edited_pool:
  "map_option (map (\<lambda>e. (RawURI e, Enabled e, Priority e))) (collectPool exampleLoad (SavedEndpoints editedState) exampleSub exampleSidecars) =
     Some [(RawURI feedEndpoint, False, 5), (''anytls://q@h.example:8443#M'', True, 0)]"
  by code_simp

theorem patch_survives_restart_witness:
  "\<exists>s' pool. s' = fst (handleEndpointPatch savingParams editReq (exampleServer [feedEndpoint] [])) \<and>
     collectPool exampleLoad (savedAtStart (\<lambda>_. Some editedState) (fileRead (avDisk s') ''data/state.json''))
       exampleSub exampleSidecars = Some pool \<and> length pool = 2 \<and> \<not> Enabled (pool ! 0) \<and> Priority (pool ! 0) = 5"
proof -
  obtain s' r where h: "handleEndpointPatch savingParams editReq (exampleServer [feedEndpoint] []) = (s', r)" "rsStatus r = 200"
      "endpoints (avBalancer s') = [feedEndpoint\<lparr>Enabled := False, Priority := 5\<rparr>]" "avDisk s' ''data/state.json'' = Some ''{edited}''"
    by (rule example_edit)
  have sh: "apStatePath savingParams = ''data/state.json''" "apStateFault savingParams = NoFault" "apNow savingParams = 10 ^ 18"
      "apEncodeState savingParams = (\<lambda>st. if st = editedState then Some ''{edited}'' else None)"
    by (simp_all add: savingParams_def exampleParams_def)
  have saved: "savedAtStart (\<lambda>_. Some editedState) (fileRead (avDisk s') ''data/state.json'') = SavedEndpoints editedState"
    using h(4) by (simp add: fileRead_def savedAtStart_def loadState_def)
  obtain pool where p: "collectPool exampleLoad (SavedEndpoints editedState) exampleSub exampleSidecars = Some pool"
      "map (\<lambda>e. (RawURI e, Enabled e, Priority e)) pool = [(RawURI feedEndpoint, False, 5), (''anytls://q@h.example:8443#M'', True, 0)]"
    using edited_pool by (cases "collectPool exampleLoad (SavedEndpoints editedState) exampleSub exampleSidecars") auto
  then obtain e1 e2 where e: "pool = [e1, e2]" "RawURI e1 = RawURI feedEndpoint" by (auto simp: map_eq_Cons_conv)
  have q: "hqBody editReq = PatchBody \<lparr>pEnabled = Some False, pPriority = Some 5\<rparr>"
      "hqPath editReq = ''/api/endpoints/'' @ ''trojan:h.example:443''"
    by (simp_all add: editReq_def apiRequest_def)
  have w: "find (\<lambda>e. ID e = ''trojan:h.example:443'') (endpoints (avBalancer (exampleServer [feedEndpoint] []))) = Some feedEndpoint"
      "distinct (map RawURI (endpoints (avBalancer (exampleServer [feedEndpoint] []))))"
    by (simp_all add: exampleServer_def setEndpoints_def feedEndpoint_def)
  have enc: "apEncodeState savingParams \<lparr>LastProbeAt = apNow savingParams, SavedEndpoints = endpoints (avBalancer s')\<rparr> \<noteq> None"
    by (simp add: sh h(3) editedState_def)
  have cp: "collectPool exampleLoad (savedAtStart (\<lambda>_. Some editedState) (fileRead (avDisk s') (apStatePath savingParams)))
      exampleSub exampleSidecars = Some pool"
    by (simp only: sh(1) saved p(1))
  have m: "apStatePath savingParams \<noteq> []" "e1 \<in> set pool" by (simp_all add: sh e)
  let ?p = "\<lparr>pEnabled = Some False, pPriority = Some 5\<rparr>"
  have "(\<forall>v. pEnabled ?p = Some v \<longrightarrow> Enabled e1 = v) \<and> (\<forall>n. pPriority ?p = Some n \<longrightarrow> n \<noteq> 0 \<longrightarrow> Priority e1 = n)"
    by (rule patch_survives_restart [where decode = "\<lambda>_. Some editedState", OF h(1,2) q w(2,1) m(1) sh(2) _ enc cp m(2) e(2)])
      (simp add: sh split: if_splits)
  then have "\<not> Enabled e1 \<and> Priority e1 = 5" by auto
  then show ?thesis using h(1) saved p(1) e by auto
qed

theorem rules_survive_restart_witness:
  "\<exists>eng' eng2. fst (fst (handlePlugins exampleApi (JArr [])
       (apiRequest ''PUT'' ''/api/plugins'' (RulesBody [port_rule ''443'' DecisionDirect, port_rule ''80'' DecisionBlock]))
       (\<lparr>rules = [], engBlockDirect = False\<rparr>, [''config.yaml'' \<mapsto> ''old'']))) = eng' \<and> length (rules eng') = 2 \<and>
     startEngine (map decodeRule (map ruleValue (rules eng'))) True = Some eng2 \<and>
     evaluate no_files Map.empty eng2 (''x'', 443, ''tcp'') = evaluate no_files Map.empty eng' (''x'', 443, ''tcp'')"
proof -
  let ?rs = "[port_rule ''443'' DecisionDirect, port_rule ''80'' DecisionBlock]"
  let ?req = "apiRequest ''PUT'' ''/api/plugins'' (RulesBody ?rs)" and ?e = "\<lparr>rules = [], engBlockDirect = False\<rparr>"
    and ?d = "[''config.yaml'' \<mapsto> ''old'']"
  have "length ?rs \<le> 10 ^ 16" by simp
  from setRules_accepts [OF this, of ?e] obtain eng' where s1: "setRules ?rs ?e = Some eng'" by blast
  then have "length (rules eng') = length ?rs" unfolding setRules_nth by blast
  with s1 have s: "setRules ?rs ?e = Some eng'" "length (rules eng') = 2" by simp_all
  obtain d' res where "persistRoutingRules exampleApi (rules eng') ?d = (d', res)" by fastforce
  then obtain r where h: "handlePlugins exampleApi (JArr []) ?req (?e, ?d) = ((eng', d'), r)" "rsStatus r = 200"
    using s(1) by (simp add: handlePlugins_def apiRequest_def okNote_def writeJSON_def)
  have q: "hqMethod ?req = ''PUT''" "hqBody ?req = RulesBody ?rs" by (simp_all add: apiRequest_def)
  have c: "parseDoc (aeYAML exampleApi) (configPath exampleApi) ?d = Some exampleDoc"
    by (simp add: parseDoc_def exampleApi_def configPath_def exampleYAML_def)
  have w: "wf_map (documentRoot exampleDoc)" "wf_map (childAt ''plugins'' (documentRoot exampleDoc))" by code_simp+
  have y: "reads_back (aeYAML exampleApi) x" for x using exampleYAML_laws(1) by (simp add: exampleApi_def)
  from rules_survive_restart [OF h(1) q h(2) _ c refl w refl y, of True] obtain eng2 where
      "startEngine (map decodeRule (map ruleValue (rules eng'))) True = Some eng2"
      "\<forall>fs cache q. evaluate fs cache eng2 q = evaluate fs cache eng' q" by auto
  then show ?thesis using h(1) s(2) by auto
qed

end
