(* ===== verification/Api_Corners.thy ===== *)
theory Api_Corners
  imports Restart
begin

text \<open>
  Corners of the API that the theorems about it do not cover, because the code does something
  else there than its callers expect: what a late probe, a refused source and an odd target do.
\<close>

section \<open>A late probe\<close>

lemma probeAll_keeps:
  "map Enabled (probeAll w t eps) = map Enabled eps" "map Priority (probeAll w t eps) = map Priority eps"
  by (auto intro!: nth_equalityI simp: probeAll_nth split: if_splits)

text \<open>
  A probe asked for on the dashboard puts back, when it ends, the flags and priorities of the
  moment it was asked for: the PATCHes answered in between are lost from the pool.
\<close>

lemma late_probe_reverts:
  assumes "runTask tp (ProbeTask eps) s = Some s'"
  shows "map Enabled (endpoints (avBalancer s')) = map Enabled eps"
    and "map Priority (endpoints (avBalancer s')) = map Priority eps"
  using assms by (auto simp: Let_def setEndpoints_def probeAll_keeps)

section \<open>A refused source\<close>

text \<open>
  A pasted source whose name is taken is refused with 409, but its text has by then replaced the
  file of the source that has the name.
\<close>

lemma refused_source_overwrites:
  assumes "handleAddSource env req d = (d', r)" "rsStatus r = 409" "hqBody req = SourceBody body"
    and "pastedSource body = ([], pasted)"
  shows "d' (sourceFile (sanitizeSourceName (sbName body))) = Some (pasted @ [CHR 0x0A])"
proof -
  let ?nm = "sanitizeSourceName (sbName body)"
  from assms obtain d1 where
      w: "writeFile (writeRes (aeFiles env) (sourceFile ?nm)) (sourceFile ?nm) (pasted @ [CHR 0x0A]) d = (d1, True)"
      and e: "editConfig env (addSourceEdit ?nm (yNodeOf (aeYAML env) (sourceEntry ?nm []))) d1 = (d', Skipped)"
    by (auto simp: handleAddSource_def httpError_def okNote_def writeJSON_def Let_def
        split: if_splits prod.splits bool.splits edit_res.splits)
  from editConfig_unwritten [OF e] have "d' = d1" by simp
  with writeFile_ok [OF w] show ?thesis by simp
qed

text \<open>A name of dots alone is accepted, and puts the file outside \<open>data/\<close>.\<close>

lemma dotted_source: "sanitizeSourceName ''..'' = ''..''" "sourceFile ''..'' = ''subscription.txt''"
  by code_simp+

section \<open>An IPv6 target\<close>

text \<open>A bare IPv6 address gets its port without brackets, so no dial can read it.\<close>

lemma diag_ipv6:
  "diagTarget ''tcp'' ''2001:db8::1'' = ''2001:db8::1:443''" "splitHostPort ''2001:db8::1:443'' = Inl TooManyColons"
  by code_simp+


end
