(* ===== verification/Cli.thy ===== *)
theory Cli
  imports Pool
begin

text \<open>
  The command line (\<open>cmd/cli.go\<close>, and the part of \<open>main.go\<close> before it): the global flags, the
  dispatch to a subcommand, the subcommands and their own reader of \<open>config.yaml\<close>.
\<close>

section \<open>Reading the configuration\<close>

definition splitLines :: "string \<Rightarrow> string list" where
  "splitLines s = (let ps = splitOn (CHR 0x0A) s in if last ps = [] then butlast ps else ps)"

text \<open>\<open>trimSpace\<close> of this file takes blanks and tabs only.\<close>

definition trimBlanks :: "string \<Rightarrow> string" where
  "trimBlanks s = trimChars s [CHR '' '', CHR 0x09]"

definition unquoteWith :: "char \<Rightarrow> string \<Rightarrow> string" where
  "unquoteWith q v = (if 2 \<le> length v \<and> v ! 0 = q \<and> last v = q then take (length v - 2) (drop 1 v) else v)"

definition splitKV :: "string \<Rightarrow> (string \<times> string) option" where
  "splitKV s =
     (case cutByte s (CHR '':'') of
        None \<Rightarrow> None
      | Some (k, v) \<Rightarrow> Some (trimBlanks k, unquoteWith (CHR 0x27) (unquoteWith (CHR 0x22) (trimBlanks v))))"

text \<open>The state of the scan: inside the block or not, the file and the URL so far.\<close>

definition scanLine :: "string \<Rightarrow> bool \<times> string \<times> string \<Rightarrow> bool \<times> string \<times> string" where
  "scanLine line st =
     (case st of (inSub, file, url) \<Rightarrow>
        if trimBlanks line = ''subscription:'' then (True, file, url)
        else if inSub then
          (if line \<noteq> [] \<and> hd line \<noteq> CHR '' '' \<and> hd line \<noteq> CHR 0x09 then (False, file, url)
           else (case splitKV (trimBlanks line) of
                   Some (k, v) \<Rightarrow>
                     (if k = ''file'' then (True, v, url) else if k = ''url'' then (True, file, v) else (True, file, url))
                 | None \<Rightarrow> (True, file, url)))
        else (False, file, url))"

definition extractSubscriptionFields :: "string \<Rightarrow> string \<times> string" where
  "extractSubscriptionFields yaml = snd (foldl (\<lambda>st line. scanLine line st) (False, [], []) (splitLines yaml))"

section \<open>Loading\<close>

text \<open>Endpoints in order, the first of each URI.\<close>

fun addUnique :: "endpoint list \<Rightarrow> endpoint list \<Rightarrow> endpoint list" where
  "addUnique acc [] = acc"
| "addUnique acc (e # es) = (if RawURI e \<in> RawURI ` set acc then addUnique acc es else addUnique (acc @ [e]) es)"

text \<open>
  The surroundings of a command: the files, HTTP, the decoder of VMess payloads, the network of a
  probe (which depends on its timeout in seconds), the answer to the health check, the process
  environment and \<open>strconv.ParseInt\<close> with base 0.
\<close>

record cli_env =
  ceLoad :: load_env
  ceProbe :: "int \<Rightarrow> nat \<Rightarrow> probe_env"
  ceHealth :: "string \<Rightarrow> int option"
  ceOSEnv :: config
  ceInt :: "string \<Rightarrow> int option"

datatype cli_output =
    NoOutput
  | VersionLine string
  | Usage
  | ErrorLine string
  | Table "string list list"
  | JSONArray "endpoint list"

datatype cli_result = Serve string | Exits int cli_output | Crashes

text \<open>A missing configuration exits; an unreadable subscription is reported and left out.\<close>

datatype loaded = NoConfig | LoadPanics | Loaded "endpoint list"

definition mustLoadEndpoints :: "cli_env \<Rightarrow> string \<Rightarrow> loaded" where
  "mustLoadEndpoints env cfgPath =
     (case leFiles (ceLoad env) cfgPath of
        None \<Rightarrow> NoConfig
      | Some data \<Rightarrow>
          (case extractSubscriptionFields data of
             (sFile, sURL) \<Rightarrow>
               (case (if sFile = [] then Some []
                      else case leFiles (ceLoad env) sFile of
                             None \<Rightarrow> Some []
                           | Some raw \<Rightarrow> parseSubscription (leVMess (ceLoad env)) raw) of
                  None \<Rightarrow> LoadPanics
                | Some eps1 \<Rightarrow>
                    (if sURL = [] then Loaded (addUnique [] eps1)
                     else case fetchSubscription (leVMess (ceLoad env)) (leGet (ceLoad env)) sURL of
                            Panics \<Rightarrow> LoadPanics
                          | Failed _ \<Rightarrow> Loaded (addUnique [] eps1)
                          | Parsed eps2 \<Rightarrow> Loaded (addUnique (addUnique [] eps1) eps2)))))"

text \<open>The cells of the table; \<open>text/tabwriter\<close> pads them.\<close>

definition endpointTable :: "endpoint list \<Rightarrow> string list list" where
  "endpointTable eps =
     [[''NAME'', ''PROTOCOL'', ''ADDRESS'', ''STATUS'', ''LATENCY(ms)''],
      [''----'', ''--------'', ''-------'', ''------'', ''-----------'']] @
     map (\<lambda>e. [Name e, Protocol e, Address e, Status e, if LatencyMs e < 0 then ''-'' else strconvItoa (LatencyMs e)]) eps"

section \<open>Flags\<close>

text \<open>
  The package \<open>flag\<close> for the flags this program defines: the values given, by name, and the
  arguments left. With \<open>ExitOnError\<close> a request for help exits with 0 and an error with 2.
\<close>

datatype flag_kind = BoolFlag | StringFlag | IntFlag

datatype flag_result = FlagsParsed config "string list" | FlagsExit int

definition boolWords :: "string list" where
  "boolWords = [''1'', ''t'', ''T'', ''TRUE'', ''true'', ''True'', ''0'', ''f'', ''F'', ''FALSE'', ''false'', ''False'']"

definition flagValueOk :: "(string \<Rightarrow> int option) \<Rightarrow> flag_kind \<Rightarrow> string \<Rightarrow> bool" where
  "flagValueOk parseInt kind v =
     (case kind of BoolFlag \<Rightarrow> v \<in> set boolWords | StringFlag \<Rightarrow> True | IntFlag \<Rightarrow> parseInt v \<noteq> None)"

definition isFlag :: "string \<Rightarrow> bool" where
  "isFlag s \<longleftrightarrow> 2 \<le> length s \<and> hd s = CHR ''-''"

text \<open>The name of a flag and the value after its equals sign; \<open>None\<close> for a bad syntax.\<close>

definition flagName :: "string \<Rightarrow> (string \<times> string option) option" where
  "flagName s =
     (let nm = (if hasPrefix s ''--'' then drop 2 s else drop 1 s)
      in if nm = [] \<or> hd nm = CHR ''-'' \<or> hd nm = CHR ''='' then None
         else (case cutByte nm (CHR ''='') of Some (k, v) \<Rightarrow> Some (k, Some v) | None \<Rightarrow> Some (nm, None)))"

function parseFlags ::
  "(string \<Rightarrow> int option) \<Rightarrow> (string \<times> flag_kind) list \<Rightarrow> string list \<Rightarrow> config \<Rightarrow> flag_result" where
  "parseFlags parseInt defs [] m = FlagsParsed m []"
| "parseFlags parseInt defs (s # args) m =
     (if \<not> isFlag s then FlagsParsed m (s # args)
      else if s = ''--'' then FlagsParsed m args
      else (case flagName s of
              None \<Rightarrow> FlagsExit 2
            | Some (nm, val) \<Rightarrow>
                (case map_of defs nm of
                   None \<Rightarrow> FlagsExit (if nm = ''help'' \<or> nm = ''h'' then 0 else 2)
                 | Some kind \<Rightarrow>
                     (case (case val of
                              Some v \<Rightarrow> Some (v, args)
                            | None \<Rightarrow>
                                if kind = BoolFlag then Some (''true'', args)
                                else (case args of [] \<Rightarrow> None | v # rest \<Rightarrow> Some (v, rest))) of
                        None \<Rightarrow> FlagsExit 2
                      | Some (v, rest) \<Rightarrow>
                          if \<not> flagValueOk parseInt kind v then FlagsExit 2
                          else parseFlags parseInt defs rest (m(nm \<mapsto> v))))))"
  by pat_completeness auto
termination
  by (relation "measure (\<lambda>(p, d, args, m). length args)") (auto split: option.splits if_splits list.splits)

section \<open>The commands\<close>

definition boolFlag :: "config \<Rightarrow> string \<Rightarrow> bool" where
  "boolFlag m k = (case m k of Some v \<Rightarrow> v \<in> {''1'', ''t'', ''T'', ''TRUE'', ''true'', ''True''} | None \<Rightarrow> False)"

definition runProbeWithEndpoints :: "cli_env \<Rightarrow> endpoint list \<Rightarrow> int \<Rightarrow> bool \<Rightarrow> cli_output" where
  "runProbeWithEndpoints env eps secs asJSON =
     (let updated = probeAll (ceProbe env secs) [] eps
      in if asJSON then JSONArray updated else Table (endpointTable updated))"

definition runListWithEndpoints :: "endpoint list \<Rightarrow> bool \<Rightarrow> cli_output" where
  "runListWithEndpoints eps asJSON = (if asJSON then JSONArray eps else Table (endpointTable eps))"

definition runProbe :: "cli_env \<Rightarrow> string \<Rightarrow> string list \<Rightarrow> cli_result" where
  "runProbe env cfgPath args =
     (case parseFlags (ceInt env) [(''timeout'', IntFlag), (''json'', BoolFlag)] args Map.empty of
        FlagsExit c \<Rightarrow> Exits c Usage
      | FlagsParsed m rest \<Rightarrow>
          (case mustLoadEndpoints env cfgPath of
             NoConfig \<Rightarrow> Exits 1 (ErrorLine ''config'')
           | LoadPanics \<Rightarrow> Crashes
           | Loaded eps \<Rightarrow>
               Exits 0 (runProbeWithEndpoints env eps
                 (case m ''timeout'' of Some v \<Rightarrow> the (ceInt env v) | None \<Rightarrow> 10) (boolFlag m ''json''))))"

definition runList :: "cli_env \<Rightarrow> string \<Rightarrow> string list \<Rightarrow> cli_result" where
  "runList env cfgPath args =
     (case parseFlags (ceInt env) [(''json'', BoolFlag)] args Map.empty of
        FlagsExit c \<Rightarrow> Exits c Usage
      | FlagsParsed m rest \<Rightarrow>
          (case mustLoadEndpoints env cfgPath of
             NoConfig \<Rightarrow> Exits 1 (ErrorLine ''config'')
           | LoadPanics \<Rightarrow> Crashes
           | Loaded eps \<Rightarrow> Exits 0 (runListWithEndpoints eps (boolFlag m ''json''))))"

definition runFetchSub :: "cli_env \<Rightarrow> string list \<Rightarrow> cli_result" where
  "runFetchSub env args =
     (case parseFlags (ceInt env) [] args Map.empty of
        FlagsExit c \<Rightarrow> Exits c Usage
      | FlagsParsed m [] \<Rightarrow> Exits 1 (ErrorLine ''fetch-sub: missing <url> argument'')
      | FlagsParsed m (u # rest) \<Rightarrow>
          (case fetchSubscription (leVMess (ceLoad env)) (leGet (ceLoad env)) u of
             Panics \<Rightarrow> Crashes
           | Failed e \<Rightarrow> Exits 1 (ErrorLine (''fetch-sub: '' @ e))
           | Parsed eps \<Rightarrow> Exits 0 (Table (endpointTable eps))))"

definition runHealthcheck :: "cli_env \<Rightarrow> cli_result" where
  "runHealthcheck env =
     (let port = (if cget (ceOSEnv env) ''MOAV_API_PORT'' \<noteq> [] then cget (ceOSEnv env) ''MOAV_API_PORT'' else ''8088'')
      in case ceHealth env (''http://127.0.0.1:'' @ port @ ''/api/healthz'') of
           None \<Rightarrow> Exits 1 (ErrorLine ''healthcheck:'')
         | Some status \<Rightarrow>
             if status \<noteq> 200 then Exits 1 (ErrorLine (''healthcheck: status '' @ strconvItoa status)) else Exits 0 NoOutput)"

text \<open>\<open>args\<close> is \<open>os.Args\<close>, the program's name first.\<close>

definition parseAndRun :: "cli_env \<Rightarrow> string \<Rightarrow> string \<Rightarrow> string list \<Rightarrow> cli_result" where
  "parseAndRun env version cfgPath args =
     (case args of
        prog # sub # rest \<Rightarrow>
          if sub = ''serve'' then Serve cfgPath
          else if sub = ''version'' then Exits 0 (VersionLine (''moav-client '' @ version))
          else if sub = ''probe'' then runProbe env cfgPath rest
          else if sub = ''list'' then runList env cfgPath rest
          else if sub = ''fetch-sub'' then runFetchSub env rest
          else if sub = ''healthcheck'' then runHealthcheck env
          else if sub \<in> {''help'', ''--help'', ''-h''} then Exits 0 Usage
          else Serve cfgPath
      | _ \<Rightarrow> Serve cfgPath)"

text \<open>\<open>main\<close> up to the server: the global flags come after a subcommand, or first.\<close>

definition cliMain :: "cli_env \<Rightarrow> string \<Rightarrow> string list \<Rightarrow> cli_result" where
  "cliMain env version args =
     (case parseFlags (ceInt env) [(''config'', StringFlag)]
             (case args of
                prog # a1 # rest \<Rightarrow> if a1 \<noteq> [] \<and> hd a1 \<noteq> CHR ''-'' then rest else a1 # rest
              | _ \<Rightarrow> []) Map.empty of
        FlagsExit c \<Rightarrow> Exits c Usage
      | FlagsParsed m _ \<Rightarrow>
          parseAndRun env version (case m ''config'' of Some p \<Rightarrow> p | None \<Rightarrow> ''config.yaml'') args)"

section \<open>What the scan reads\<close>

text \<open>The last value a key has in some lines, as the scan splits them.\<close>

definition lastValue :: "string \<Rightarrow> string list \<Rightarrow> string" where
  "lastValue k ls =
     foldl (\<lambda>v l. case splitKV (trimBlanks l) of Some (k', v') \<Rightarrow> if k' = k then v' else v | None \<Rightarrow> v) [] ls"

definition indented :: "string \<Rightarrow> bool" where
  "indented l \<longleftrightarrow> l = [] \<or> hd l = CHR '' '' \<or> hd l = CHR 0x09"

lemma lastValue_snoc:
  "lastValue k (ls @ [l]) = (case splitKV (trimBlanks l) of Some (k', v') \<Rightarrow> if k' = k then v' else lastValue k ls | None \<Rightarrow> lastValue k ls)"
  unfolding lastValue_def foldl_append by (cases "splitKV (trimBlanks l)") auto

lemma scan_outside:
  "\<forall>l \<in> set ls. trimBlanks l \<noteq> ''subscription:'' \<Longrightarrow> foldl (\<lambda>st l. scanLine l st) (False, f, u) ls = (False, f, u)"
  by (induction ls) (auto simp: scanLine_def)

lemma scan_block:
  "\<forall>l \<in> set ls. trimBlanks l \<noteq> ''subscription:'' \<and> indented l \<Longrightarrow>
   foldl (\<lambda>st l. scanLine l st) (True, [], []) ls = (True, lastValue ''file'' ls, lastValue ''url'' ls)"
proof (induction ls rule: rev_induct)
  case (snoc l ls)
  then show ?case
    by (auto simp: scanLine_def indented_def lastValue_snoc split: option.split)
qed (simp add: lastValue_def)

text \<open>
  C38. The command line's own reader of \<open>config.yaml\<close>: for a file with one line \<open>subscription:\<close>
  it takes the last \<open>file:\<close> and the last \<open>url:\<close> of the indented lines below it, at whatever
  depth they stand, and nothing of what follows. So an entry of \<open>sources:\<close> below the block's own
  fields overrides them, and a comment at the margin ends the block.
\<close>

theorem cli_subscription_block:
  assumes "splitLines yaml = pre @ l0 # block @ post" "trimBlanks l0 = ''subscription:''"
    and "\<forall>l \<in> set (pre @ block @ post). trimBlanks l \<noteq> ''subscription:''"
    and "\<forall>l \<in> set block. indented l" "post \<noteq> [] \<longrightarrow> \<not> indented (hd post)"
  shows "extractSubscriptionFields yaml = (lastValue ''file'' block, lastValue ''url'' block)"
proof -
  let ?run = "\<lambda>st ls. foldl (\<lambda>st l. scanLine l st) st ls"
  have pre: "?run (False, [], []) pre = (False, [], [])" by (rule scan_outside) (use assms(3) in simp)
  have blk: "?run (True, [], []) block = (True, lastValue ''file'' block, lastValue ''url'' block)"
    by (rule scan_block) (use assms(3,4) in simp)
  have out: "snd (?run (True, f, u) post) = (f, u)" for f u
  proof (cases post)
    case (Cons l ls)
    then have "scanLine l (True, f, u) = (False, f, u)"
      using assms(3,5) by (auto simp: scanLine_def indented_def)
    moreover have "?run (False, f, u) ls = (False, f, u)" by (rule scan_outside) (use assms(3) Cons in simp)
    ultimately show ?thesis using Cons by simp
  qed simp
  have "scanLine l0 (False, [], []) = (True, [], [])" using assms(2) by (simp add: scanLine_def)
  then show ?thesis
    by (simp add: extractSubscriptionFields_def assms(1) pre blk out)
qed

lemma addUnique_spec:
  "distinct (map RawURI acc) \<Longrightarrow>
   distinct (map RawURI (addUnique acc es)) \<and> RawURI ` set (addUnique acc es) = RawURI ` set acc \<union> RawURI ` set es \<and>
   set (addUnique acc es) \<subseteq> set acc \<union> set es"
proof (induction acc es rule: addUnique.induct)
  case (2 acc e es)
  show ?case
  proof (cases "RawURI e \<in> RawURI ` set acc")
    case True
    then show ?thesis using 2 by auto
  next
    case False
    then have "distinct (map RawURI (acc @ [e]))" using 2(3) by simp
    with False 2(2) show ?thesis by auto
  qed
qed simp

text \<open>The commands print every endpoint of a readable subscription file, and no URI twice.\<close>

lemma mustLoadEndpoints_spec:
  assumes "mustLoadEndpoints env cfgPath = Loaded eps" "leFiles (ceLoad env) cfgPath = Some data"
    and "fst (extractSubscriptionFields data) = path" "path \<noteq> []" "leFiles (ceLoad env) path = Some raw"
    and "parseSubscription (leVMess (ceLoad env)) raw = Some eps1"
  shows "distinct (map RawURI eps) \<and> RawURI ` set eps1 \<subseteq> RawURI ` set eps"
proof -
  obtain u where u: "extractSubscriptionFields data = (path, u)" using assms(3) by (cases "extractSubscriptionFields data") auto
  note s1 = addUnique_spec [of "[]" eps1]
  then have s2: "distinct (map RawURI (addUnique (addUnique [] eps1) es)) \<and>
      RawURI ` set eps1 \<subseteq> RawURI ` set (addUnique (addUnique [] eps1) es)" for es
    using addUnique_spec [of "addUnique [] eps1" es] by auto
  have "eps = addUnique [] eps1 \<or> (\<exists>es. eps = addUnique (addUnique [] eps1) es)"
    using assms(1,2,4,5,6) u by (auto simp: mustLoadEndpoints_def split: if_splits parse_result.splits)
  then show ?thesis using s1 s2 by auto
qed

section \<open>No flag works\<close>

lemma parseFlags_exits: "parseFlags p defs as m = FlagsExit c \<Longrightarrow> c = 0 \<or> c = 2"
proof (induction "length as" arbitrary: as m rule: less_induct)
  case less
  show ?case
  proof (cases as)
    case (Cons s ss)
    have IH: "parseFlags p defs rest m' = FlagsExit c \<Longrightarrow> c = 0 \<or> c = 2" if "length rest \<le> length ss" for rest m'
      using less(1) [of rest m'] that Cons by simp
    from less(2) Cons show ?thesis
      by (auto split: if_splits option.splits list.splits prod.splits dest!: IH [rotated] simp del: parseFlags.simps(2) simp: parseFlags.simps(2) [of p defs s ss m])
  qed (use less(2) in simp)
qed

text \<open>
  C39. No flag of \<open>probe\<close> or \<open>list\<close> can be used: whenever the first argument after the command is
  a flag, the program prints a usage message and exits, with status 0 for help and 2 otherwise,
  and neither probes nor lists anything. The global flag set does not know \<open>--json\<close> and
  \<open>--timeout\<close>, and those of the commands do not know \<open>--config\<close>; each sees the arguments of the
  other.
\<close>

theorem cli_flags_unusable:
  assumes "sub \<in> {''probe'', ''list''}" "isFlag a" "a \<noteq> ''--''"
  shows "cliMain env version (prog # sub # a # rest) \<in> {Exits 0 Usage, Exits 2 Usage}"
proof -
  have unknown: "parseFlags p defs (a # rest) m \<in> {FlagsExit 0, FlagsExit 2}"
    if "\<And>nm v. flagName a = Some (nm, v) \<Longrightarrow> map_of defs nm = None" for p defs m
    using assms(2,3) that by (auto split: option.split prod.split)
  let ?g = "parseFlags (ceInt env) [(''config'', StringFlag)] (a # rest) Map.empty"
  have main: "cliMain env version (prog # sub # a # rest) =
      (case ?g of FlagsExit c \<Rightarrow> Exits c Usage
       | FlagsParsed m _ \<Rightarrow> parseAndRun env version (case m ''config'' of Some p \<Rightarrow> p | None \<Rightarrow> ''config.yaml'') (prog # sub # a # rest))"
    using assms(1) by (auto simp: cliMain_def)
  show ?thesis
  proof (cases "\<exists>v. flagName a = Some (''config'', v)")
    case False
    then have "?g \<in> {FlagsExit 0, FlagsExit 2}" by (intro unknown) auto
    then show ?thesis by (auto simp: main)
  next
    case True
    then have cmd: "parseFlags (ceInt env) [(''timeout'', IntFlag), (''json'', BoolFlag)] (a # rest) Map.empty \<in> {FlagsExit 0, FlagsExit 2}"
        "parseFlags (ceInt env) [(''json'', BoolFlag)] (a # rest) Map.empty \<in> {FlagsExit 0, FlagsExit 2}"
      by (intro unknown; auto)+
    then have "runProbe env c (a # rest) \<in> {Exits 0 Usage, Exits 2 Usage}" "runList env c (a # rest) \<in> {Exits 0 Usage, Exits 2 Usage}" for c
      by (auto simp: runProbe_def runList_def)
    then have run: "parseAndRun env version c (prog # sub # a # rest) \<in> {Exits 0 Usage, Exits 2 Usage}" for c
      using assms(1) by (auto simp: parseAndRun_def)
    show ?thesis
    proof (cases ?g)
      case (FlagsExit c)
      then have "c = 0 \<or> c = 2" by (rule parseFlags_exits)
      with FlagsExit show ?thesis unfolding main by auto
    next
      case (FlagsParsed m r)
      show ?thesis unfolding main FlagsParsed flag_result.case by (rule run)
    qed
  qed
qed

section \<open>Witnesses\<close>

text \<open>The file of the block is the one of the nested source.\<close>

definition exampleYaml :: string where
  "exampleYaml = ''a: 1'' @ CHR 0x0A # ''subscription:'' @ CHR 0x0A # ''  file: main.txt'' @ CHR 0x0A #
     ''  sources:'' @ CHR 0x0A # ''    - name: x'' @ CHR 0x0A # ''      file: other.txt'' @ CHR 0x0A # ''proxy:''"

theorem cli_subscription_block_witness:
  "extractSubscriptionFields exampleYaml = (''other.txt'', [])"
proof -
  let ?block = "[''  file: main.txt'', ''  sources:'', ''    - name: x'', ''      file: other.txt'']"
  have split: "splitLines exampleYaml = [''a: 1''] @ ''subscription:'' # ?block @ [''proxy:'']" by code_simp
  have head: "trimBlanks ''subscription:'' = ''subscription:''" by code_simp
  have once: "\<forall>l \<in> set ([''a: 1''] @ ?block @ [''proxy:'']). trimBlanks l \<noteq> ''subscription:''" by code_simp
  have ind: "\<forall>l \<in> set ?block. indented l" by code_simp
  have after: "[''proxy:''] \<noteq> [] \<longrightarrow> \<not> indented (hd [''proxy:''])" by code_simp
  have vals: "lastValue ''file'' ?block = ''other.txt''" "lastValue ''url'' ?block = []" by code_simp+
  show ?thesis
    using cli_subscription_block [OF split head once ind after] by (simp only: vals)
qed

theorem cli_flags_unusable_witness:
  "\<forall>env. cliMain env ''1.4.0'' [''moav-client'', ''probe'', ''--json''] \<in> {Exits 0 Usage, Exits 2 Usage}"
  using cli_flags_unusable [of "''probe''" "''--json''" _ "''1.4.0''" "''moav-client''" "[]"]
  by (simp add: isFlag_def)

end
