(* ===== verification/Spec2Isabelle.thy ===== *)
theory Spec2Isabelle
  imports Dial_Steps Templates Api_Corners Cli
begin

text \<open>
  A model of proxy-core, the Go server of moav-client (\<open>proxy-core/\<close>): it loads endpoints from
  subscriptions, writes the configurations of the dialers and sidecars that reach them, probes
  them, and sends the connections of a SOCKS5 and an HTTP CONNECT listener through the best one;
  a dashboard talks to its REST API.

  The program and its theories, from the leaves to the process. Definitions have the names of the
  code where Isabelle allows it.

  \<^item> Shared: \<open>Prelude\<close> (hints, bounded buffers, the contract of \<open>sort.Slice\<close>), \<open>Go_Strings\<close>,
    \<open>Go_Net\<close>, \<open>Go_IP\<close>, \<open>Go_Url\<close>, \<open>Go_Base64\<close>, \<open>Go_Path\<close> (what the code uses of Go's packages, with
    their laws: splitting and joining, escaping, base64, CIDR masks, clean paths), \<open>Endpoint\<close> (the
    endpoint record). A Go string is a list of bytes, an \<open>int\<close> is a mathematical integer that is
    wrapped at 64 bits (\<open>wrap64\<close>) where the code can reach the bound.
  \<^item> \<open>balancer/\<close>: \<open>Flows\<close> (\<open>flows.go\<close>, \<open>stats.go\<close>), \<open>Balancer\<close> and \<open>Dial\<close> (\<open>balancer.go\<close>), and
    \<open>Dial_Steps\<close>, the same \<open>DialContext\<close> as a step relation of any number of goroutines, which the
    sequential one refines. Which endpoint is picked, that a dial ends after four attempts, marks
    what failed, finds what works, and never dials directly with the kill-switch on.
  \<^item> \<open>plugins/\<close>: \<open>Plugins\<close> (\<open>engine.go\<close>, \<open>lists.go\<close>, \<open>routing.go\<close>, \<open>torrent.go\<close>) and \<open>Templates\<close>
    (\<open>templates.go\<close>). The first rule that matches decides; a cached list file gives the answer of a
    freshly read one; templates do nothing until switched on.
  \<^item> \<open>proxy/\<close>: \<open>Proxy_Server\<close> (\<open>server.go\<close>, \<open>handler.go\<close>). What a client gets for each verdict, and
    that every byte of a tunnel is counted once.
  \<^item> \<open>prober/\<close>: \<open>Prober\<close>. One probe, the concurrent pass (every interleaving of its goroutines
    ends in the sequential result), and the loop of passes with its channel.
  \<^item> \<open>subscription/\<close>: \<open>Subscription\<close> (\<open>parser.go\<close>, \<open>fetcher.go\<close>, \<open>mtproxy.go\<close>), \<open>Bundle\<close>
    (\<open>moavbundle.go\<close>), \<open>WG_Conf\<close> (\<open>wgconf.go\<close>). What a parsed feed holds, and that a bundle's
    records come back through the parsers with the fields that were put in.
  \<^item> \<open>snispoof/\<close>, \<open>singbox/\<close>, \<open>xray/\<close>: \<open>Generators\<close>, \<open>Singbox\<close>, \<open>Xray\<close>. Each inbound is routed to the
    outbound of its own endpoint; \<open>Pinning\<close> puts the three after each other: no endpoint has two
    dialers, ports do not clash, and a spoofed endpoint is dialled through its own mapping.
  \<^item> \<open>sidecars/\<close>, \<open>dockerctl/\<close>: \<open>Sidecars\<close> (\<open>manager.go\<close>, \<open>configgen.go\<close>) and \<open>Docker\<close>
    (\<open>dockerctl.go\<close> and its users).
  \<^item> \<open>logbus/\<close>: \<open>Logbus\<close>. The rings hold the last events of each level after any history of
    operations, and captured lines do not depend on how the writer cuts them.
  \<^item> \<open>bundles/\<close>, \<open>backup/\<close>: \<open>Archive\<close>. Imports stay below one directory, and a restored backup
    gives back what was kept.
  \<^item> \<open>main.go\<close>, \<open>config/\<close>, \<open>state/\<close>: \<open>Pool\<close> (collecting the endpoints, merging probe results) and
    \<open>Startup\<close> (state file, configuration, rules, ports, credentials, the order of it all).
  \<^item> \<open>api/\<close>: \<open>Env_File\<close> (\<open>.env\<close> and the exposure settings), \<open>Api_Auth\<close> (the gate and the tickets of
    \<open>wsticket.go\<close>), \<open>Yaml_Edit\<close> (\<open>yamledit.go\<close>), \<open>Api_Sources\<close> and \<open>Api_Config\<close> (handlers that edit
    \<open>config.yaml\<close>; an edit changes the nodes it is about and keeps every other, keys and their
    comments included), \<open>Api_Live\<close> (handlers that report, diagnostics, the WebSocket hub), \<open>Api_Server\<close>
    (the server's state, PATCH, the routes, the mux, and the goroutines that handlers start, as
    tasks that end at any later time), \<open>Api_Invariants\<close>.
  \<^item> \<open>Process\<close>: the whole of it after start-up, one step per request, connection, task that ends,
    probe, log line or WebSocket client; \<open>Restart\<close>: what survives into the next run;
    \<open>Api_Corners\<close>: places where the code loses or misreads something.
  \<^item> \<open>cmd/\<close>: \<open>Cli\<close>, the flags and the subcommands.

  Interfaces stated as locales: \<open>ring_buffer\<close> (interpreted by the log rings and the flow ring),
  \<open>slice_sort\<close> (an insertion sort shows that the contract of \<open>sort.Slice\<close> can hold),
  \<open>first_match\<close> (the rule engine and the router), \<open>port_alloc\<close> (the three generators),
  \<open>pool_inv\<close> (what collecting the pool keeps).

  Bounds and fuel. A dial makes at most \<open>maxDialAttempts\<close> = 4 attempts and the model recurses on
  that number; a thread's dial takes at most sixteen steps. Everything else is structural, or
  has a termination proof (decimal digits, flags of the command line); nothing is cut short by
  fuel. A probe pass runs at most \<open>maxParallel\<close> = 10 goroutines, a WebSocket client queues at most
  \<open>queueCap\<close> = 8 frames, a level keeps 800 log events.

  Arguments of the model. The network, the clock, random numbers, HTTP, \<open>yaml.v3\<close>,
  \<open>encoding/json\<close>, \<open>archive/zip\<close>, the SOCKS5 package, the Docker Engine and the answers of the
  file system to a write are arguments. Hypotheses on them state documented behaviour only: a
  decoder of the state reads back what its encoder wrote, the documents of \<open>config.yaml\<close> that the
  operations of a theorem write are read back as they were, a sort permutes and sorts, the Docker Engine starts or stops the
  container it is told to and, where a theorem says so, answers; each theorem with such a hypothesis has a witness with a concrete
  function. A disk is a map from paths to contents; a write may stop at any of its steps.

  Not modelled. The accept loops of \<open>net/http\<close> and of the SOCKS5 package, signals and the orderly
  shutdown, terminal output and log texts that nothing reads again, the \<open>IP_TTL\<close> socket option of
  the trace (\<open>ttl_unix.go\<close>, \<open>ttl_windows.go\<close>). A function that nothing calls (\<open>loadEndpointsFromConfig\<close> of \<open>cmd/cli.go\<close>) is
  left out. The restart of containers at
  start-up is a definition (\<open>maybeRestartContainer\<close>) that \<open>serve\<close> does not run, because nothing of
  the start depends on its result. Data races between two handlers inside one request are
  modelled only where \<open>Dial_Steps\<close>, the probe pass and the tasks do; elsewhere a handler is one
  step. The dashboard, the shell scripts and the container images are not part of this model.
\<close>

end
